theory Spec2Isabelle
  imports Main "HOL-Library.AList"
begin

section \<open>JavaScript strings\<close>

text \<open>
  Strings are byte lists (\<open>string\<close>): the UTF-8 text of the JavaScript string. Token
  addresses, scheme tags and header names are ASCII, where \<open>String.prototype.toLowerCase\<close>
  maps \<open>A\<close>..\<open>Z\<close> to \<open>a\<close>..\<open>z\<close> and leaves every other character alone.
\<close>

definition is_upper :: "char \<Rightarrow> bool" where
  "is_upper c = (65 \<le> (of_char c :: nat) \<and> (of_char c :: nat) \<le> 90)"

definition lower_char :: "char \<Rightarrow> char" where
  "lower_char c = (if is_upper c then char_of ((of_char c :: nat) + 32) else c)"

definition toLowerCase :: "string \<Rightarrow> string" where
  "toLowerCase s = map lower_char s"

text \<open>
  What "equal case-insensitively" means, independently of lower-casing: the two strings
  have the same length and, position by position, carry the same character or the two
  cases of one letter.
\<close>

definition same_letter :: "char \<Rightarrow> char \<Rightarrow> bool" where
  "same_letter c d =
     (c = d \<or> (is_upper c \<and> (of_char d :: nat) = of_char c + 32)
            \<or> (is_upper d \<and> (of_char c :: nat) = of_char d + 32))"

fun equal_ignoring_case :: "string \<Rightarrow> string \<Rightarrow> bool" where
  "equal_ignoring_case [] [] = True"
| "equal_ignoring_case (c # cs) (d # ds) = (same_letter c d \<and> equal_ignoring_case cs ds)"
| "equal_ignoring_case _ _ = False"

section \<open>Client Payment Selector (src/hooks/usePayment.ts)\<close>

text \<open>
  \<open>PolicyRequirements\<close> as the hook declares it: \<open>scheme: string\<close>, \<open>asset?: string\<close>,
  \<open>extra?: Record<string, unknown>\<close>, of which the policy reads
  \<open>extra?.swapData\<close> cast to \<open>{ inputToken?: string } | undefined\<close>. An absent
  (\<open>undefined\<close>) property is \<open>None\<close>.
\<close>

record SwapData =
  inputToken :: "string option"

record Extra =
  swapData :: "SwapData option"

record PolicyRequirements =
  scheme :: string
  asset :: "string option"
  extra :: "Extra option"

text \<open>\<open>x?.toLowerCase() === normalizedInput\<close>: \<open>undefined\<close> is never equal to a string.\<close>

definition lower_equals :: "string option \<Rightarrow> string \<Rightarrow> bool" where
  "lower_equals x normalizedInput =
     (case x of None \<Rightarrow> False | Some s \<Rightarrow> toLowerCase s = normalizedInput)"

text \<open>\<open>extra?.swapData\<close> followed by \<open>swapData?.inputToken\<close>.\<close>

definition swapData_inputToken :: "PolicyRequirements \<Rightarrow> string option" where
  "swapData_inputToken req =
     (case extra req of
        None \<Rightarrow> None
      | Some e \<Rightarrow> (case swapData e of None \<Rightarrow> None | Some sd \<Rightarrow> inputToken sd))"

text \<open>
  The filter callback of \<open>createInputTokenPolicy\<close>. \<open>if (swapData?.inputToken)\<close> is a
  truthiness test: the empty string counts as absent.
\<close>

definition policy_keeps :: "string \<Rightarrow> PolicyRequirements \<Rightarrow> bool" where
  "policy_keeps normalizedInput req =
     (if scheme req = ''exact'' then lower_equals (asset req) normalizedInput
      else (case swapData_inputToken req of
              Some t \<Rightarrow>
                (if t \<noteq> [] then toLowerCase t = normalizedInput
                 else lower_equals (asset req) normalizedInput)
            | None \<Rightarrow> lower_equals (asset req) normalizedInput))"

definition createInputTokenPolicy ::
  "string \<Rightarrow> nat \<Rightarrow> PolicyRequirements list \<Rightarrow> PolicyRequirements list" where
  "createInputTokenPolicy inputTok version requirements =
     (let normalizedInput = toLowerCase inputTok
      in filter (policy_keeps normalizedInput) requirements)"

text \<open>
  \<open>preferExactSelector\<close>: \<open>requirements.find(r => r.scheme === "exact")\<close>, else
  \<open>requirements[0]\<close>, which is \<open>undefined\<close> (\<open>None\<close>) on an empty array.
\<close>

definition preferExactSelector ::
  "nat \<Rightarrow> PolicyRequirements list \<Rightarrow> PolicyRequirements option" where
  "preferExactSelector version requirements =
     (case find (\<lambda>r. scheme r = ''exact'') requirements of
        Some exact \<Rightarrow> Some exact
      | None \<Rightarrow> (case requirements of [] \<Rightarrow> None | r # _ \<Rightarrow> Some r))"

text \<open>The spec's comparison of a requirement's \<open>asset\<close> with the chosen token.\<close>

definition asset_is :: "string \<Rightarrow> PolicyRequirements \<Rightarrow> bool" where
  "asset_is tok req =
     (case asset req of None \<Rightarrow> False | Some a \<Rightarrow> equal_ignoring_case a tok)"

text \<open>A sample accepts list: USDC directly, and two swap quotes (WETH in, USDC in).\<close>

definition usdc_exact :: PolicyRequirements where
  "usdc_exact = \<lparr>scheme = ''exact'', asset = Some ''0x036CbD53'', extra = None\<rparr>"

definition weth_escrow :: PolicyRequirements where
  "weth_escrow = \<lparr>scheme = ''escrow'', asset = Some ''0x036CbD53'',
     extra = Some \<lparr>swapData = Some \<lparr>inputToken = Some ''0x4200AbCd''\<rparr>\<rparr>\<rparr>"

definition usdc_escrow :: PolicyRequirements where
  "usdc_escrow = \<lparr>scheme = ''escrow'', asset = Some ''0x036CbD53'',
     extra = Some \<lparr>swapData = Some \<lparr>inputToken = Some ''0x036cbd53''\<rparr>\<rparr>\<rparr>"

definition sample_accepts :: "PolicyRequirements list" where
  "sample_accepts = [weth_escrow, usdc_escrow, usdc_exact]"

section \<open>JSON values and the header codec\<close>

text \<open>
  The values that travel in the headers and bodies. \<open>JSON.stringify\<close>, \<open>JSON.parse\<close> and
  \<open>Buffer\<close>'s base64 conversion are built-ins of the runtime; they are modelled on the
  fragment the route uses: an object is its list of own properties in insertion order,
  and a property whose value is \<open>undefined\<close> is simply not in the list, which is what
  \<open>JSON.stringify\<close> makes of it.

  A number is kept as the decimal digits JavaScript prints for it: \<open>JNumber i\<close> is the
  integer \<open>i\<close>, and \<open>JDecimal m d\<close> is \<open>m / 10 ^ d\<close> with \<open>d > 0\<close> and a last digit of
  \<open>m\<close> that is not zero. The route only tests a parsed number for truthiness and hands
  it on, so rounding to a double is modelled where the route can see it: a literal too
  small for a double is falsy like the zero JavaScript reads. Otherwise a literal keeps
  its value: one of more digits than a double holds keeps its digits, one beyond the
  range of a double stays finite (JavaScript reads \<open>Infinity\<close>, truthy as well), and an
  integer of \<open>10 ^ 21\<close> or more is printed in plain digits.
\<close>

datatype json =
    JNull
  | JBool bool
  | JNumber int
  | JDecimal int nat
  | JString string
  | JArray "json list"
  | JObject "(string \<times> json) list"

text \<open>
  JavaScript truthiness; \<open>undefined\<close> is \<open>None\<close>. A decimal is a double other than zero
  iff it lies above \<open>2 ^ -1075\<close> in magnitude.
\<close>

fun truthy :: "json \<Rightarrow> bool" where
  "truthy JNull = False"
| "truthy (JBool b) = b"
| "truthy (JNumber n) = (n \<noteq> 0)"
| "truthy (JDecimal m d) = (10 ^ d < \<bar>m\<bar> * 2 ^ 1075)"
| "truthy (JString s) = (s \<noteq> [])"
| "truthy (JArray _) = True"
| "truthy (JObject _) = True"

definition truthy_opt :: "json option \<Rightarrow> bool" where
  "truthy_opt x = (case x of None \<Rightarrow> False | Some v \<Rightarrow> truthy v)"

text \<open>
  Reading a data property of a value that is not \<open>null\<close>: an own property of an object,
  \<open>undefined\<close> otherwise (the names the route reads are no built-in property of a string,
  a number or an array).
\<close>

fun get_property :: "json \<Rightarrow> string \<Rightarrow> json option" where
  "get_property (JObject kvs) k = map_of kvs k"
| "get_property _ k = None"

text \<open>An object literal some of whose properties may be \<open>undefined\<close>, as serialised.\<close>

definition object_of :: "(string \<times> json option) list \<Rightarrow> json" where
  "object_of ps = JObject (List.map_filter (\<lambda>(k, x). map_option (Pair k) x) ps)"

text \<open>\<open>s || d\<close> for an optional string: the empty string and \<open>undefined\<close> are falsy.\<close>

definition or_default :: "string option \<Rightarrow> string \<Rightarrow> string" where
  "or_default x d = (case x of None \<Rightarrow> d | Some s \<Rightarrow> if s = [] then d else s)"

subsection \<open>\<open>JSON.stringify\<close>\<close>

definition digit_char :: "nat \<Rightarrow> char" where
  "digit_char n = char_of (48 + n)"

definition hex_char :: "nat \<Rightarrow> char" where
  "hex_char n = (if n < 10 then char_of (48 + n) else char_of (87 + n))"

fun show_nat :: "nat \<Rightarrow> string" where
  "show_nat n = (if n < 10 then [digit_char n] else show_nat (n div 10) @ [digit_char (n mod 10)])"

declare show_nat.simps [simp del]

definition show_int :: "int \<Rightarrow> string" where
  "show_int i = (if i < 0 then CHR ''-'' # show_nat (nat (- i)) else show_nat (nat i))"

text \<open>
  Number::toString for a number that is no integer, \<open>m / 10 ^ d\<close> with the \<open>k\<close> digits
  \<open>s\<close> of \<open>m\<close>: the point inside the digits when \<open>d < k\<close>, \<open>0.\<close> and up to five zeros
  before them when \<open>d < k + 6\<close>, exponent notation below that.
\<close>

definition show_decimal :: "int \<Rightarrow> nat \<Rightarrow> string" where
  "show_decimal m d =
     (let s = show_nat (nat \<bar>m\<bar>); k = length s
      in (if m < 0 then ''-'' else []) @
         (if d < k then take (k - d) s @ CHR ''.'' # drop (k - d) s
          else if d < k + 6 then ''0.'' @ replicate (d - k) (CHR ''0'') @ s
          else (if k = 1 then s else hd s # CHR ''.'' # tl s) @ ''e-'' @ show_nat (Suc d - k)))"

text \<open>
  QuoteJSONString: the two-character escapes, \<open>\u00xx\<close> (lower-case hex) for the other
  control characters, every other character as it stands.
\<close>

definition escape_char :: "char \<Rightarrow> string" where
  "escape_char c =
     (if c = CHR 0x22 then [CHR 0x5C, CHR 0x22]
      else if c = CHR 0x5C then [CHR 0x5C, CHR 0x5C]
      else if c = CHR 0x08 then [CHR 0x5C, CHR ''b'']
      else if c = CHR 0x0C then [CHR 0x5C, CHR ''f'']
      else if c = CHR 0x0A then [CHR 0x5C, CHR ''n'']
      else if c = CHR 0x0D then [CHR 0x5C, CHR ''r'']
      else if c = CHR 0x09 then [CHR 0x5C, CHR ''t'']
      else if (of_char c :: nat) < 32 then
        [CHR 0x5C, CHR ''u'', CHR ''0'', CHR ''0'',
         hex_char ((of_char c :: nat) div 16), hex_char ((of_char c :: nat) mod 16)]
      else [c])"

definition quote :: "string \<Rightarrow> string" where
  "quote s = CHR 0x22 # concat (map escape_char s) @ [CHR 0x22]"

fun commas :: "string list \<Rightarrow> string" where
  "commas [] = []"
| "commas [x] = x"
| "commas (x # y # ys) = x @ CHR '','' # commas (y # ys)"

fun JSON_stringify :: "json \<Rightarrow> string" where
  "JSON_stringify JNull = ''null''"
| "JSON_stringify (JBool b) = (if b then ''true'' else ''false'')"
| "JSON_stringify (JNumber i) = show_int i"
| "JSON_stringify (JDecimal m d) = show_decimal m d"
| "JSON_stringify (JString s) = quote s"
| "JSON_stringify (JArray vs) = CHR ''['' # commas (map JSON_stringify vs) @ '']''"
| "JSON_stringify (JObject kvs) =
     CHR ''{'' # commas (map (\<lambda>(k, v). quote k @ CHR '':'' # JSON_stringify v) kvs) @ ''}''"

subsection \<open>\<open>JSON.parse\<close>\<close>

definition is_digit :: "char \<Rightarrow> bool" where
  "is_digit c = (48 \<le> (of_char c :: nat) \<and> (of_char c :: nat) \<le> 57)"

definition digit_value :: "char \<Rightarrow> nat" where
  "digit_value c = of_char c - 48"

definition is_ws :: "char \<Rightarrow> bool" where
  "is_ws c = (c = CHR 0x20 \<or> c = CHR 0x09 \<or> c = CHR 0x0A \<or> c = CHR 0x0D)"

definition skip_ws :: "string \<Rightarrow> string" where
  "skip_ws cs = dropWhile is_ws cs"

definition hex_value :: "char \<Rightarrow> nat option" where
  "hex_value c =
     (let n = (of_char c :: nat)
      in if 48 \<le> n \<and> n \<le> 57 then Some (n - 48)
         else if 97 \<le> n \<and> n \<le> 102 then Some (n - 87)
         else if 65 \<le> n \<and> n \<le> 70 then Some (n - 55)
         else None)"

text \<open>
  The bytes of a \<open>\uXXXX\<close> escape: the UTF-8 form of the code unit (one to three bytes;
  a surrogate is encoded as it stands).
\<close>

definition utf8_of :: "nat \<Rightarrow> string" where
  "utf8_of cp =
     (if cp < 128 then [char_of cp]
      else if cp < 2048 then [char_of (192 + cp div 64), char_of (128 + cp mod 64)]
      else [char_of (224 + cp div 4096), char_of (128 + (cp div 64) mod 64),
            char_of (128 + cp mod 64)])"

definition unescape :: "char \<Rightarrow> char option" where
  "unescape e =
     (if e = CHR 0x22 then Some (CHR 0x22)
      else if e = CHR 0x5C then Some (CHR 0x5C)
      else if e = CHR ''/'' then Some (CHR ''/'')
      else if e = CHR ''b'' then Some (CHR 0x08)
      else if e = CHR ''f'' then Some (CHR 0x0C)
      else if e = CHR ''n'' then Some (CHR 0x0A)
      else if e = CHR ''r'' then Some (CHR 0x0D)
      else if e = CHR ''t'' then Some (CHR 0x09)
      else None)"

text \<open>The characters of a string literal after its opening quote, through the closing one.\<close>

fun parse_chars :: "string \<Rightarrow> (string \<times> string) option" where
  "parse_chars [] = None"
| "parse_chars (c # cs) =
     (if c = CHR 0x22 then Some ([], cs)
      else if c = CHR 0x5C then
        (case cs of
           [] \<Rightarrow> None
         | e # r \<Rightarrow>
             if e = CHR ''u'' then
               (case r of
                  h1 # h2 # h3 # h4 # r' \<Rightarrow>
                    (case (hex_value h1, hex_value h2, hex_value h3, hex_value h4) of
                       (Some a, Some b, Some c', Some d) \<Rightarrow>
                         map_option
                           (\<lambda>(s, t). (utf8_of (a * 4096 + b * 256 + c' * 16 + d) @ s, t))
                           (parse_chars r')
                     | _ \<Rightarrow> None)
                | _ \<Rightarrow> None)
             else
               (case unescape e of
                  None \<Rightarrow> None
                | Some x \<Rightarrow> map_option (\<lambda>(s, t). (x # s, t)) (parse_chars r)))
      else if (of_char c :: nat) < 32 then None
      else map_option (\<lambda>(s, t). (c # s, t)) (parse_chars cs))"

definition nat_of_digits :: "string \<Rightarrow> nat" where
  "nat_of_digits ds = foldl (\<lambda>acc c. acc * 10 + digit_value c) 0 ds"

text \<open>
  The number a literal denotes, from its sign, its digits read as one numeral and its
  decimal exponent: an integer when it is one, else the decimal without trailing zeros.
\<close>

fun strip_zeros :: "nat \<Rightarrow> nat \<Rightarrow> nat \<times> nat" where
  "strip_zeros m 0 = (m, 0)"
| "strip_zeros m (Suc d) = (if m mod 10 = 0 then strip_zeros (m div 10) d else (m, Suc d))"

definition number_of :: "bool \<Rightarrow> nat \<Rightarrow> int \<Rightarrow> json" where
  "number_of neg m ex =
     (if m = 0 then JNumber 0
      else if 0 \<le> ex then JNumber ((if neg then - int m else int m) * 10 ^ nat ex)
      else (case strip_zeros m (nat (- ex)) of
              (m', d) \<Rightarrow>
                if d = 0 then JNumber (if neg then - int m' else int m')
                else JDecimal (if neg then - int m' else int m') d))"

text \<open>
  A number literal: an optional minus; \<open>0\<close> or digits without a leading zero; optionally
  a point and at least one digit; optionally \<open>e\<close> or \<open>E\<close>, a sign and at least one digit.
\<close>

definition parse_unsigned :: "bool \<Rightarrow> string \<Rightarrow> (json \<times> string) option" where
  "parse_unsigned neg cs =
     (let ip = takeWhile is_digit cs;
          r = dropWhile is_digit cs
      in if ip = [] \<or> (hd ip = CHR ''0'' \<and> tl ip \<noteq> []) then None
         else
           (let has_point = (r \<noteq> [] \<and> hd r = CHR ''.'');
                fp = (if has_point then takeWhile is_digit (tl r) else []);
                r1 = (if has_point then dropWhile is_digit (tl r) else r)
            in if has_point \<and> fp = [] then None
               else
                 (let has_exp = (r1 \<noteq> [] \<and> (hd r1 = CHR ''e'' \<or> hd r1 = CHR ''E''));
                      r2 = (if has_exp then tl r1 else r1);
                      eneg = (has_exp \<and> r2 \<noteq> [] \<and> hd r2 = CHR ''-'');
                      r3 = (if has_exp \<and> r2 \<noteq> [] \<and> (hd r2 = CHR ''-'' \<or> hd r2 = CHR ''+'')
                            then tl r2 else r2);
                      ed = (if has_exp then takeWhile is_digit r3 else []);
                      r4 = (if has_exp then dropWhile is_digit r3 else r1)
                  in if has_exp \<and> ed = [] then None
                     else
                       Some (number_of neg (nat_of_digits (ip @ fp))
                               ((if eneg then - int (nat_of_digits ed) else int (nat_of_digits ed))
                                - int (length fp)),
                             r4))))"

definition parse_number :: "string \<Rightarrow> (json \<times> string) option" where
  "parse_number cs =
     (if cs \<noteq> [] \<and> hd cs = CHR ''-'' then parse_unsigned True (tl cs)
      else parse_unsigned False cs)"

text \<open>
  Assigning the members of an object literal in order: a repeated name keeps its first
  position and takes the last value.
\<close>

definition assign_members :: "(string \<times> json) list \<Rightarrow> (string \<times> json) list" where
  "assign_members ms = foldl (\<lambda>acc (k, v). AList.update k v acc) [] ms"

text \<open>
  Recursive descent. The first argument bounds the number of nested calls; every call
  consumes a character, so the length of the text is always enough (\<open>JSON_parse\<close>).
\<close>

fun parse_value :: "nat \<Rightarrow> string \<Rightarrow> (json \<times> string) option"
  and parse_elems :: "nat \<Rightarrow> string \<Rightarrow> (json list \<times> string) option"
  and parse_members :: "nat \<Rightarrow> string \<Rightarrow> ((string \<times> json) list \<times> string) option"
where
  "parse_value 0 cs = None"
| "parse_value (Suc n) cs =
     (case skip_ws cs of
        [] \<Rightarrow> None
      | c # r \<Rightarrow>
          if c = CHR 0x22 then map_option (\<lambda>(s, t). (JString s, t)) (parse_chars r)
          else if c = CHR ''['' then
            (case skip_ws r of
               [] \<Rightarrow> None
             | d # r' \<Rightarrow>
                 if d = CHR '']'' then Some (JArray [], r')
                 else map_option (\<lambda>(vs, t). (JArray vs, t)) (parse_elems n r))
          else if c = CHR ''{'' then
            (case skip_ws r of
               [] \<Rightarrow> None
             | d # r' \<Rightarrow>
                 if d = CHR ''}'' then Some (JObject [], r')
                 else map_option (\<lambda>(ms, t). (JObject (assign_members ms), t))
                        (parse_members n r))
          else if take 4 (c # r) = ''true'' then Some (JBool True, drop 3 r)
          else if take 5 (c # r) = ''false'' then Some (JBool False, drop 4 r)
          else if take 4 (c # r) = ''null'' then Some (JNull, drop 3 r)
          else parse_number (c # r))"
| "parse_elems 0 cs = None"
| "parse_elems (Suc n) cs =
     (case parse_value n cs of
        None \<Rightarrow> None
      | Some (v, r) \<Rightarrow>
          (case skip_ws r of
             [] \<Rightarrow> None
           | d # r' \<Rightarrow>
               if d = CHR '','' then map_option (\<lambda>(vs, t). (v # vs, t)) (parse_elems n r')
               else if d = CHR '']'' then Some ([v], r')
               else None))"
| "parse_members 0 cs = None"
| "parse_members (Suc n) cs =
     (case skip_ws cs of
        [] \<Rightarrow> None
      | q # r \<Rightarrow>
          if q \<noteq> CHR 0x22 then None
          else
            (case parse_chars r of
               None \<Rightarrow> None
             | Some (k, r1) \<Rightarrow>
                 (case skip_ws r1 of
                    [] \<Rightarrow> None
                  | col # r2 \<Rightarrow>
                      if col \<noteq> CHR '':'' then None
                      else
                        (case parse_value n r2 of
                           None \<Rightarrow> None
                         | Some (v, r3) \<Rightarrow>
                             (case skip_ws r3 of
                                [] \<Rightarrow> None
                              | d # r4 \<Rightarrow>
                                  if d = CHR '','' then
                                    map_option (\<lambda>(ms, t). ((k, v) # ms, t)) (parse_members n r4)
                                  else if d = CHR ''}'' then Some ([(k, v)], r4)
                                  else None)))))"

text \<open>\<open>JSON.parse\<close>: \<open>None\<close> is the thrown \<open>SyntaxError\<close>.\<close>

definition JSON_parse :: "string \<Rightarrow> json option" where
  "JSON_parse txt =
     (case parse_value (Suc (length txt)) txt of
        None \<Rightarrow> None
      | Some (v, r) \<Rightarrow> if skip_ws r = [] then Some v else None)"

text \<open>
  The values \<open>JSON.stringify\<close> is applied to: objects whose property names are
  distinct, at every level, and decimals in the form described above.
\<close>

fun wf_json :: "json \<Rightarrow> bool" where
  "wf_json (JArray vs) = list_all wf_json vs"
| "wf_json (JObject kvs) = (distinct (map fst kvs) \<and> list_all (\<lambda>kv. wf_json (snd kv)) kvs)"
| "wf_json (JDecimal m d) = (0 < d \<and> m mod 10 \<noteq> 0)"
| "wf_json _ = True"

text \<open>What may follow a number literal: the end of the text, or no digit, point or exponent.\<close>

definition ends_number :: "string \<Rightarrow> bool" where
  "ends_number r =
     (r = [] \<or> (\<not> is_digit (hd r) \<and> hd r \<noteq> CHR ''.'' \<and> hd r \<noteq> CHR ''e'' \<and> hd r \<noteq> CHR ''E''))"

subsection \<open>Base64 (\<open>Buffer\<close>)\<close>

text \<open>The base64 alphabet: \<open>A\<close>..\<open>Z\<close>, \<open>a\<close>..\<open>z\<close>, \<open>0\<close>..\<open>9\<close>, \<open>+\<close>, \<open>/\<close>.\<close>

definition b64_char :: "nat \<Rightarrow> char" where
  "b64_char n =
     (if n < 26 then char_of (65 + n)
      else if n < 52 then char_of (71 + n)
      else if n < 62 then char_of (n - 4)
      else if n = 62 then CHR ''+'' else CHR ''/'')"

text \<open>The value of a base64 character; the URL-safe \<open>-\<close> and \<open>_\<close> are accepted too.\<close>

definition b64_value :: "char \<Rightarrow> nat option" where
  "b64_value c =
     (let n = (of_char c :: nat)
      in if 65 \<le> n \<and> n \<le> 90 then Some (n - 65)
         else if 97 \<le> n \<and> n \<le> 122 then Some (n - 71)
         else if 48 \<le> n \<and> n \<le> 57 then Some (n + 4)
         else if c = CHR ''+'' \<or> c = CHR ''-'' then Some 62
         else if c = CHR ''/'' \<or> c = CHR ''_'' then Some 63
         else None)"

fun b64_encode_bytes :: "nat list \<Rightarrow> string" where
  "b64_encode_bytes [] = []"
| "b64_encode_bytes [a] = [b64_char (a div 4), b64_char ((a mod 4) * 16), CHR ''='', CHR ''='']"
| "b64_encode_bytes [a, b] =
     [b64_char (a div 4), b64_char ((a mod 4) * 16 + b div 16), b64_char ((b mod 16) * 4),
      CHR ''='']"
| "b64_encode_bytes (a # b # c # r) =
     b64_char (a div 4) # b64_char ((a mod 4) * 16 + b div 16) #
     b64_char ((b mod 16) * 4 + c div 64) # b64_char (c mod 64) # b64_encode_bytes r"

fun b64_decode_sextets :: "nat list \<Rightarrow> nat list" where
  "b64_decode_sextets (a # b # c # d # r) =
     (a * 4 + b div 16) # ((b mod 16) * 16 + c div 4) # ((c mod 4) * 64 + d) #
     b64_decode_sextets r"
| "b64_decode_sextets [a, b, c] = [a * 4 + b div 16, (b mod 16) * 16 + c div 4]"
| "b64_decode_sextets [a, b] = [a * 4 + b div 16]"
| "b64_decode_sextets _ = []"

text \<open>\<open>Buffer.from(text).toString("base64")\<close>.\<close>

definition base64_encode :: "string \<Rightarrow> string" where
  "base64_encode txt = b64_encode_bytes (map of_char txt)"

text \<open>
  \<open>Buffer.from(b64, "base64").toString()\<close>. The conversion never throws: it reads up to
  the padding and passes over characters that are no base64 digit.
\<close>

definition sextets :: "string \<Rightarrow> nat list" where
  "sextets b64 = List.map_filter b64_value (takeWhile (\<lambda>c. c \<noteq> CHR ''='') b64)"

definition base64_decode :: "string \<Rightarrow> string" where
  "base64_decode b64 = map char_of (b64_decode_sextets (sextets b64))"

section \<open>The tip route (GET /api/tip)\<close>

subsection \<open>Responses\<close>

record response =
  status :: nat
  body :: json
  headers :: "(string \<times> string) list"

text \<open>\<open>NextResponse.json(body, { status })\<close>.\<close>

definition NextResponse_json :: "json \<Rightarrow> nat \<Rightarrow> response" where
  "NextResponse_json b st =
     \<lparr>status = st, body = b, headers = [(''content-type'', ''application/json'')]\<rparr>"

text \<open>\<open>Headers\<close> keeps names in lower case; \<open>set\<close> replaces, \<open>get\<close> yields \<open>null\<close> (\<open>None\<close>).\<close>

definition headers_set :: "string \<Rightarrow> string \<Rightarrow> response \<Rightarrow> response" where
  "headers_set name v r = r\<lparr>headers := AList.update (toLowerCase name) v (headers r)\<rparr>"

definition headers_get :: "response \<Rightarrow> string \<Rightarrow> string option" where
  "headers_get r name = map_of (headers r) (toLowerCase name)"

definition EXPOSED :: string where
  "EXPOSED = ''PAYMENT-REQUIRED, PAYMENT-RESPONSE''"

text \<open>
  The tail shared by the four payment answers: the body as JSON, the same body base64
  encoded in \<open>PAYMENT-RESPONSE\<close>, and the CORS exposure of both payment headers.
\<close>

definition payment_response :: "json \<Rightarrow> nat \<Rightarrow> response" where
  "payment_response b st =
     headers_set ''Access-Control-Expose-Headers'' EXPOSED
       (headers_set ''PAYMENT-RESPONSE'' (base64_encode (JSON_stringify b))
          (NextResponse_json b st))"

subsection \<open>External collaborators\<close>

text \<open>
  A rejected promise or a thrown error is \<open>Inl\<close> with the error's message. The facilitator
  client, the escrow scheme, the resource server and \<open>preprocessSwapPayload\<close> are library
  code; \<open>resolveRecipient\<close> (src/lib/ens.ts) is not among the sources. Their answers are
  parameters of the route. The texts of the engine's own \<open>SyntaxError\<close> and \<open>TypeError\<close>
  messages are parameters as well.
\<close>

record VerifyResponse =
  isValid :: bool
  invalidReason :: "string option"
  payer :: "string option"

record SettleResponse =
  success :: bool
  transaction :: "string option"
  settle_network :: "string option"
  errorReason :: "string option"

record SupportedKind =
  kind_scheme :: string
  kind_network :: string

text \<open>What \<open>server.buildPaymentRequirements\<close> yields (the x402 requirement record).\<close>

record ExactRequirement =
  req_scheme :: string
  req_network :: string
  req_asset :: "string option"
  req_amount :: string
  req_payTo :: string
  req_maxTimeoutSeconds :: "int option"
  req_extra :: "json option"

text \<open>
  What \<open>escrow.buildAcceptsResolved\<close> yields. A price is an object
  \<open>{ amount, asset, extra? }\<close> or a primitive, kept as its \<open>String(price)\<close> text.
\<close>

record PriceObject =
  price_amount :: string
  price_asset :: string
  price_extra :: "json option"

datatype price = PriceObj PriceObject | PricePrimitive string

record EscrowAccept =
  accept_scheme :: string
  accept_network :: string
  accept_price :: price
  accept_payTo :: string
  accept_maxTimeoutSeconds :: "int option"

record BuildArgs =
  arg_network :: string
  arg_price :: string
  arg_payTo :: string

datatype call =
    ResolveRecipient string
  | GetSupported
  | BuildPaymentRequirements BuildArgs
  | BuildAcceptsResolved BuildArgs
  | Verify json "json option"
  | Settle json "json option"

record env =
  resolveRecipient :: "string \<Rightarrow> string option"
  getSupported :: "string + SupportedKind list"
  buildPaymentRequirements :: "BuildArgs \<Rightarrow> string + ExactRequirement list"
  buildAcceptsResolved :: "BuildArgs \<Rightarrow> string + EscrowAccept list"
  preprocessSwapPayload :: "json \<Rightarrow> string + json"
  verify :: "json \<Rightarrow> json option \<Rightarrow> string + VerifyResponse"
  settle :: "json \<Rightarrow> json option \<Rightarrow> string + SettleResponse"
  syntaxErrorMessage :: "string \<Rightarrow> string"
  typeErrorMessage :: string

subsection \<open>The requirements cache\<close>

text \<open>The module state of src/lib/x402.ts that the route reaches: \<open>_supportedNetworks\<close>.\<close>

record module_state =
  supportedNetworks_cache :: "string list option"

record PaymentRequirements =
  pr_scheme :: string
  pr_network :: string
  pr_asset :: string
  pr_amount :: string
  pr_payTo :: string
  pr_maxTimeoutSeconds :: int
  pr_extra :: json

definition getCachedRequirements :: "module_state \<Rightarrow> string \<Rightarrow> PaymentRequirements list option" where
  "getCachedRequirements st key = None"

definition cacheRequirements ::
  "module_state \<Rightarrow> string \<Rightarrow> PaymentRequirements list \<Rightarrow> module_state" where
  "cacheRequirements st key requirements = st"

definition getCacheKey :: "string \<Rightarrow> string \<Rightarrow> string \<Rightarrow> string" where
  "getCacheKey network amount recipient = network @ '':'' @ amount @ '':'' @ toLowerCase recipient"

subsection \<open>Building the 402 challenge\<close>

definition requirement_json :: "PaymentRequirements \<Rightarrow> json" where
  "requirement_json r =
     JObject [(''scheme'', JString (pr_scheme r)), (''network'', JString (pr_network r)),
              (''asset'', JString (pr_asset r)), (''amount'', JString (pr_amount r)),
              (''payTo'', JString (pr_payTo r)),
              (''maxTimeoutSeconds'', JNumber (pr_maxTimeoutSeconds r)),
              (''extra'', pr_extra r)]"

text \<open>\<open>x || 600\<close> on an optional number, \<open>x || {}\<close> on an optional object.\<close>

definition timeout_or_600 :: "int option \<Rightarrow> int" where
  "timeout_or_600 x = (case x of None \<Rightarrow> 600 | Some n \<Rightarrow> if n = 0 then 600 else n)"

definition extra_or_empty :: "json option \<Rightarrow> json" where
  "extra_or_empty x = (if truthy_opt x then the x else JObject [])"

definition normalize_exact :: "ExactRequirement \<Rightarrow> PaymentRequirements" where
  "normalize_exact req =
     \<lparr>pr_scheme = req_scheme req, pr_network = req_network req,
      pr_asset = or_default (req_asset req) [], pr_amount = req_amount req,
      pr_payTo = req_payTo req,
      pr_maxTimeoutSeconds = timeout_or_600 (req_maxTimeoutSeconds req),
      pr_extra = extra_or_empty (req_extra req)\<rparr>"

definition normalize_escrow :: "EscrowAccept \<Rightarrow> PaymentRequirements" where
  "normalize_escrow accept =
     (let priceObj =
            (case accept_price accept of
               PriceObj p \<Rightarrow> p
             | PricePrimitive s \<Rightarrow>
                 \<lparr>price_amount = s, price_asset = [], price_extra = Some (JObject [])\<rparr>)
      in \<lparr>pr_scheme = accept_scheme accept, pr_network = accept_network accept,
          pr_asset = or_default (Some (price_asset priceObj)) [],
          pr_amount = price_amount priceObj, pr_payTo = accept_payTo accept,
          pr_maxTimeoutSeconds = timeout_or_600 (accept_maxTimeoutSeconds accept),
          pr_extra = extra_or_empty (price_extra priceObj)\<rparr>)"

text \<open>The requirements pushed from a settled promise: none when it was rejected.\<close>

definition fulfilled :: "string + 'a list \<Rightarrow> 'a list" where
  "fulfilled r = (case r of Inl reason \<Rightarrow> [] | Inr v \<Rightarrow> v)"

definition challenge :: "PaymentRequirements list \<Rightarrow> string \<Rightarrow> string \<Rightarrow> string \<Rightarrow> string \<Rightarrow> response" where
  "challenge reqs message to amount network =
     headers_set ''Access-Control-Expose-Headers'' EXPOSED
       (headers_set ''PAYMENT-REQUIRED''
          (base64_encode (JSON_stringify (JArray (map requirement_json reqs))))
          (NextResponse_json
             (JObject [(''message'', JString message), (''recipient'', JString to),
                       (''amount'', JString amount), (''network'', JString network)])
             402))"

text \<open>
  The array \<open>paymentRequirements\<close> after both settled promises have been processed:
  the normalized exact requirements, then the normalized escrow accepts.
\<close>

definition paymentRequirements_of :: "env \<Rightarrow> BuildArgs \<Rightarrow> PaymentRequirements list" where
  "paymentRequirements_of e args =
     map normalize_exact (fulfilled (buildPaymentRequirements e args)) @
     map normalize_escrow (fulfilled (buildAcceptsResolved e args))"

definition no_options :: response where
  "no_options =
     NextResponse_json (JObject [(''error'', JString ''No payment options available'')]) 500"

text \<open>
  \<open>handle402Response\<close>. \<open>Promise.allSettled\<close> starts both builders before it looks at
  either outcome, so both calls are in the trace whatever the other's outcome is. No
  step inside the \<open>try\<close> throws on values of these types, so its \<open>catch\<close> is not reached.
\<close>

definition handle402Response ::
  "env \<Rightarrow> module_state \<Rightarrow> string \<Rightarrow> string \<Rightarrow> string \<Rightarrow> string \<Rightarrow>
   response \<times> call list \<times> module_state" where
  "handle402Response e st to amount network recipientAddress =
     (let cacheKey = getCacheKey network amount recipientAddress
      in case getCachedRequirements st cacheKey of
           Some cached \<Rightarrow>
             (challenge cached ''Payment required (cached)'' to amount network, [], st)
         | None \<Rightarrow>
             (let args = \<lparr>arg_network = network, arg_price = CHR ''$'' # amount,
                          arg_payTo = recipientAddress\<rparr>;
                  calls = [BuildPaymentRequirements args, BuildAcceptsResolved args];
                  paymentRequirements = paymentRequirements_of e args
              in if paymentRequirements = [] then (no_options, calls, st)
                 else
                   (challenge paymentRequirements ''Payment required'' to amount network,
                    calls, cacheRequirements st cacheKey paymentRequirements)))"

text \<open>The same handler with the cache calls taken out.\<close>

definition handle402Response_uncached ::
  "env \<Rightarrow> module_state \<Rightarrow> string \<Rightarrow> string \<Rightarrow> string \<Rightarrow> string \<Rightarrow>
   response \<times> call list \<times> module_state" where
  "handle402Response_uncached e st to amount network recipientAddress =
     (let args = \<lparr>arg_network = network, arg_price = CHR ''$'' # amount,
                  arg_payTo = recipientAddress\<rparr>;
          calls = [BuildPaymentRequirements args, BuildAcceptsResolved args];
          paymentRequirements = paymentRequirements_of e args
      in if paymentRequirements = [] then (no_options, calls, st)
         else
           (challenge paymentRequirements ''Payment required'' to amount network, calls, st))"

subsection \<open>Verifying and settling a submission\<close>

text \<open>The \<open>catch\<close> block of \<open>handlePaymentSubmission\<close>.\<close>

definition caught :: "string \<Rightarrow> response" where
  "caught message =
     payment_response
       (JObject [(''success'', JBool False),
                 (''errorReason'', JString (''Payment processing error: '' @ message))])
       500"

definition resource_of :: "string \<Rightarrow> string \<Rightarrow> string \<Rightarrow> json" where
  "resource_of to amount network =
     JObject [(''url'', JString (''/api/tip?to='' @ to @ ''&amount='' @ amount @ ''&network='' @ network)),
              (''description'', JString (''Tip of $'' @ amount @ '' to '' @ to)),
              (''mimeType'', JString ''application/json'')]"

text \<open>
  \<open>fullPaymentPayload\<close>, for a decoded header \<open>paymentPayload\<close> whose \<open>accepted\<close> and
  \<open>payload\<close> are present.
\<close>

definition fullPaymentPayload :: "json \<Rightarrow> json \<Rightarrow> json \<Rightarrow> string \<Rightarrow> string \<Rightarrow> string \<Rightarrow> json" where
  "fullPaymentPayload paymentPayload accepted payload to amount network =
     JObject [(''x402Version'',
                 (if truthy_opt (get_property paymentPayload ''x402Version'')
                  then the (get_property paymentPayload ''x402Version'') else JNumber 2)),
              (''resource'', resource_of to amount network),
              (''accepted'', accepted),
              (''payload'', payload)]"

definition verification_failed :: "VerifyResponse \<Rightarrow> response" where
  "verification_failed verifyResult =
     payment_response
       (JObject [(''success'', JBool False),
                 (''errorReason'',
                    JString (or_default (invalidReason verifyResult) ''Payment verification failed''))])
       402"

definition settlement_failed :: "SettleResponse \<Rightarrow> response" where
  "settlement_failed settleResult =
     payment_response
       (JObject [(''success'', JBool False),
                 (''errorReason'',
                    JString (or_default (errorReason settleResult) ''Payment settlement failed''))])
       402"

definition settled :: "SettleResponse \<Rightarrow> string \<Rightarrow> string \<Rightarrow> string \<Rightarrow> string \<Rightarrow> response" where
  "settled settleResult to amount network recipientAddress =
     payment_response
       (object_of
          [(''success'', Some (JBool True)),
           (''message'', Some (JString (''Tip of $'' @ amount @ '' received by '' @ to))),
           (''transaction'', map_option JString (transaction settleResult)),
           (''network'', Some (JString (or_default (settle_network settleResult) network))),
           (''recipient'', Some (JString recipientAddress)),
           (''amount'', Some (JString amount))])
       200"

definition malformed :: response where
  "malformed =
     NextResponse_json
       (JObject [(''error'', JString ''Invalid payment payload: missing accepted or payload'')]) 400"

definition handlePaymentSubmission ::
  "env \<Rightarrow> string \<Rightarrow> string \<Rightarrow> string \<Rightarrow> string \<Rightarrow> string \<Rightarrow> response \<times> call list" where
  "handlePaymentSubmission e to amount network recipientAddress paymentSignature =
     (let paymentPayloadStr = base64_decode paymentSignature
      in case JSON_parse paymentPayloadStr of
           None \<Rightarrow> (caught (syntaxErrorMessage e paymentPayloadStr), [])
         | Some JNull \<Rightarrow> (caught (typeErrorMessage e), [])
         | Some paymentPayload \<Rightarrow>
             (let accepted = get_property paymentPayload ''accepted'';
                  payload = get_property paymentPayload ''payload''
              in if \<not> truthy_opt accepted \<or> \<not> truthy_opt payload then (malformed, [])
                 else
                   (case preprocessSwapPayload e
                           (fullPaymentPayload paymentPayload (the accepted) (the payload)
                              to amount network) of
                      Inl message \<Rightarrow> (caught message, [])
                    | Inr JNull \<Rightarrow> (caught (typeErrorMessage e), [])
                    | Inr processedPayload \<Rightarrow>
                        (let processedAccepted = get_property processedPayload ''accepted''
                         in case verify e processedPayload processedAccepted of
                              Inl message \<Rightarrow>
                                (caught message, [Verify processedPayload processedAccepted])
                            | Inr verifyResult \<Rightarrow>
                                if \<not> isValid verifyResult then
                                  (verification_failed verifyResult,
                                   [Verify processedPayload processedAccepted])
                                else
                                  (case settle e processedPayload processedAccepted of
                                     Inl message \<Rightarrow>
                                       (caught message,
                                        [Verify processedPayload processedAccepted,
                                         Settle processedPayload processedAccepted])
                                   | Inr settleResult \<Rightarrow>
                                       (if \<not> success settleResult
                                        then settlement_failed settleResult
                                        else settled settleResult to amount network
                                               recipientAddress,
                                        [Verify processedPayload processedAccepted,
                                         Settle processedPayload processedAccepted]))))))"

subsection \<open>Validation and dispatch\<close>

text \<open>
  \<open>parseFloat\<close>, as far as the route looks at its result: the text read is an optional
  sign and \<open>Infinity\<close> or a decimal literal (digits, an optional fraction, an optional
  exponent) after leading white space (here: the ASCII white space characters);
  whatever follows is ignored. A decimal is kept exactly, as \<open>digits * 10 ^ exponent\<close>.
\<close>

datatype parsed_float = NaN | Infinity bool | Decimal bool nat int

definition is_space :: "char \<Rightarrow> bool" where
  "is_space c = ((of_char c :: nat) = 32 \<or> (9 \<le> (of_char c :: nat) \<and> (of_char c :: nat) \<le> 13))"

definition exponent_part :: "string \<Rightarrow> int" where
  "exponent_part r =
     (case r of
        [] \<Rightarrow> 0
      | x # r1 \<Rightarrow>
          if x = CHR ''e'' \<or> x = CHR ''E'' then
            (let neg = (r1 \<noteq> [] \<and> hd r1 = CHR ''-'');
                 r2 = (if r1 \<noteq> [] \<and> (hd r1 = CHR ''-'' \<or> hd r1 = CHR ''+'') then tl r1 else r1);
                 ds = takeWhile is_digit r2
             in if ds = [] then 0
                else if neg then - int (nat_of_digits ds) else int (nat_of_digits ds))
          else 0)"

definition parseFloat :: "string \<Rightarrow> parsed_float" where
  "parseFloat txt =
     (let s = dropWhile is_space txt;
          neg = (s \<noteq> [] \<and> hd s = CHR ''-'');
          u = (if s \<noteq> [] \<and> (hd s = CHR ''-'' \<or> hd s = CHR ''+'') then tl s else s)
      in if take 8 u = ''Infinity'' then Infinity neg
         else
           (let ip = takeWhile is_digit u;
                r = dropWhile is_digit u;
                has_point = (r \<noteq> [] \<and> hd r = CHR ''.'');
                fp = (if has_point then takeWhile is_digit (tl r) else []);
                r' = (if has_point then dropWhile is_digit (tl r) else r)
            in if ip = [] \<and> fp = [] then NaN
               else Decimal neg (nat_of_digits (ip @ fp)) (exponent_part r' - int (length fp))))"

text \<open>
  \<open>isNaN(amountNum) || amountNum <= 0\<close> on the double nearest to the text read. A
  decimal rounds to a double above zero iff it lies above \<open>2 ^ -1075\<close>, half the least
  subnormal (the tie itself rounds to the even neighbour, zero).
\<close>

definition rejected_amount :: "parsed_float \<Rightarrow> bool" where
  "rejected_amount x =
     (case x of
        NaN \<Rightarrow> True
      | Infinity neg \<Rightarrow> neg
      | Decimal neg m ex \<Rightarrow>
          neg \<or> (if 0 \<le> ex then m = 0 else \<not> (10 ^ nat (- ex) < int m * 2 ^ 1075)))"

text \<open>\<open>network.match(/^eip155:\d+$/)\<close>.\<close>

definition network_format_ok :: "string \<Rightarrow> bool" where
  "network_format_ok network =
     (take 7 network = ''eip155:'' \<and> drop 7 network \<noteq> [] \<and> list_all is_digit (drop 7 network))"

text \<open>
  \<open>getSupportedNetworks\<close> (src/lib/x402.ts): the cached array when there is one, else the
  networks of the facilitator's exact and escrow kinds, each once, in first-seen order.
\<close>

definition add_network :: "string list \<Rightarrow> SupportedKind \<Rightarrow> string list" where
  "add_network networks kind =
     (if (kind_scheme kind = ''exact'' \<or> kind_scheme kind = ''escrow'')
         \<and> kind_network kind \<notin> set networks
      then networks @ [kind_network kind] else networks)"

definition getSupportedNetworks ::
  "env \<Rightarrow> module_state \<Rightarrow> (string + string list) \<times> call list \<times> module_state" where
  "getSupportedNetworks e st =
     (case supportedNetworks_cache st of
        Some networks \<Rightarrow> (Inr networks, [], st)
      | None \<Rightarrow>
          (case getSupported e of
             Inl message \<Rightarrow> (Inl message, [GetSupported], st)
           | Inr kinds \<Rightarrow>
               (let networks = foldl add_network [] kinds
                in (Inr networks, [GetSupported],
                    st\<lparr>supportedNetworks_cache := Some networks\<rparr>))))"

record request =
  param_to :: "string option"
  param_amount :: "string option"
  param_network :: "string option"
  payment_signature :: "string option"

text \<open>\<open>!x\<close> on a query parameter or header value: \<open>null\<close> and the empty string are falsy.\<close>

definition missing :: "string option \<Rightarrow> bool" where
  "missing x = (case x of None \<Rightarrow> True | Some s \<Rightarrow> s = [])"

definition bad_request :: "string \<Rightarrow> response" where
  "bad_request message = NextResponse_json (JObject [(''error'', JString message)]) 400"

text \<open>
  The outcome of the route handler: a response, or an error that escapes it. The two
  lookups are awaited outside any \<open>try\<close>; of these, \<open>getSupportedNetworks\<close> is in the
  sources and rejects when the facilitator does.
\<close>

datatype outcome = Responded response | Threw string

definition GET :: "env \<Rightarrow> module_state \<Rightarrow> request \<Rightarrow> outcome \<times> call list \<times> module_state" where
  "GET e st request =
     (if missing (param_to request) \<or> missing (param_amount request) then
        (Responded (bad_request ''Missing required parameters: to, amount''), [], st)
      else
        (let to = the (param_to request); amount = the (param_amount request)
         in if rejected_amount (parseFloat amount) then
              (Responded (bad_request ''Invalid amount. Must be a positive number.''), [], st)
            else
              (case resolveRecipient e to of
                 None \<Rightarrow>
                   (Responded (bad_request (''Could not resolve recipient: '' @ to)),
                    [ResolveRecipient to], st)
               | Some recipientAddress \<Rightarrow>
                   if recipientAddress = [] then
                     (Responded (bad_request (''Could not resolve recipient: '' @ to)),
                      [ResolveRecipient to], st)
                   else
                     (case getSupportedNetworks e st of
                        (Inl message, calls, st1) \<Rightarrow>
                          (Threw message, ResolveRecipient to # calls, st1)
                      | (Inr supportedNetworks, calls, st1) \<Rightarrow>
                          if supportedNetworks = [] then
                            (Responded
                               (NextResponse_json
                                  (JObject [(''error'', JString ''No networks supported by facilitator'')])
                                  500),
                             ResolveRecipient to # calls, st1)
                          else
                            (let network =
                                   (if missing (param_network request) then hd supportedNetworks
                                    else the (param_network request))
                             in if \<not> network_format_ok network then
                                  (Responded (bad_request ''Invalid network format. Use eip155:CHAINID''),
                                   ResolveRecipient to # calls, st1)
                                else if network \<notin> set supportedNetworks then
                                  (Responded
                                     (NextResponse_json
                                        (JObject [(''error'', JString (''Network '' @ network @ '' not supported'')),
                                                  (''supportedNetworks'', JArray (map JString supportedNetworks))])
                                        400),
                                   ResolveRecipient to # calls, st1)
                                else if missing (payment_signature request) then
                                  (case handle402Response e st1 to amount network recipientAddress of
                                     (r, calls', st2) \<Rightarrow>
                                       (Responded r, ResolveRecipient to # calls @ calls', st2))
                                else
                                  (case handlePaymentSubmission e to amount network recipientAddress
                                          (the (payment_signature request)) of
                                     (r, calls') \<Rightarrow>
                                       (Responded r, ResolveRecipient to # calls @ calls', st1)))))))"

text \<open>A plain decimal numeral: digits, optionally followed by a point and digits.\<close>

definition decimal_numeral :: "string \<Rightarrow> bool" where
  "decimal_numeral s =
     (let ip = takeWhile is_digit s; r = dropWhile is_digit s
      in ip \<noteq> [] \<and> (r = [] \<or> (hd r = CHR ''.'' \<and> tl r \<noteq> [] \<and> list_all is_digit (tl r))))"

section \<open>The client's side of the header codec (src/hooks/usePayment.ts, src/lib/types.ts)\<close>

text \<open>
  \<open>PaymentResult\<close>: \<open>success: boolean\<close> and six optional strings. As a JSON object it
  has the properties that are present.
\<close>

record PaymentResult =
  result_success :: bool
  result_transaction :: "string option"
  result_network :: "string option"
  result_recipient :: "string option"
  result_amount :: "string option"
  result_message :: "string option"
  result_errorReason :: "string option"

definition PaymentResult_json :: "PaymentResult \<Rightarrow> json" where
  "PaymentResult_json r =
     object_of
       [(''success'', Some (JBool (result_success r))),
        (''transaction'', map_option JString (result_transaction r)),
        (''network'', map_option JString (result_network r)),
        (''recipient'', map_option JString (result_recipient r)),
        (''amount'', map_option JString (result_amount r)),
        (''message'', map_option JString (result_message r)),
        (''errorReason'', map_option JString (result_errorReason r))]"

text \<open>Reading a parsed value as a \<open>PaymentResult\<close> (the cast \<open>as PaymentResult\<close>).\<close>

definition string_property :: "json \<Rightarrow> string \<Rightarrow> string option" where
  "string_property j k = (case get_property j k of Some (JString s) \<Rightarrow> Some s | _ \<Rightarrow> None)"

definition PaymentResult_of_json :: "json \<Rightarrow> PaymentResult" where
  "PaymentResult_of_json j =
     \<lparr>result_success = (get_property j ''success'' = Some (JBool True)),
      result_transaction = string_property j ''transaction'',
      result_network = string_property j ''network'',
      result_recipient = string_property j ''recipient'',
      result_amount = string_property j ''amount'',
      result_message = string_property j ''message'',
      result_errorReason = string_property j ''errorReason''\<rparr>"

text \<open>
  The \<open>PAYMENT-SIGNATURE\<close> header the hook sends for the payload the x402 client built:
  \<open>Buffer.from(JSON.stringify(paymentPayload)).toString("base64")\<close>.
\<close>

definition signature_of :: "json \<Rightarrow> string" where
  "signature_of paymentPayload = base64_encode (JSON_stringify paymentPayload)"

text \<open>A success-shaped and a failure-shaped result.\<close>

definition success_result :: PaymentResult where
  "success_result =
     \<lparr>result_success = True, result_transaction = Some ''0xabc123'',
      result_network = Some ''eip155:84532'', result_recipient = Some ''0xRecipient'',
      result_amount = Some ''0.01'', result_message = Some ''Tip of $0.01 received by 0xabc'',
      result_errorReason = None\<rparr>"

definition failure_result :: PaymentResult where
  "failure_result =
     \<lparr>result_success = False, result_transaction = None, result_network = None,
      result_recipient = None, result_amount = None, result_message = None,
      result_errorReason = Some ''insufficient_funds''\<rparr>"

section \<open>A sample deployment\<close>

text \<open>
  Concrete collaborators on Base Sepolia, for evaluating the route: the facilitator
  supports both schemes, the resource server quotes one exact requirement, the swap
  aggregator is down, the payment verifies and settles.
\<close>

definition sample_exact :: ExactRequirement where
  "sample_exact =
     \<lparr>req_scheme = ''exact'', req_network = ''eip155:84532'', req_asset = Some ''0x036CbD53'',
      req_amount = ''10000'', req_payTo = ''0xRecipient'', req_maxTimeoutSeconds = Some 600,
      req_extra = Some (JObject [(''name'', JString ''USDC''), (''version'', JString ''2'')])\<rparr>"

definition sample_accept :: EscrowAccept where
  "sample_accept =
     \<lparr>accept_scheme = ''escrow'', accept_network = ''eip155:84532'',
      accept_price = PriceObj \<lparr>price_amount = ''10000'', price_asset = ''0x036CbD53'',
                               price_extra = Some (JObject [(''escrowContract'', JString ''0xE5'')])\<rparr>,
      accept_payTo = ''0xRecipient'', accept_maxTimeoutSeconds = None\<rparr>"

text \<open>A stand-in for the decompression: it marks the payload it has processed.\<close>

definition sample_preprocess :: "json \<Rightarrow> string + json" where
  "sample_preprocess j =
     (case j of JObject kvs \<Rightarrow> Inr (JObject (kvs @ [(''decompressed'', JBool True)])) | _ \<Rightarrow> Inr j)"

definition sample_env :: env where
  "sample_env =
     \<lparr>resolveRecipient = (\<lambda>to. Some ''0xRecipient''),
      getSupported = Inr [\<lparr>kind_scheme = ''exact'', kind_network = ''eip155:84532''\<rparr>,
                          \<lparr>kind_scheme = ''escrow'', kind_network = ''eip155:84532''\<rparr>],
      buildPaymentRequirements = (\<lambda>args. Inr [sample_exact]),
      buildAcceptsResolved = (\<lambda>args. Inl ''aggregator unavailable''),
      preprocessSwapPayload = sample_preprocess,
      verify = (\<lambda>p a. Inr \<lparr>isValid = True, invalidReason = None, payer = Some ''0xPayer''\<rparr>),
      settle = (\<lambda>p a. Inr \<lparr>success = True, transaction = Some ''0xabc123'',
                              settle_network = Some ''eip155:84532'', errorReason = None\<rparr>),
      syntaxErrorMessage = (\<lambda>txt. ''Unexpected token''),
      typeErrorMessage = ''Cannot destructure property of null''\<rparr>"

text \<open>The same deployment with a facilitator that finds the payment invalid.\<close>

definition rejecting_env :: env where
  "rejecting_env =
     sample_env\<lparr>verify := (\<lambda>p a. Inr \<lparr>isValid = False, invalidReason = Some ''insufficient_funds'',
                                       payer = None\<rparr>)\<rparr>"

text \<open>The same deployment with the exact quote failing and the swap quote succeeding.\<close>

definition swap_only_env :: env where
  "swap_only_env =
     sample_env\<lparr>buildPaymentRequirements := (\<lambda>args. Inl ''network not supported''),
                buildAcceptsResolved := (\<lambda>args. Inr [sample_accept])\<rparr>"

text \<open>The same deployment with the exact quote failing and no swap route found.\<close>

definition empty_swap_env :: env where
  "empty_swap_env =
     sample_env\<lparr>buildPaymentRequirements := (\<lambda>args. Inl ''network not supported''),
                buildAcceptsResolved := (\<lambda>args. Inr [])\<rparr>"

text \<open>The same deployment with both quotes failing.\<close>

definition failing_env :: env where
  "failing_env =
     sample_env\<lparr>buildPaymentRequirements := (\<lambda>args. Inl ''network not supported'')\<rparr>"

text \<open>
  The same deployment with both quotes succeeding; the second swap accept carries its
  price as a plain amount.
\<close>

definition plain_accept :: EscrowAccept where
  "plain_accept =
     \<lparr>accept_scheme = ''escrow'', accept_network = ''eip155:84532'',
      accept_price = PricePrimitive ''10000'', accept_payTo = ''0xRecipient'',
      accept_maxTimeoutSeconds = Some 300\<rparr>"

definition both_env :: env where
  "both_env = sample_env\<lparr>buildAcceptsResolved := (\<lambda>args. Inr [sample_accept, plain_accept])\<rparr>"

definition cold :: module_state where
  "cold = \<lparr>supportedNetworks_cache = None\<rparr>"

definition warm :: module_state where
  "warm = \<lparr>supportedNetworks_cache = Some [''eip155:84532'']\<rparr>"

text \<open>
  A submitted header: base64 of
  \<open>{"x402Version":2,"accepted":{"scheme":"exact"},"payload":{"signature":"0x1"}}\<close>.
\<close>

definition sample_payload :: json where
  "sample_payload =
     JObject [(''x402Version'', JNumber 2),
              (''accepted'', JObject [(''scheme'', JString ''exact'')]),
              (''payload'', JObject [(''signature'', JString ''0x1'')])]"

definition sample_signature :: string where
  "sample_signature = signature_of sample_payload"

text \<open>What the facilitator is handed for that header and \<open>to=0xabc&amount=0.01\<close>.\<close>

definition sample_processed :: json where
  "sample_processed =
     JObject [(''x402Version'', JNumber 2),
              (''resource'', resource_of ''0xabc'' ''0.01'' ''eip155:84532''),
              (''accepted'', JObject [(''scheme'', JString ''exact'')]),
              (''payload'', JObject [(''signature'', JString ''0x1'')]),
              (''decompressed'', JBool True)]"

definition sample_accepted :: "json option" where
  "sample_accepted = Some (JObject [(''scheme'', JString ''exact'')])"

text \<open>A validated request carrying a \<open>PAYMENT-SIGNATURE\<close> header.\<close>

definition submission :: "string \<Rightarrow> request" where
  "submission sig =
     \<lparr>param_to = Some ''0xabc'', param_amount = Some ''0.01'',
      param_network = Some ''eip155:84532'', payment_signature = Some sig\<rparr>"

text \<open>A challenge request (no \<open>PAYMENT-SIGNATURE\<close> header).\<close>

definition challenge_request :: "string \<Rightarrow> string option \<Rightarrow> request" where
  "challenge_request amount network =
     \<lparr>param_to = Some ''0xabc'', param_amount = Some amount, param_network = network,
      payment_signature = None\<rparr>"

section \<open>The header codec\<close>

subsection \<open>Base64 round trip\<close>

lemma b64_value_char: "n < 64 \<Longrightarrow> b64_value (b64_char n) = Some n"
  by (auto simp: b64_value_def b64_char_def Let_def)

lemma b64_char_not_pad: "n < 64 \<Longrightarrow> b64_char n \<noteq> CHR ''=''"
proof -
  assume "n < 64"
  then have "(of_char (b64_char n) :: nat) \<noteq> of_char (CHR ''='')"
    by (auto simp: b64_char_def)
  then show ?thesis by auto
qed

lemma sextet_bounds:
  fixes a b c :: nat
  assumes "a < 256" "b < 256" "c < 256"
  shows "a div 4 < 64" "(a mod 4) * 16 + b div 16 < 64" "(b mod 16) * 4 + c div 64 < 64"
    "c mod 64 < 64" "(a mod 4) * 16 < 64" "(b mod 16) * 4 < 64"
  using assms by auto

lemma regroup1:
  fixes a b c :: nat
  assumes "b < 256"
  shows "(a div 4) * 4 + ((a mod 4) * 16 + b div 16) div 16 = a"
proof -
  have "b div 16 < 16" using assms by simp
  then have "((a mod 4) * 16 + b div 16) div 16 = a mod 4" by simp
  then show ?thesis by simp
qed

lemma regroup2:
  fixes a b c :: nat
  assumes "b < 256" "c < 256"
  shows "(((a mod 4) * 16 + b div 16) mod 16) * 16 + ((b mod 16) * 4 + c div 64) div 4 = b"
proof -
  have "b div 16 < 16" using assms by simp
  then have 1: "((a mod 4) * 16 + b div 16) mod 16 = b div 16" by simp
  have "c div 64 < 4" using assms by simp
  then have 2: "((b mod 16) * 4 + c div 64) div 4 = b mod 16" by simp
  show ?thesis unfolding 1 2 by simp
qed

lemma regroup3:
  fixes a b c :: nat
  assumes "c < 256"
  shows "(((b mod 16) * 4 + c div 64) mod 4) * 64 + c mod 64 = c"
proof -
  have "c div 64 < 4" using assms by simp
  then have 1: "((b mod 16) * 4 + c div 64) mod 4 = c div 64" by simp
  show ?thesis unfolding 1 by simp
qed


lemma regroup_tail:
  fixes a b :: nat
  shows "(a div 4) * 4 + ((a mod 4) * 16) div 16 = a"
    and "b < 256 \<Longrightarrow> (((a mod 4) * 16 + b div 16) mod 16) * 16 + ((b mod 16) * 4) div 4 = b"
proof -
  show "(a div 4) * 4 + ((a mod 4) * 16) div 16 = a" by simp
  assume "b < 256"
  then have "b div 16 < 16" by simp
  then have 1: "((a mod 4) * 16 + b div 16) mod 16 = b div 16" by simp
  show "(((a mod 4) * 16 + b div 16) mod 16) * 16 + ((b mod 16) * 4) div 4 = b"
    unfolding 1 by simp
qed

lemma sextets_Cons:
  "n < 64 \<Longrightarrow> sextets (b64_char n # cs) = n # sextets cs"
  by (simp add: sextets_def b64_char_not_pad b64_value_char map_filter_simps)

lemma sextets_pad: "sextets (CHR ''='' # cs) = []"
  by (simp add: sextets_def map_filter_simps)

lemma sextets_Nil: "sextets [] = []"
  by (simp add: sextets_def map_filter_simps)

lemma decode_group:
  "a < 256 \<Longrightarrow> b < 256 \<Longrightarrow> c < 256 \<Longrightarrow>
   b64_decode_sextets
     (a div 4 # ((a mod 4) * 16 + b div 16) # ((b mod 16) * 4 + c div 64) # (c mod 64) # r) =
   a # b # c # b64_decode_sextets r"
  by (simp add: regroup1 regroup2 regroup3)

lemma encode_group:
  assumes "a < 256" "b < 256" "c < 256"
  shows "sextets (b64_encode_bytes (a # b # c # r)) =
     a div 4 # ((a mod 4) * 16 + b div 16) # ((b mod 16) * 4 + c div 64) # (c mod 64) #
     sextets (b64_encode_bytes r)"
  using sextet_bounds [OF assms] by (simp add: sextets_Cons)

lemma encode_one:
  assumes "a < 256"
  shows "sextets (b64_encode_bytes [a]) = [a div 4, (a mod 4) * 16]"
  using sextet_bounds [OF assms assms assms] by (simp add: sextets_Cons sextets_pad)

lemma encode_two:
  assumes "a < 256" "b < 256"
  shows "sextets (b64_encode_bytes [a, b]) =
     [a div 4, (a mod 4) * 16 + b div 16, (b mod 16) * 4]"
  using sextet_bounds [OF assms assms(2)] by (simp add: sextets_Cons sextets_pad)

lemma b64_bytes_roundtrip:
  "\<forall>b \<in> set bs. b < 256 \<Longrightarrow> b64_decode_sextets (sextets (b64_encode_bytes bs)) = bs"
proof (induction bs rule: b64_encode_bytes.induct)
  case 1
  then show ?case by (simp add: sextets_Nil)
next
  case (2 a)
  then have a: "a < 256" by simp
  have "b64_decode_sextets [a div 4, (a mod 4) * 16] = [(a div 4) * 4 + ((a mod 4) * 16) div 16]"
    by simp
  also have "\<dots> = [a]" unfolding regroup_tail(1) ..
  finally show ?case unfolding encode_one [OF a] .
next
  case (3 a b)
  then have a: "a < 256" and b: "b < 256" by simp_all
  have "b64_decode_sextets [a div 4, (a mod 4) * 16 + b div 16, (b mod 16) * 4] =
        [(a div 4) * 4 + ((a mod 4) * 16 + b div 16) div 16,
         (((a mod 4) * 16 + b div 16) mod 16) * 16 + ((b mod 16) * 4) div 4]"
    by simp
  also have "\<dots> = [a, b]"
    unfolding regroup1 [OF b] regroup_tail(2) [OF b] ..
  finally show ?case unfolding encode_two [OF a b] .
next
  case (4 a b c r)
  then have a: "a < 256" and b: "b < 256" and c: "c < 256" and r: "\<forall>x \<in> set r. x < 256"
    by simp_all
  show ?case
    unfolding encode_group [OF a b c] decode_group [OF a b c] using "4.IH" [OF r] by simp
qed

lemma base64_roundtrip: "base64_decode (base64_encode txt) = txt"
proof -
  have "\<forall>b \<in> set (map of_char txt :: nat list). b < 256" by simp
  then have "b64_decode_sextets (sextets (b64_encode_bytes (map of_char txt))) = map of_char txt"
    by (rule b64_bytes_roundtrip)
  then show ?thesis
    by (simp add: base64_decode_def base64_encode_def sextets_def comp_def)
qed

subsection \<open>String literals\<close>

lemma hex_value_char: "d < 16 \<Longrightarrow> hex_value (hex_char d) = Some d"
  by (auto simp: hex_value_def hex_char_def Let_def)

lemma hex_value_zero: "hex_value (CHR ''0'') = Some 0"
  by (simp add: hex_value_def)

lemma parse_escape_char:
  "parse_chars (escape_char c @ cs) = map_option (\<lambda>(s, t). (c # s, t)) (parse_chars cs)"
proof -
  consider "c = CHR 0x22" | "c = CHR 0x5C" | "c = CHR 0x08" | "c = CHR 0x0C" | "c = CHR 0x0A"
    | "c = CHR 0x0D" | "c = CHR 0x09"
    | "c \<notin> {CHR 0x22, CHR 0x5C, CHR 0x08, CHR 0x0C, CHR 0x0A, CHR 0x0D, CHR 0x09}" "(of_char c :: nat) < 32"
    | "c \<notin> {CHR 0x22, CHR 0x5C, CHR 0x08, CHR 0x0C, CHR 0x0A, CHR 0x0D, CHR 0x09}" "\<not> (of_char c :: nat) < 32"
    by blast
  then show ?thesis
  proof cases
    case 8
    let ?n = "of_char c :: nat"
    have d: "?n div 16 < 16" "?n mod 16 < 16" using 8 by auto
    have cp: "0 * 4096 + 0 * 256 + (?n div 16) * 16 + ?n mod 16 = ?n" by simp
    have u: "utf8_of ?n = [c]" using 8 by (simp add: utf8_of_def)
    have e: "escape_char c = [CHR 0x5C, CHR ''u'', CHR ''0'', CHR ''0'', hex_char (?n div 16), hex_char (?n mod 16)]"
      using 8 by (simp add: escape_char_def)
    show ?thesis
      unfolding e using u
      by (simp add: hex_value_char [OF d(1)] hex_value_char [OF d(2)] hex_value_zero)
  next
    case 9
    then show ?thesis by (simp add: escape_char_def)
  qed (simp_all add: escape_char_def unescape_def)
qed

lemma parse_escaped:
  "parse_chars (concat (map escape_char s) @ CHR 0x22 # cs) = Some (s, cs)"
  by (induction s) (simp_all add: parse_escape_char)

lemma parse_quote: "parse_chars (tl (quote s) @ cs) = Some (s, cs)"
  by (simp add: quote_def parse_escaped)

lemma quote_Cons: "quote s = CHR 0x22 # tl (quote s)"
  by (simp add: quote_def)

subsection \<open>Integer literals\<close>

lemma digit_char_props:
  "d < 10 \<Longrightarrow> is_digit (digit_char d)"
  "d < 10 \<Longrightarrow> digit_value (digit_char d) = d"
  "d < 10 \<Longrightarrow> digit_char d = CHR ''0'' \<longleftrightarrow> d = 0"
  "d < 10 \<Longrightarrow> digit_char d \<noteq> CHR ''-''"
proof -
  assume d: "d < 10"
  show "is_digit (digit_char d)" using d by (simp add: is_digit_def digit_char_def)
  show "digit_value (digit_char d) = d" using d by (simp add: digit_value_def digit_char_def)
  have "digit_char d = CHR ''0'' \<longleftrightarrow> (of_char (digit_char d) :: nat) = of_char (CHR ''0'')"
    by (simp only: of_char_eq_iff)
  then show "digit_char d = CHR ''0'' \<longleftrightarrow> d = 0" using d by (simp add: digit_char_def)
  have "(of_char (digit_char d) :: nat) \<noteq> of_char (CHR ''-'')" using d by (simp add: digit_char_def)
  then show "digit_char d \<noteq> CHR ''-''" by auto
qed

lemma digit_char_zero: "digit_char 0 = CHR ''0''"
  by code_simp

lemma show_nat_digits: "\<forall>c \<in> set (show_nat n). is_digit c"
proof (induction n rule: show_nat.induct)
  case (1 n)
  show ?case
  proof (cases "n < 10")
    case True
    then show ?thesis by (subst show_nat.simps) (simp add: digit_char_props)
  next
    case False
    with 1 show ?thesis by (subst show_nat.simps) (simp add: digit_char_props)
  qed
qed

lemma show_nat_nonempty: "show_nat n \<noteq> []"
  by (subst show_nat.simps) simp

lemma nat_of_digits_snoc: "nat_of_digits (ds @ [c]) = nat_of_digits ds * 10 + digit_value c"
  by (simp add: nat_of_digits_def)

lemma nat_of_digits_show: "nat_of_digits (show_nat n) = n"
proof (induction n rule: show_nat.induct)
  case (1 n)
  show ?case
  proof (cases "n < 10")
    case True
    then show ?thesis
      by (subst show_nat.simps) (simp add: nat_of_digits_def digit_char_props)
  next
    case False
    with 1 have "nat_of_digits (show_nat (n div 10)) = n div 10" by simp
    with False show ?thesis
      by (subst show_nat.simps) (simp add: nat_of_digits_snoc digit_char_props)
  qed
qed

lemma show_nat_leading: "hd (show_nat n) = CHR ''0'' \<Longrightarrow> show_nat n = ''0''"
proof (induction n rule: show_nat.induct)
  case (1 n)
  show ?case
  proof (cases "n < 10")
    case True
    with "1.prems" have "digit_char n = CHR ''0''" by (subst (asm) show_nat.simps) simp
    with True have "n = 0" by (simp add: digit_char_props)
    then show ?thesis by (subst show_nat.simps) (simp add: digit_char_zero)
  next
    case False
    then have s: "show_nat n = show_nat (n div 10) @ [digit_char (n mod 10)]"
      by (subst show_nat.simps) simp
    with "1.prems" have "hd (show_nat (n div 10)) = CHR ''0''"
      by (simp add: show_nat_nonempty)
    with 1 False have "show_nat (n div 10) = ''0''" by simp
    then have "nat_of_digits (show_nat (n div 10)) = 0"
      by (simp add: nat_of_digits_def digit_value_def)
    then have "n div 10 = 0" by (simp add: nat_of_digits_show)
    with False show ?thesis by simp
  qed
qed

lemma show_nat_not_minus: "hd (show_nat n) \<noteq> CHR ''-''"
proof -
  have "is_digit (hd (show_nat n))"
    using show_nat_digits [of n] show_nat_nonempty [of n] by (cases "show_nat n") auto
  then show ?thesis by (auto simp: is_digit_def)
qed

lemma digits_then_end:
  assumes "\<forall>c \<in> set ds. is_digit c" "ends_number r"
  shows "takeWhile is_digit (ds @ r) = ds" "dropWhile is_digit (ds @ r) = r"
proof -
  have t: "takeWhile is_digit r = []" and d: "dropWhile is_digit r = r"
    using assms(2) by (cases r; simp add: ends_number_def)+
  show "takeWhile is_digit (ds @ r) = ds" using assms(1) t by (simp add: takeWhile_append2)
  show "dropWhile is_digit (ds @ r) = r" using assms(1) d by (simp add: dropWhile_append2)
qed

lemma digits_then:
  assumes "\<forall>c \<in> set ds. is_digit c" "\<not> is_digit x"
  shows "takeWhile is_digit (ds @ x # r) = ds" "dropWhile is_digit (ds @ x # r) = x # r"
  using assms by (simp_all add: takeWhile_append2 dropWhile_append2)

lemma nat_of_digits_Nil: "nat_of_digits [] = 0"
  by (simp add: nat_of_digits_def)

lemma not_digits:
  "\<not> is_digit (CHR ''.'')" "\<not> is_digit (CHR ''e'')" "\<not> is_digit (CHR ''-'')"
  by (simp_all add: is_digit_def)

lemma ends_numberD:
  assumes "ends_number r"
  shows "(r \<noteq> [] \<and> hd r = CHR ''.'') = False"
    "(r \<noteq> [] \<and> (hd r = CHR ''e'' \<or> hd r = CHR ''E'')) = False"
  using assms by (auto simp: ends_number_def)

text \<open>A literal with only an integer part.\<close>

lemma parse_unsigned_integer:
  assumes ip: "\<forall>c \<in> set ip. is_digit c" "ip \<noteq> []" "hd ip = CHR ''0'' \<longrightarrow> tl ip = []"
    and r: "ends_number r"
  shows "parse_unsigned neg (ip @ r) = Some (number_of neg (nat_of_digits ip) 0, r)"
  using ip(2,3)
  by (simp add: parse_unsigned_def Let_def digits_then_end [OF ip(1) r] ends_numberD [OF r]
      nat_of_digits_Nil)

text \<open>A literal with a fraction and no exponent.\<close>

lemma parse_unsigned_fraction:
  assumes ip: "\<forall>c \<in> set ip. is_digit c" "ip \<noteq> []" "hd ip = CHR ''0'' \<longrightarrow> tl ip = []"
    and fp: "\<forall>c \<in> set fp. is_digit c" "fp \<noteq> []"
    and r: "ends_number r"
  shows "parse_unsigned neg (ip @ CHR ''.'' # fp @ r) =
           Some (number_of neg (nat_of_digits (ip @ fp)) (- int (length fp)), r)"
  using ip(2,3) fp(2)
  by (simp add: parse_unsigned_def Let_def digits_then [OF ip(1) not_digits(1)]
      digits_then_end [OF fp(1) r] ends_numberD [OF r] nat_of_digits_Nil)

text \<open>A literal with a negative exponent, with or without a fraction.\<close>

lemma parse_unsigned_exponent:
  assumes ip: "\<forall>c \<in> set ip. is_digit c" "ip \<noteq> []" "hd ip = CHR ''0'' \<longrightarrow> tl ip = []"
    and ds: "\<forall>c \<in> set ds. is_digit c" "ds \<noteq> []"
    and r: "ends_number r"
  shows "parse_unsigned neg (ip @ ''e-'' @ ds @ r) =
           Some (number_of neg (nat_of_digits ip) (- int (nat_of_digits ds)), r)"
  using ip(2,3) ds(2)
  by (simp add: parse_unsigned_def Let_def digits_then [OF ip(1) not_digits(2)]
      digits_then_end [OF ds(1) r])

lemma parse_unsigned_fraction_exponent:
  assumes ip: "\<forall>c \<in> set ip. is_digit c" "ip \<noteq> []" "hd ip = CHR ''0'' \<longrightarrow> tl ip = []"
    and fp: "\<forall>c \<in> set fp. is_digit c" "fp \<noteq> []"
    and ds: "\<forall>c \<in> set ds. is_digit c" "ds \<noteq> []"
    and r: "ends_number r"
  shows "parse_unsigned neg (ip @ CHR ''.'' # fp @ ''e-'' @ ds @ r) =
           Some (number_of neg (nat_of_digits (ip @ fp))
                   (- int (nat_of_digits ds) - int (length fp)), r)"
proof -
  show ?thesis
    using ip(2,3) fp(2) ds(2)
    by (simp add: parse_unsigned_def Let_def digits_then [OF ip(1) not_digits(1)]
        digits_then [OF fp(1) not_digits(2)] digits_then_end [OF ds(1) r])
qed

lemma parse_number_signed:
  assumes "cs \<noteq> []" "is_digit (hd cs)"
  shows "parse_number ((if neg then ''-'' else []) @ cs) = parse_unsigned neg cs"
proof -
  have "hd cs \<noteq> CHR ''-''" using assms(2) by (auto simp: is_digit_def)
  with assms(1) show ?thesis by (simp add: parse_number_def)
qed

lemma show_nat_props:
  "\<forall>c \<in> set (show_nat n). is_digit c" "show_nat n \<noteq> []"
  "hd (show_nat n) = CHR ''0'' \<longrightarrow> tl (show_nat n) = []" "is_digit (hd (show_nat n))"
proof -
  show "\<forall>c \<in> set (show_nat n). is_digit c" by (rule show_nat_digits)
  show "show_nat n \<noteq> []" by (rule show_nat_nonempty)
  show "hd (show_nat n) = CHR ''0'' \<longrightarrow> tl (show_nat n) = []"
    using show_nat_leading [of n] by auto
  show "is_digit (hd (show_nat n))"
    using show_nat_digits [of n] show_nat_nonempty [of n] by (cases "show_nat n") auto
qed

lemma parse_int_literal:
  assumes "ends_number r"
  shows "parse_number (show_int i @ r) = Some (JNumber i, r)"
proof -
  let ?n = "nat \<bar>i\<bar>"
  have t: "show_int i @ r = (if i < 0 then ''-'' else []) @ show_nat ?n @ r"
    by (simp add: show_int_def)
  have "parse_number (show_int i @ r) = parse_unsigned (i < 0) (show_nat ?n @ r)"
    unfolding t using parse_number_signed [of "show_nat ?n @ r" "i < 0"] show_nat_props [of ?n]
    by simp
  also have "\<dots> = Some (number_of (i < 0) (nat_of_digits (show_nat ?n)) 0, r)"
    by (rule parse_unsigned_integer [OF show_nat_props(1,2,3) assms])
  also have "number_of (i < 0) (nat_of_digits (show_nat ?n)) 0 = JNumber i"
    by (simp add: number_of_def nat_of_digits_show)
  finally show ?thesis .
qed

subsection \<open>Decimal literals\<close>

lemma nat_of_digits_zeros: "nat_of_digits (replicate n (CHR ''0'') @ ds) = nat_of_digits ds"
  by (induction n) (simp_all add: nat_of_digits_def digit_value_def)

lemma strip_zeros_fixed:
  assumes "0 < d" "m mod 10 \<noteq> 0"
  shows "strip_zeros m d = (m, d)"
  using assms by (cases d) simp_all

lemma number_of_decimal:
  assumes "0 < d" "m mod 10 \<noteq> 0"
  shows "number_of (m < 0) (nat \<bar>m\<bar>) (- int d) = JDecimal m d"
proof -
  have z: "nat \<bar>m\<bar> \<noteq> 0" using assms(2) by auto
  have "\<not> (10::int) dvd m" using assms(2) by (simp add: mod_eq_0_iff_dvd)
  then have "\<not> (10::nat) dvd nat \<bar>m\<bar>" using dvd_nat_abs_iff [of 10 m] by simp
  then have "nat \<bar>m\<bar> mod 10 \<noteq> 0" by (simp add: mod_eq_0_iff_dvd)
  then have s: "strip_zeros (nat \<bar>m\<bar>) d = (nat \<bar>m\<bar>, d)"
    using assms(1) by (simp add: strip_zeros_fixed)
  show ?thesis using z assms(1) by (simp add: number_of_def s)
qed

lemma show_nat_hd_nonzero:
  assumes "n \<noteq> 0"
  shows "hd (show_nat n) \<noteq> CHR ''0''"
proof
  assume "hd (show_nat n) = CHR ''0''"
  then have "show_nat n = ''0''" by (rule show_nat_leading)
  then have "nat_of_digits (show_nat n) = 0" by (simp add: nat_of_digits_def digit_value_def)
  with assms show False by (simp add: nat_of_digits_show)
qed

lemma digits_take_drop:
  assumes "\<forall>c \<in> set s. is_digit c"
  shows "\<forall>c \<in> set (take n s). is_digit c" "\<forall>c \<in> set (drop n s). is_digit c"
    "\<forall>c \<in> set (tl s). is_digit c"
proof -
  show "\<forall>c \<in> set (take n s). is_digit c" using assms by (meson in_set_takeD)
  show d: "\<forall>c \<in> set (drop n s). is_digit c" for n using assms by (meson in_set_dropD)
  have "tl s = drop 1 s" by (simp add: drop_Suc)
  then show "\<forall>c \<in> set (tl s). is_digit c" using d [of 1] by simp
qed

lemma show_decimal_body:
  "drop (if m < 0 then 1 else 0) (show_decimal m d) =
     (let s = show_nat (nat \<bar>m\<bar>); k = length s
      in if d < k then take (k - d) s @ CHR ''.'' # drop (k - d) s
         else if d < k + 6 then ''0.'' @ replicate (d - k) (CHR ''0'') @ s
         else (if k = 1 then s else hd s # CHR ''.'' # tl s) @ ''e-'' @ show_nat (Suc d - k))"
  by (simp add: show_decimal_def Let_def)

lemma parse_unsigned_decimal:
  assumes d: "0 < d" and m: "m mod 10 \<noteq> 0" and r: "ends_number r"
  shows "parse_unsigned (m < 0) (drop (if m < 0 then 1 else 0) (show_decimal m d) @ r) =
           Some (JDecimal m d, r)"
proof -
  define s where "s = show_nat (nat \<bar>m\<bar>)"
  define k where "k = length s"
  let ?b = "drop (if m < 0 then 1 else 0) (show_decimal m d)"
  have n0: "nat \<bar>m\<bar> \<noteq> 0" using m by auto
  have dig: "\<forall>c \<in> set s. is_digit c" and ne: "s \<noteq> []" and h0: "hd s \<noteq> CHR ''0''"
    and val: "nat_of_digits s = nat \<bar>m\<bar>"
    unfolding s_def using show_nat_props [of "nat \<bar>m\<bar>"] show_nat_hd_nonzero [OF n0]
    by (simp_all add: nat_of_digits_show)
  have k: "0 < k" using ne by (simp add: k_def)
  have num: "number_of (m < 0) (nat_of_digits s) (- int d) = JDecimal m d"
    unfolding val by (rule number_of_decimal [OF d m])
  note body = show_decimal_body [of m d, unfolded Let_def, folded s_def, folded k_def]
  consider (inside) "d < k" | (zeros) "k \<le> d" "d < k + 6" | (expo) "k + 6 \<le> d" by linarith
  then show ?thesis
  proof cases
    case inside
    let ?ip = "take (k - d) s" and ?fp = "drop (k - d) s"
    have shape: "?b @ r = ?ip @ CHR ''.'' # ?fp @ r"
      using inside by (simp add: body)
    have ip: "?ip \<noteq> []" "hd ?ip = CHR ''0'' \<longrightarrow> tl ?ip = []"
      using inside ne h0 by (simp_all add: k_def hd_take)
    have fp: "?fp \<noteq> []" "length ?fp = d" using inside d by (simp_all add: k_def)
    have p: "parse_unsigned (m < 0) (?ip @ CHR ''.'' # ?fp @ r) =
            Some (number_of (m < 0) (nat_of_digits (?ip @ ?fp)) (- int (length ?fp)), r)"
      by (rule parse_unsigned_fraction [OF digits_take_drop(1) [OF dig] ip
            digits_take_drop(2) [OF dig] fp(1) r])
    show ?thesis by (simp only: shape p append_take_drop_id fp(2) num)
  next
    case zeros
    let ?fp = "replicate (d - k) (CHR ''0'') @ s"
    have shape: "?b @ r = ''0'' @ CHR ''.'' # ?fp @ r"
      using zeros by (simp add: body)
    have fpd: "\<forall>c \<in> set ?fp. is_digit c" using dig by (auto simp: is_digit_def)
    have fp: "?fp \<noteq> []" "length ?fp = d" using zeros ne by (simp_all add: k_def)
    have v: "nat_of_digits (''0'' @ ?fp) = nat_of_digits s"
      using nat_of_digits_zeros [of "Suc (d - k)" s] by simp
    have p: "parse_unsigned (m < 0) (''0'' @ CHR ''.'' # ?fp @ r) =
            Some (number_of (m < 0) (nat_of_digits (''0'' @ ?fp)) (- int (length ?fp)), r)"
      by (rule parse_unsigned_fraction [OF _ _ _ fpd fp(1) r]) (simp_all add: is_digit_def)
    show ?thesis by (simp only: shape p v fp(2) num)
  next
    case expo
    let ?ds = "show_nat (Suc d - k)"
    have e: "nat_of_digits ?ds = Suc d - k" by (rule nat_of_digits_show)
    have hd_dig: "\<forall>c \<in> set [hd s]. is_digit c" using dig ne by (cases s) simp_all
    show ?thesis
    proof (cases "k = 1")
      case True
      then have s1: "s = [hd s]" using ne by (cases s) (simp_all add: k_def)
      have shape: "?b @ r = [hd s] @ ''e-'' @ ?ds @ r"
        using expo True s1 by (simp add: body)
      have p: "parse_unsigned (m < 0) ([hd s] @ ''e-'' @ ?ds @ r) =
              Some (number_of (m < 0) (nat_of_digits [hd s]) (- int (nat_of_digits ?ds)), r)"
        by (rule parse_unsigned_exponent [OF hd_dig _ _ show_nat_props(1,2) r]) simp_all
      have "Suc d - k = d" using True by simp
      then have x: "- int (nat_of_digits ?ds) = - int d" by (simp only: nat_of_digits_show)
      have y: "nat_of_digits [hd s] = nat_of_digits s" using s1 by simp
      show ?thesis by (simp only: shape p x y num)
    next
      case False
      then have t: "tl s \<noteq> []" "length (tl s) = k - 1" "[hd s] @ tl s = s"
        using ne k by (cases s; simp add: k_def)+
      have shape: "?b @ r = [hd s] @ CHR ''.'' # tl s @ ''e-'' @ ?ds @ r"
        using expo False by (simp add: body)
      have p: "parse_unsigned (m < 0) ([hd s] @ CHR ''.'' # tl s @ ''e-'' @ ?ds @ r) =
              Some (number_of (m < 0) (nat_of_digits ([hd s] @ tl s))
                      (- int (nat_of_digits ?ds) - int (length (tl s))), r)"
        by (rule parse_unsigned_fraction_exponent
              [OF hd_dig _ _ digits_take_drop(3) [OF dig] t(1) show_nat_props(1,2) r]) simp_all
      have x: "- int (nat_of_digits ?ds) - int (length (tl s)) = - int d"
        unfolding e t(2) using expo k by linarith
      show ?thesis by (simp only: shape p x t(3) num)
    qed
  qed
qed

lemma show_decimal_sign:
  "show_decimal m d =
     (if m < 0 then ''-'' else []) @ drop (if m < 0 then 1 else 0) (show_decimal m d)"
  by (simp add: show_decimal_def Let_def)

lemma show_decimal_body_first:
  "drop (if m < 0 then 1 else 0) (show_decimal m d) \<noteq> []"
  "is_digit (hd (drop (if m < 0 then 1 else 0) (show_decimal m d)))"
proof -
  define s where "s = show_nat (nat \<bar>m\<bar>)"
  define k where "k = length s"
  let ?b = "drop (if m < 0 then 1 else 0) (show_decimal m d)"
  note body = show_decimal_body [of m d, unfolded Let_def, folded s_def, folded k_def]
  have ne: "s \<noteq> []" and h: "is_digit (hd s)"
    unfolding s_def using show_nat_props [of "nat \<bar>m\<bar>"] by simp_all
  have z: "is_digit (CHR ''0'')" by (simp add: is_digit_def)
  consider (inside) "d < k" | (zeros) "k \<le> d" "d < k + 6" | (one) "k + 6 \<le> d" "k = 1"
    | (many) "k + 6 \<le> d" "k \<noteq> 1" by linarith
  then have "?b \<noteq> [] \<and> is_digit (hd ?b)"
  proof cases
    case inside
    then have "?b = take (k - d) s @ CHR ''.'' # drop (k - d) s" by (simp add: body)
    moreover have "take (k - d) s \<noteq> []" "hd (take (k - d) s) = hd s"
      using inside ne by (simp_all add: k_def hd_take)
    ultimately show ?thesis using h by simp
  next
    case zeros
    then have "?b = CHR ''0'' # CHR ''.'' # replicate (d - k) (CHR ''0'') @ s" by (simp add: body)
    then show ?thesis using z by simp
  next
    case one
    then have "?b = s @ ''e-'' @ show_nat (Suc d - k)" by (simp add: body)
    then show ?thesis using ne h by simp
  next
    case many
    then have "?b = hd s # CHR ''.'' # tl s @ ''e-'' @ show_nat (Suc d - k)" by (simp add: body)
    then show ?thesis using h by simp
  qed
  then show "?b \<noteq> []" "is_digit (hd ?b)" by simp_all
qed

lemma parse_decimal_literal:
  assumes "0 < d" "m mod 10 \<noteq> 0" "ends_number r"
  shows "parse_number (show_decimal m d @ r) = Some (JDecimal m d, r)"
proof -
  let ?b = "drop (if m < 0 then 1 else 0) (show_decimal m d)"
  have b: "?b @ r \<noteq> []" "is_digit (hd (?b @ r))"
    using show_decimal_body_first [of m d] by simp_all
  have e: "show_decimal m d @ r = (if m < 0 then ''-'' else []) @ (?b @ r)"
    by (subst show_decimal_sign) simp
  have "parse_number (show_decimal m d @ r) =
               parse_number ((if m < 0 then ''-'' else []) @ (?b @ r))"
    by (rule arg_cong [OF e])
  also have "\<dots> = parse_unsigned (m < 0) (?b @ r)"
    by (rule parse_number_signed [OF b])
  also have "\<dots> = Some (JDecimal m d, r)" by (rule parse_unsigned_decimal [OF assms])
  finally show ?thesis .
qed

lemma show_decimal_first:
  "show_decimal m d \<noteq> []"
  "hd (show_decimal m d) = CHR ''-'' \<or> is_digit (hd (show_decimal m d))"
proof -
  let ?b = "drop (if m < 0 then 1 else 0) (show_decimal m d)"
  have s: "show_decimal m d = (if m < 0 then ''-'' else []) @ ?b"
    by (rule show_decimal_sign)
  note b = show_decimal_body_first [of m d]
  show "show_decimal m d \<noteq> []" using b(1) by auto
  show "hd (show_decimal m d) = CHR ''-'' \<or> is_digit (hd (show_decimal m d))"
  proof (cases "m < 0")
    case True
    with s have "show_decimal m d = CHR ''-'' # ?b" by simp
    then show ?thesis by (metis list.sel(1))
  next
    case False
    with b(2) show ?thesis by simp
  qed
qed

subsection \<open>Values: parsing what was serialised\<close>

lemma skip_ws_Cons: "\<not> is_ws c \<Longrightarrow> skip_ws (c # cs) = c # cs"
  by (simp add: skip_ws_def)

lemma not_ws:
  "\<not> is_ws (CHR 0x22)" "\<not> is_ws (CHR '','')" "\<not> is_ws (CHR '']'')" "\<not> is_ws (CHR ''}'')"
  "\<not> is_ws (CHR '':'')" "\<not> is_ws (CHR ''['')" "\<not> is_ws (CHR ''{'')"
  by (simp_all add: is_ws_def)

lemma ends_number_sep:
  "ends_number []" "ends_number (CHR '','' # r)" "ends_number (CHR '']'' # r)"
  "ends_number (CHR ''}'' # r)"
  by (simp_all add: ends_number_def is_digit_def)

lemma show_int_first: "\<exists>c cs. show_int i = c # cs \<and> (c = CHR ''-'' \<or> is_digit c)"
proof (cases "i < 0")
  case True
  then show ?thesis by (simp add: show_int_def)
next
  case False
  obtain c cs where s: "show_nat (nat i) = c # cs"
    using show_nat_nonempty [of "nat i"] by (cases "show_nat (nat i)") auto
  with show_nat_digits [of "nat i"] have "is_digit c" by simp
  with s False show ?thesis by (simp add: show_int_def)
qed

lemma number_start:
  assumes "c = CHR ''-'' \<or> is_digit c"
  shows "\<not> is_ws c" "c \<noteq> CHR 0x22" "c \<noteq> CHR ''[''" "c \<noteq> CHR ''{''" "c \<noteq> CHR ''t''"
    "c \<noteq> CHR ''f''" "c \<noteq> CHR ''n''" "c \<noteq> CHR '']''" "c \<noteq> CHR ''}''"
  using assms by (auto simp: is_digit_def is_ws_def)

lemma parse_value_number:
  "c = CHR ''-'' \<or> is_digit c \<Longrightarrow> parse_value (Suc n) (c # cs) = parse_number (c # cs)"
  by (simp add: number_start skip_ws_Cons)

lemma stringify_first:
  "\<exists>c cs. JSON_stringify v = c # cs \<and> \<not> is_ws c \<and> c \<noteq> CHR '']''"
proof (cases v)
  case (JNumber i)
  obtain c cs where "show_int i = c # cs" "c = CHR ''-'' \<or> is_digit c"
    using show_int_first by blast
  with JNumber show ?thesis by (simp add: number_start)
next
  case (JDecimal m d)
  obtain c cs where "show_decimal m d = c # cs" "c = CHR ''-'' \<or> is_digit c"
    using show_decimal_first [of m d] by (cases "show_decimal m d") auto
  with JDecimal show ?thesis by (simp add: number_start)
qed (auto simp: is_ws_def quote_def)

lemma commas_Cons: "xs \<noteq> [] \<Longrightarrow> commas (x # xs) = x @ CHR '','' # commas xs"
  by (cases xs) simp_all

lemma length_commas_Cons: "length x \<le> length (commas (x # xs))"
  by (cases xs) simp_all

lemma elems_first:
  "vs \<noteq> [] \<Longrightarrow>
   \<exists>c cs. commas (map JSON_stringify vs) = c # cs \<and> \<not> is_ws c \<and> c \<noteq> CHR '']''"
proof -
  assume "vs \<noteq> []"
  then obtain v ws where vs: "vs = v # ws" by (cases vs) auto
  obtain c cs where "JSON_stringify v = c # cs" "\<not> is_ws c" "c \<noteq> CHR '']''"
    using stringify_first by blast
  then show ?thesis unfolding vs by (cases ws) simp_all
qed

lemma parse_elems_text:
  assumes IH: "\<And>v m r. v \<in> set vs \<Longrightarrow> length (JSON_stringify v) \<le> m \<Longrightarrow> ends_number r \<Longrightarrow>
                 parse_value m (JSON_stringify v @ r) = Some (v, r)"
    and "vs \<noteq> []" "length (commas (map JSON_stringify vs)) < m"
  shows "parse_elems m (commas (map JSON_stringify vs) @ CHR '']'' # r) = Some (vs, r)"
  using assms
proof (induction vs arbitrary: m)
  case Nil
  then show ?case by simp
next
  case (Cons v ws)
  from Cons.prems(3) obtain k where m: "m = Suc k" by (cases m) auto
  show ?case
  proof (cases "ws = []")
    case True
    with Cons.prems(3) m have len: "length (JSON_stringify v) \<le> k" by simp
    have "parse_value k (JSON_stringify v @ CHR '']'' # r) = Some (v, CHR '']'' # r)"
      by (rule Cons.prems(1)) (simp_all add: len ends_number_sep)
    with True m show ?thesis by (simp add: skip_ws_Cons not_ws)
  next
    case False
    then have c: "commas (map JSON_stringify (v # ws)) =
        JSON_stringify v @ CHR '','' # commas (map JSON_stringify ws)"
      by (simp add: commas_Cons)
    with Cons.prems(3) m have len: "length (JSON_stringify v) \<le> k"
      and len': "length (commas (map JSON_stringify ws)) < k"
      by simp_all
    have v: "parse_value k (JSON_stringify v @ CHR '','' # commas (map JSON_stringify ws) @ CHR '']'' # r) =
        Some (v, CHR '','' # commas (map JSON_stringify ws) @ CHR '']'' # r)"
      by (rule Cons.prems(1)) (simp_all add: len ends_number_sep)
    have "parse_elems k (commas (map JSON_stringify ws) @ CHR '']'' # r) = Some (ws, r)"
      by (rule Cons.IH) (use Cons.prems(1) False len' in auto)
    with v m show ?thesis unfolding c by (simp add: skip_ws_Cons not_ws)
  qed
qed


lemma members_first:
  "kvs \<noteq> [] \<Longrightarrow>
   \<exists>cs. commas (map (\<lambda>(k, v). quote k @ CHR '':'' # JSON_stringify v) kvs) = CHR 0x22 # cs"
proof -
  assume "kvs \<noteq> []"
  then obtain k v ws where kvs: "kvs = (k, v) # ws" by (cases kvs) auto
  show ?thesis unfolding kvs by (cases ws) (simp_all add: quote_def)
qed

lemma parse_members_text:
  assumes IH: "\<And>k v m r. (k, v) \<in> set kvs \<Longrightarrow> length (JSON_stringify v) \<le> m \<Longrightarrow> ends_number r \<Longrightarrow>
                 parse_value m (JSON_stringify v @ r) = Some (v, r)"
    and "kvs \<noteq> []"
    and "length (commas (map (\<lambda>(k, v). quote k @ CHR '':'' # JSON_stringify v) kvs)) < m"
  shows "parse_members m
           (commas (map (\<lambda>(k, v). quote k @ CHR '':'' # JSON_stringify v) kvs) @ CHR ''}'' # r) =
         Some (kvs, r)"
  using assms
proof (induction kvs arbitrary: m)
  case Nil
  then show ?case by simp
next
  case (Cons kv ws)
  obtain k v where kv: "kv = (k, v)" by (cases kv) auto
  from Cons.prems(3) obtain n where m: "m = Suc n" by (cases m) auto
  let ?mem = "\<lambda>(k, v). quote k @ CHR '':'' # JSON_stringify v"
  have key: "\<And>cs. parse_chars (tl (quote k) @ cs) = Some (k, cs)"
    by (rule parse_quote)
  show ?case
  proof (cases "ws = []")
    case True
    with Cons.prems(3) m kv have len: "length (JSON_stringify v) \<le> n" by simp
    have "parse_value n (JSON_stringify v @ CHR ''}'' # r) = Some (v, CHR ''}'' # r)"
      by (rule Cons.prems(1) [of k]) (simp_all add: kv len ends_number_sep)
    with True m kv key [of "CHR '':'' # JSON_stringify v @ CHR ''}'' # r"] show ?thesis
      by (subst quote_Cons) (simp add: skip_ws_Cons not_ws)
  next
    case False
    then have c: "commas (map ?mem (kv # ws)) =
        quote k @ CHR '':'' # JSON_stringify v @ CHR '','' # commas (map ?mem ws)"
      by (simp add: commas_Cons kv)
    with Cons.prems(3) m have len: "length (JSON_stringify v) \<le> n"
      and len': "length (commas (map ?mem ws)) < n"
      by simp_all
    have v: "parse_value n (JSON_stringify v @ CHR '','' # commas (map ?mem ws) @ CHR ''}'' # r) =
        Some (v, CHR '','' # commas (map ?mem ws) @ CHR ''}'' # r)"
      by (rule Cons.prems(1) [of k]) (simp_all add: kv len ends_number_sep)
    have rest: "parse_members n (commas (map ?mem ws) @ CHR ''}'' # r) = Some (ws, r)"
      by (rule Cons.IH) (use Cons.prems(1) False len' in auto)
    show ?thesis
      unfolding c m
      using v rest kv
        key [of "CHR '':'' # JSON_stringify v @ CHR '','' # commas (map ?mem ws) @ CHR ''}'' # r"]
      by (subst quote_Cons) (simp add: skip_ws_Cons not_ws)
  qed
qed

lemma update_fresh: "k \<notin> fst ` set al \<Longrightarrow> AList.update k v al = al @ [(k, v)]"
  by (induction al) auto

lemma assign_from:
  "distinct (map fst (acc @ ms)) \<Longrightarrow>
   foldl (\<lambda>acc (k, v). AList.update k v acc) acc ms = acc @ ms"
proof (induction ms arbitrary: acc)
  case Nil
  then show ?case by simp
next
  case (Cons kv ms)
  obtain k v where kv: "kv = (k, v)" by (cases kv) auto
  from Cons.prems have fresh: "k \<notin> fst ` set acc" by (auto simp: kv)
  from Cons.prems have "distinct (map fst ((acc @ [(k, v)]) @ ms))" by (simp add: kv)
  then have "foldl (\<lambda>acc (k, v). AList.update k v acc) (acc @ [(k, v)]) ms = (acc @ [(k, v)]) @ ms"
    by (rule Cons.IH)
  then show ?case by (simp add: kv update_fresh [OF fresh])
qed

lemma assign_distinct: "distinct (map fst ms) \<Longrightarrow> assign_members ms = ms"
  using assign_from [of "[]" ms] by (simp add: assign_members_def)

lemma fuel_positive: "length (JSON_stringify v) \<le> m \<Longrightarrow> \<exists>n. m = Suc n"
  using stringify_first [of v] by (cases m) auto

lemma parse_stringify:
  "wf_json v \<Longrightarrow> length (JSON_stringify v) \<le> m \<Longrightarrow> ends_number r \<Longrightarrow>
   parse_value m (JSON_stringify v @ r) = Some (v, r)"
proof (induction v arbitrary: m r)
  case JNull
  then obtain n where "m = Suc n" using fuel_positive by blast
  then show ?case by (simp add: skip_ws_def is_ws_def)
next
  case (JBool b)
  then obtain n where "m = Suc n" using fuel_positive by blast
  then show ?case by (simp add: skip_ws_def is_ws_def)
next
  case (JNumber i)
  then obtain n where m: "m = Suc n" using fuel_positive by blast
  obtain c cs where s: "show_int i = c # cs" and c: "c = CHR ''-'' \<or> is_digit c"
    using show_int_first by blast
  have "parse_value m (show_int i @ r) = parse_number (show_int i @ r)"
    unfolding s m using parse_value_number [OF c] by simp
  with JNumber.prems(3) show ?case by (simp add: parse_int_literal)
next
  case (JDecimal k d)
  then obtain n where m: "m = Suc n" using fuel_positive by blast
  obtain c cs where s: "show_decimal k d = c # cs" and c: "c = CHR ''-'' \<or> is_digit c"
    using show_decimal_first [of k d] by (cases "show_decimal k d") auto
  have "parse_value m (show_decimal k d @ r) = parse_number (show_decimal k d @ r)"
    unfolding s m using parse_value_number [OF c] by simp
  with JDecimal.prems show ?case by (simp add: parse_decimal_literal)
next
  case (JString s)
  then obtain n where m: "m = Suc n" using fuel_positive by blast
  have t: "JSON_stringify (JString s) @ r = CHR 0x22 # tl (quote s) @ r"
    by (simp add: quote_def)
  show ?case
    unfolding t m using parse_quote [of s r] by (simp add: skip_ws_Cons not_ws)
next
  case (JArray vs)
  then obtain n where m: "m = Suc n" using fuel_positive by blast
  show ?case
  proof (cases "vs = []")
    case True
    with m show ?thesis by (simp add: skip_ws_Cons not_ws)
  next
    case False
    obtain c cs where first: "commas (map JSON_stringify vs) = c # cs" "\<not> is_ws c" "c \<noteq> CHR '']''"
      using elems_first [OF False] by blast
    have len: "length (commas (map JSON_stringify vs)) < n"
      using JArray.prems(2) m by simp
    have "parse_elems n (commas (map JSON_stringify vs) @ CHR '']'' # r) = Some (vs, r)"
    proof (rule parse_elems_text [OF _ False len])
      fix v m' r'
      assume v: "v \<in> set vs" and l: "length (JSON_stringify v) \<le> m'" and e: "ends_number r'"
      from v JArray.prems(1) have w: "wf_json v"
        by (simp add: list_all_iff)
      show "parse_value m' (JSON_stringify v @ r') = Some (v, r')"
        by (rule JArray.IH [OF v w l e])
    qed
    then have "parse_elems n (c # cs @ CHR '']'' # r) = Some (vs, r)"
      using first(1) by simp
    with m first show ?thesis by (simp add: skip_ws_Cons not_ws)
  qed
next
  case (JObject kvs)
  then obtain n where m: "m = Suc n" using fuel_positive by blast
  let ?mem = "\<lambda>(k, v). quote k @ CHR '':'' # JSON_stringify v"
  show ?case
  proof (cases "kvs = []")
    case True
    with m show ?thesis by (simp add: skip_ws_Cons not_ws)
  next
    case False
    obtain cs where first: "commas (map ?mem kvs) = CHR 0x22 # cs"
      using members_first [OF False] by blast
    have len: "length (commas (map ?mem kvs)) < n"
      using JObject.prems(2) m by simp
    have "parse_members n (commas (map ?mem kvs) @ CHR ''}'' # r) = Some (kvs, r)"
    proof (rule parse_members_text [OF _ False len])
      fix k v m' r'
      assume kv: "(k, v) \<in> set kvs" and l: "length (JSON_stringify v) \<le> m'"
        and e: "ends_number r'"
      from kv JObject.prems(1) have w: "wf_json v"
        by (auto simp: list_all_iff)
      have "v \<in> Basic_BNFs.snds (k, v)" by simp
      from JObject.IH [OF kv this w l e]
      show "parse_value m' (JSON_stringify v @ r') = Some (v, r')" .
    qed
    then have "parse_members n (CHR 0x22 # cs @ CHR ''}'' # r) = Some (kvs, r)"
      using first by simp
    moreover have "assign_members kvs = kvs"
      using JObject.prems(1) by (simp add: assign_distinct)
    ultimately show ?thesis using m first by (simp add: skip_ws_Cons not_ws)
  qed
qed

lemma JSON_roundtrip: "wf_json v \<Longrightarrow> JSON_parse (JSON_stringify v) = Some v"
  using parse_stringify [of v "Suc (length (JSON_stringify v))" "[]"]
  by (simp add: JSON_parse_def ends_number_sep skip_ws_def)

section \<open>Case-insensitive comparison\<close>

lemma of_char_lower_char:
  "(of_char (lower_char c) :: nat) = (if is_upper c then of_char c + 32 else of_char c)"
  by (simp add: lower_char_def is_upper_def)

lemma lower_char_eq_iff: "lower_char c = lower_char d \<longleftrightarrow> same_letter c d"
proof -
  have "lower_char c = lower_char d \<longleftrightarrow>
        (of_char (lower_char c) :: nat) = of_char (lower_char d)"
    by simp
  also have "\<dots> \<longleftrightarrow> same_letter c d"
    unfolding of_char_lower_char same_letter_def
    by (auto simp: is_upper_def)
  finally show ?thesis .
qed

lemma toLowerCase_eq_iff: "toLowerCase a = toLowerCase b \<longleftrightarrow> equal_ignoring_case a b"
  unfolding toLowerCase_def
  by (induction a b rule: equal_ignoring_case.induct) (auto simp: lower_char_eq_iff)

section \<open>The selection policy\<close>

lemma lower_equals_asset: "lower_equals (asset r) (toLowerCase tok) = asset_is tok r"
  by (simp add: lower_equals_def asset_is_def toLowerCase_eq_iff split: option.splits)

lemma policy_filters:
  "createInputTokenPolicy tok v reqs = filter (policy_keeps (toLowerCase tok)) reqs"
  by (simp add: createInputTokenPolicy_def)

lemma selector_exact:
  "\<exists>e \<in> set xs. scheme e = ''exact'' \<Longrightarrow>
   \<exists>e. preferExactSelector v xs = Some e \<and> e \<in> set xs \<and> scheme e = ''exact''"
  by (auto simp: preferExactSelector_def find_Some_iff find_None_iff split: option.splits)

lemma selector_first:
  "\<forall>e \<in> set xs. scheme e \<noteq> ''exact'' \<Longrightarrow>
   preferExactSelector v xs = (case xs of [] \<Rightarrow> None | r # _ \<Rightarrow> Some r)"
  by (auto simp: preferExactSelector_def find_Some_iff find_None_iff split: option.splits)

text \<open>
  C1. The policy keeps a sublist of the accepts list, in order: an \<open>exact\<close> requirement
  is kept iff its asset equals the chosen token ignoring case; an \<open>escrow\<close> requirement
  is kept iff its \<open>swapData.inputToken\<close>, when there is a (non-empty) one, equals the
  chosen token ignoring case, and iff its asset does when there is none. From the kept
  list the selector returns a requirement whose scheme is \<open>exact\<close> when the list has one,
  and otherwise the first of the list (nothing when the list is empty).
\<close>

theorem selector_filters_then_prefers_exact:
  "createInputTokenPolicy tok v reqs =
     filter (\<lambda>r. r \<in> set (createInputTokenPolicy tok v reqs)) reqs \<and>
   (\<forall>r. scheme r = ''exact'' \<longrightarrow>
      (r \<in> set (createInputTokenPolicy tok v reqs) \<longleftrightarrow> r \<in> set reqs \<and> asset_is tok r)) \<and>
   (\<forall>r. scheme r = ''escrow'' \<longrightarrow>
      (r \<in> set (createInputTokenPolicy tok v reqs) \<longleftrightarrow>
         r \<in> set reqs \<and>
         (case swapData_inputToken r of
            Some t \<Rightarrow> if t \<noteq> [] then equal_ignoring_case t tok else asset_is tok r
          | None \<Rightarrow> asset_is tok r))) \<and>
   ((\<exists>e \<in> set (createInputTokenPolicy tok v reqs). scheme e = ''exact'') \<longrightarrow>
      (\<exists>e. preferExactSelector v (createInputTokenPolicy tok v reqs) = Some e \<and>
           e \<in> set (createInputTokenPolicy tok v reqs) \<and> scheme e = ''exact'')) \<and>
   ((\<forall>e \<in> set (createInputTokenPolicy tok v reqs). scheme e \<noteq> ''exact'') \<longrightarrow>
      preferExactSelector v (createInputTokenPolicy tok v reqs) =
        (case createInputTokenPolicy tok v reqs of [] \<Rightarrow> None | r # _ \<Rightarrow> Some r))"
proof (intro conjI allI impI)
  show "createInputTokenPolicy tok v reqs =
     filter (\<lambda>r. r \<in> set (createInputTokenPolicy tok v reqs)) reqs"
    unfolding policy_filters by (rule filter_cong) auto
next
  fix r :: PolicyRequirements assume "scheme r = ''exact''"
  then show "r \<in> set (createInputTokenPolicy tok v reqs) \<longleftrightarrow> r \<in> set reqs \<and> asset_is tok r"
    by (auto simp: policy_filters policy_keeps_def lower_equals_asset)
next
  fix r :: PolicyRequirements assume "scheme r = ''escrow''"
  then show "r \<in> set (createInputTokenPolicy tok v reqs) \<longleftrightarrow>
         r \<in> set reqs \<and>
         (case swapData_inputToken r of
            Some t \<Rightarrow> if t \<noteq> [] then equal_ignoring_case t tok else asset_is tok r
          | None \<Rightarrow> asset_is tok r)"
    by (auto simp: policy_filters policy_keeps_def lower_equals_asset toLowerCase_eq_iff
             split: option.splits)
next
  assume "\<exists>e \<in> set (createInputTokenPolicy tok v reqs). scheme e = ''exact''"
  then show "\<exists>e. preferExactSelector v (createInputTokenPolicy tok v reqs) = Some e \<and>
           e \<in> set (createInputTokenPolicy tok v reqs) \<and> scheme e = ''exact''"
    by (rule selector_exact)
next
  assume "\<forall>e \<in> set (createInputTokenPolicy tok v reqs). scheme e \<noteq> ''exact''"
  then show "preferExactSelector v (createInputTokenPolicy tok v reqs) =
        (case createInputTokenPolicy tok v reqs of [] \<Rightarrow> None | r # _ \<Rightarrow> Some r)"
    by (rule selector_first)
qed

theorem selector_witness:
  "(\<exists>e. preferExactSelector 2 (createInputTokenPolicy ''0x036CBD53'' 2 sample_accepts) = Some e \<and>
        e \<in> set (createInputTokenPolicy ''0x036CBD53'' 2 sample_accepts) \<and> scheme e = ''exact'') \<and>
   createInputTokenPolicy ''0x036CBD53'' 2 sample_accepts = [usdc_escrow, usdc_exact] \<and>
   preferExactSelector 2 (createInputTokenPolicy ''0x4200abcd'' 2 sample_accepts) = Some weth_escrow"
proof -
  have kept: "createInputTokenPolicy ''0x036CBD53'' 2 sample_accepts = [usdc_escrow, usdc_exact]"
    by code_simp
  have ex: "\<exists>e \<in> set (createInputTokenPolicy ''0x036CBD53'' 2 sample_accepts). scheme e = ''exact''"
    unfolding kept by (simp add: usdc_exact_def)
  have kept': "createInputTokenPolicy ''0x4200abcd'' 2 sample_accepts = [weth_escrow]"
    by code_simp
  have no: "\<forall>e \<in> set (createInputTokenPolicy ''0x4200abcd'' 2 sample_accepts). scheme e \<noteq> ''exact''"
    unfolding kept' by (simp add: weth_escrow_def)
  from selector_filters_then_prefers_exact [of "''0x036CBD53''" 2 sample_accepts] ex
  have "\<exists>e. preferExactSelector 2 (createInputTokenPolicy ''0x036CBD53'' 2 sample_accepts) = Some e \<and>
        e \<in> set (createInputTokenPolicy ''0x036CBD53'' 2 sample_accepts) \<and> scheme e = ''exact''"
    by blast
  moreover
  from selector_filters_then_prefers_exact [of "''0x4200abcd''" 2 sample_accepts] no
  have "preferExactSelector 2 (createInputTokenPolicy ''0x4200abcd'' 2 sample_accepts) =
        (case createInputTokenPolicy ''0x4200abcd'' 2 sample_accepts of [] \<Rightarrow> None | r # _ \<Rightarrow> Some r)"
    by blast
  ultimately show ?thesis using kept kept' by simp
qed

section \<open>Headers\<close>

lemma headers_get_set:
  "headers_get (headers_set name v r) name' =
     (if toLowerCase name' = toLowerCase name then Some v else headers_get r name')"
  by (simp add: headers_get_def headers_set_def update_conv')

lemma status_headers_set [simp]: "status (headers_set name v r) = status r"
  by (simp add: headers_set_def)

lemma body_headers_set [simp]: "body (headers_set name v r) = body r"
  by (simp add: headers_set_def)

lemma lower_payment_required: "toLowerCase ''PAYMENT-REQUIRED'' = ''payment-required''"
  by code_simp

lemma lower_payment_response: "toLowerCase ''PAYMENT-RESPONSE'' = ''payment-response''"
  by code_simp

lemma lower_expose: "toLowerCase ''Access-Control-Expose-Headers'' = ''access-control-expose-headers''"
  by code_simp

lemmas lower_names = lower_payment_required lower_payment_response lower_expose

lemma payment_response_parts:
  "status (payment_response b st) = st"
  "body (payment_response b st) = b"
  "headers_get (payment_response b st) ''PAYMENT-RESPONSE'' = Some (base64_encode (JSON_stringify b))"
  "headers_get (payment_response b st) ''Access-Control-Expose-Headers'' = Some EXPOSED"
  by (simp_all add: payment_response_def headers_get_set lower_names NextResponse_json_def)

lemma challenge_parts:
  "status (challenge reqs message to amount network) = 402"
  "headers_get (challenge reqs message to amount network) ''PAYMENT-REQUIRED'' =
     Some (base64_encode (JSON_stringify (JArray (map requirement_json reqs))))"
  "headers_get (challenge reqs message to amount network) ''Access-Control-Expose-Headers'' =
     Some EXPOSED"
  by (simp_all add: challenge_def headers_get_set lower_names NextResponse_json_def)

lemma malformed_parts:
  "status malformed = 400"
  "headers_get malformed ''PAYMENT-RESPONSE'' = None"
  "headers_get malformed ''Access-Control-Expose-Headers'' = None"
  by (simp_all add: malformed_def NextResponse_json_def headers_get_def lower_names)

lemma no_options_parts:
  "status no_options = 500"
  "body no_options = JObject [(''error'', JString ''No payment options available'')]"
  by (simp_all add: no_options_def NextResponse_json_def)

section \<open>The challenge\<close>

lemma handle402Response_eq:
  "handle402Response e st to amount network rcpt =
     (let args = \<lparr>arg_network = network, arg_price = CHR ''$'' # amount, arg_payTo = rcpt\<rparr>
      in (if paymentRequirements_of e args = [] then no_options
          else challenge (paymentRequirements_of e args) ''Payment required'' to amount network,
          [BuildPaymentRequirements args, BuildAcceptsResolved args], st))"
  by (simp add: handle402Response_def getCachedRequirements_def cacheRequirements_def Let_def)

section \<open>The submission\<close>

lemma submission_outcomes:
  "handlePaymentSubmission e to amount network rcpt sig = (r, calls) \<Longrightarrow>
   (calls = [] \<and> (r = malformed \<or> (\<exists>m. r = caught m))) \<or>
   (\<exists>P pp a.
      JSON_parse (base64_decode sig) = Some P \<and>
      truthy_opt (get_property P ''accepted'') \<and> truthy_opt (get_property P ''payload'') \<and>
      preprocessSwapPayload e
        (fullPaymentPayload P (the (get_property P ''accepted'')) (the (get_property P ''payload''))
           to amount network) = Inr pp \<and>
      a = get_property pp ''accepted'' \<and>
      ((calls = [Verify pp a] \<and> (\<exists>m. verify e pp a = Inl m \<and> r = caught m)) \<or>
       (calls = [Verify pp a] \<and>
          (\<exists>vr. verify e pp a = Inr vr \<and> \<not> isValid vr \<and> r = verification_failed vr)) \<or>
       (calls = [Verify pp a, Settle pp a] \<and>
          (\<exists>vr. verify e pp a = Inr vr \<and> isValid vr) \<and>
          ((\<exists>m. settle e pp a = Inl m \<and> r = caught m) \<or>
           (\<exists>sr. settle e pp a = Inr sr \<and> \<not> success sr \<and> r = settlement_failed sr) \<or>
           (\<exists>sr. settle e pp a = Inr sr \<and> success sr \<and>
                 r = settled sr to amount network rcpt)))))"
  unfolding handlePaymentSubmission_def Let_def
  by (auto split: option.splits json.splits sum.splits if_splits)

lemma verification_failed_parts:
  "status (verification_failed vr) = 402"
  "body (verification_failed vr) =
     JObject [(''success'', JBool False),
              (''errorReason'', JString (or_default (invalidReason vr) ''Payment verification failed''))]"
  by (simp_all add: verification_failed_def payment_response_parts)

lemma sample_decodes: "JSON_parse (base64_decode sample_signature) = Some sample_payload"
  by code_simp

text \<open>
  C2. In every run of \<open>handlePaymentSubmission\<close>, a call of the facilitator's settle
  comes directly after a call of its verify on the same processed payload and accepted
  requirement, and that verify answered \<open>isValid = true\<close>. Whenever verify answers
  invalid, the response is a 402 whose body is \<open>{ success: false, errorReason }\<close> with the
  facilitator's \<open>invalidReason\<close> (the fixed text "Payment verification failed" when the
  facilitator gives none), and settle is not called.
\<close>

theorem settle_only_after_valid_verify:
  "handlePaymentSubmission e to amount network rcpt sig = (r, calls) \<Longrightarrow>
   (\<forall>p a. Settle p a \<in> set calls \<longrightarrow>
      calls = [Verify p a, Settle p a] \<and> (\<exists>vr. verify e p a = Inr vr \<and> isValid vr)) \<and>
   (\<forall>p a vr. Verify p a \<in> set calls \<and> verify e p a = Inr vr \<and> \<not> isValid vr \<longrightarrow>
      status r = 402 \<and>
      body r =
        JObject [(''success'', JBool False),
                 (''errorReason'',
                    JString (or_default (invalidReason vr) ''Payment verification failed''))] \<and>
      (\<forall>p' a'. Settle p' a' \<notin> set calls))"
proof -
  assume run: "handlePaymentSubmission e to amount network rcpt sig = (r, calls)"
  note cases = submission_outcomes [OF run]
  have settle: "\<forall>p a. Settle p a \<in> set calls \<longrightarrow>
      calls = [Verify p a, Settle p a] \<and> (\<exists>vr. verify e p a = Inr vr \<and> isValid vr)"
    using cases by auto
  have invalid: "\<forall>p a vr. Verify p a \<in> set calls \<and> verify e p a = Inr vr \<and> \<not> isValid vr \<longrightarrow>
      r = verification_failed vr \<and> calls = [Verify p a]"
    using cases by auto
  show ?thesis
  proof (intro conjI allI impI)
    fix p a assume "Settle p a \<in> set calls"
    with settle show "calls = [Verify p a, Settle p a]" "\<exists>vr. verify e p a = Inr vr \<and> isValid vr"
      by blast+
  next
    fix p a vr p' a'
    assume h: "Verify p a \<in> set calls \<and> verify e p a = Inr vr \<and> \<not> isValid vr"
    with invalid have rv: "r = verification_failed vr" and cs: "calls = [Verify p a]"
      by blast+
    show "status r = 402" using rv by (simp add: verification_failed_parts)
    show "body r =
        JObject [(''success'', JBool False),
                 (''errorReason'',
                    JString (or_default (invalidReason vr) ''Payment verification failed''))]"
      using rv by (simp add: verification_failed_parts)
    show "Settle p' a' \<notin> set calls" using cs by simp
  qed
qed


lemma sample_run:
  "handlePaymentSubmission sample_env ''0xabc'' ''0.01'' ''eip155:84532'' ''0xRecipient'' sample_signature =
     (settled \<lparr>success = True, transaction = Some ''0xabc123'',
               settle_network = Some ''eip155:84532'', errorReason = None\<rparr>
        ''0xabc'' ''0.01'' ''eip155:84532'' ''0xRecipient'',
      [Verify sample_processed sample_accepted, Settle sample_processed sample_accepted])"
  by (simp add: handlePaymentSubmission_def sample_decodes Let_def sample_payload_def
      truthy_opt_def sample_env_def sample_preprocess_def fullPaymentPayload_def
      sample_processed_def sample_accepted_def)

lemma rejecting_run:
  "handlePaymentSubmission rejecting_env ''0xabc'' ''0.01'' ''eip155:84532'' ''0xRecipient'' sample_signature =
     (verification_failed \<lparr>isValid = False, invalidReason = Some ''insufficient_funds'', payer = None\<rparr>,
      [Verify sample_processed sample_accepted])"
  by (simp add: handlePaymentSubmission_def sample_decodes Let_def sample_payload_def
      truthy_opt_def rejecting_env_def sample_env_def sample_preprocess_def fullPaymentPayload_def
      sample_processed_def sample_accepted_def)

theorem settle_only_after_valid_verify_witness:
  "status (fst (handlePaymentSubmission rejecting_env ''0xabc'' ''0.01'' ''eip155:84532''
                  ''0xRecipient'' sample_signature)) = 402 \<and>
   body (fst (handlePaymentSubmission rejecting_env ''0xabc'' ''0.01'' ''eip155:84532''
                  ''0xRecipient'' sample_signature)) =
     JObject [(''success'', JBool False), (''errorReason'', JString ''insufficient_funds'')] \<and>
   (\<forall>p a. Settle p a \<notin> set (snd (handlePaymentSubmission rejecting_env ''0xabc'' ''0.01''
                                     ''eip155:84532'' ''0xRecipient'' sample_signature))) \<and>
   (\<exists>vr. verify sample_env sample_processed sample_accepted = Inr vr \<and> isValid vr)"
proof -
  have v: "Verify sample_processed sample_accepted \<in> set [Verify sample_processed sample_accepted] \<and>
        verify rejecting_env sample_processed sample_accepted =
          Inr \<lparr>isValid = False, invalidReason = Some ''insufficient_funds'', payer = None\<rparr> \<and>
        \<not> isValid \<lparr>isValid = False, invalidReason = Some ''insufficient_funds'', payer = None\<rparr>"
    by (simp add: rejecting_env_def sample_env_def)
  from settle_only_after_valid_verify [OF rejecting_run] v
  have "status (verification_failed \<lparr>isValid = False, invalidReason = Some ''insufficient_funds'', payer = None\<rparr>) = 402 \<and>
        body (verification_failed \<lparr>isValid = False, invalidReason = Some ''insufficient_funds'', payer = None\<rparr>) =
          JObject [(''success'', JBool False),
                   (''errorReason'', JString (or_default (Some ''insufficient_funds'') ''Payment verification failed''))] \<and>
        (\<forall>p' a'. Settle p' a' \<notin> set [Verify sample_processed sample_accepted])"
    by auto
  moreover
  have "Settle sample_processed sample_accepted \<in>
        set [Verify sample_processed sample_accepted, Settle sample_processed sample_accepted]"
    by simp
  with settle_only_after_valid_verify [OF sample_run]
  have "\<exists>vr. verify sample_env sample_processed sample_accepted = Inr vr \<and> isValid vr"
    by blast
  ultimately show ?thesis
    by (simp add: rejecting_run or_default_def)
qed

lemma settlement_failed_parts:
  "status (settlement_failed sr) = 402"
  "body (settlement_failed sr) =
     JObject [(''success'', JBool False),
              (''errorReason'', JString (or_default (errorReason sr) ''Payment settlement failed''))]"
  by (simp_all add: settlement_failed_def payment_response_parts)

lemma caught_parts:
  "status (caught m) = 500"
  "body (caught m) =
     JObject [(''success'', JBool False),
              (''errorReason'', JString (''Payment processing error: '' @ m))]"
  by (simp_all add: caught_def payment_response_parts)

lemma settled_status: "status (settled sr to amount network rcpt) = 200"
  by (simp add: settled_def payment_response_parts)

lemma mirrored:
  "r = caught m \<or> r = verification_failed vr \<or> r = settlement_failed sr \<or>
   r = settled sr to amount network rcpt \<Longrightarrow>
   headers_get r ''PAYMENT-RESPONSE'' = Some (base64_encode (JSON_stringify (body r))) \<and>
   headers_get r ''Access-Control-Expose-Headers'' = Some EXPOSED"
  by (auto simp: caught_def verification_failed_def settlement_failed_def settled_def
      payment_response_parts)

text \<open>
  C5, as the code has it. The success (200), verification-failure and
  settlement-failure (402) and internal-error (500) answers of
  \<open>handlePaymentSubmission\<close> carry the JSON body base64-encoded in \<open>PAYMENT-RESPONSE\<close> and
  expose both payment headers; the malformed-payload answer is the only 400, and it is
  the plain \<open>{ error }\<close> response with neither header.
\<close>

theorem payment_response_mirrors_body:
  "handlePaymentSubmission e to amount network rcpt sig = (r, calls) \<Longrightarrow>
   (status r = 200 \<or> status r = 402 \<or> status r = 500 \<or> status r = 400) \<and>
   (status r \<noteq> 400 \<longrightarrow>
      headers_get r ''PAYMENT-RESPONSE'' = Some (base64_encode (JSON_stringify (body r))) \<and>
      headers_get r ''Access-Control-Expose-Headers'' = Some EXPOSED) \<and>
   (status r = 400 \<longrightarrow>
      r = malformed \<and> headers_get r ''PAYMENT-RESPONSE'' = None \<and>
      headers_get r ''Access-Control-Expose-Headers'' = None)"
proof -
  assume run: "handlePaymentSubmission e to amount network rcpt sig = (r, calls)"
  from submission_outcomes [OF run]
  consider "r = malformed" | m where "r = caught m" | vr where "r = verification_failed vr"
    | sr where "r = settlement_failed sr" | sr where "r = settled sr to amount network rcpt"
    by blast
  then show ?thesis
  proof cases
    case 1
    then show ?thesis by (simp add: malformed_parts)
  next
    case 2
    with mirrored [of r m] show ?thesis by (simp add: caught_parts)
  next
    case 3
    with mirrored [of r _ vr] show ?thesis by (simp add: verification_failed_parts)
  next
    case 4
    with mirrored [of r _ _ sr] show ?thesis by (simp add: settlement_failed_parts)
  next
    case 5
    with mirrored [of r _ _ sr to amount network rcpt] show ?thesis by (simp add: settled_status)
  qed
qed

lemma empty_object_decodes: "JSON_parse (base64_decode ''e30='') = Some (JObject [])"
  by code_simp

lemma empty_object_run:
  "handlePaymentSubmission sample_env ''0xabc'' ''0.01'' ''eip155:84532'' ''0xRecipient'' ''e30='' =
     (malformed, [])"
  by (simp add: handlePaymentSubmission_def empty_object_decodes Let_def truthy_opt_def)

text \<open>The headers \<open>MS41\<close> and \<open>eyJ4IjoxLjV9\<close> are base64 of \<open>1.5\<close> and \<open>{"x":1.5}\<close>.\<close>

lemma decimal_decodes:
  "JSON_parse (base64_decode ''MS41'') = Some (JDecimal 15 1)"
  "JSON_parse (base64_decode ''eyJ4IjoxLjV9'') = Some (JObject [(''x'', JDecimal 15 1)])"
  by code_simp+

lemma decimal_run:
  "handlePaymentSubmission sample_env ''0xabc'' ''0.01'' ''eip155:84532'' ''0xRecipient'' ''MS41'' =
     (malformed, [])"
  "handlePaymentSubmission sample_env ''0xabc'' ''0.01'' ''eip155:84532'' ''0xRecipient''
     ''eyJ4IjoxLjV9'' = (malformed, [])"
  by (simp_all add: handlePaymentSubmission_def decimal_decodes Let_def truthy_opt_def)

text \<open>
  The header \<open>e30=\<close> is base64 of \<open>{}\<close>: the answer is the 400 of the malformed
  branch, without \<open>PAYMENT-RESPONSE\<close> and without the CORS exposure.
\<close>

theorem malformed_payload_has_no_payment_response:
  "status (fst (handlePaymentSubmission sample_env ''0xabc'' ''0.01'' ''eip155:84532''
                  ''0xRecipient'' ''e30='')) = 400 \<and>
   headers_get (fst (handlePaymentSubmission sample_env ''0xabc'' ''0.01'' ''eip155:84532''
                  ''0xRecipient'' ''e30='')) ''PAYMENT-RESPONSE'' = None \<and>
   headers_get (fst (handlePaymentSubmission sample_env ''0xabc'' ''0.01'' ''eip155:84532''
                  ''0xRecipient'' ''e30='')) ''Access-Control-Expose-Headers'' = None"
  by (simp add: empty_object_run malformed_parts)

theorem payment_response_mirrors_body_witness:
  "headers_get (fst (handlePaymentSubmission sample_env ''0xabc'' ''0.01'' ''eip155:84532''
                  ''0xRecipient'' sample_signature)) ''PAYMENT-RESPONSE'' =
     Some (base64_encode (JSON_stringify
        (body (fst (handlePaymentSubmission sample_env ''0xabc'' ''0.01'' ''eip155:84532''
                  ''0xRecipient'' sample_signature))))) \<and>
   status (fst (handlePaymentSubmission sample_env ''0xabc'' ''0.01'' ''eip155:84532''
                  ''0xRecipient'' sample_signature)) = 200"
proof -
  have st: "status (settled \<lparr>success = True, transaction = Some ''0xabc123'',
               settle_network = Some ''eip155:84532'', errorReason = None\<rparr>
        ''0xabc'' ''0.01'' ''eip155:84532'' ''0xRecipient'') = 200"
    by (rule settled_status)
  with payment_response_mirrors_body [OF sample_run] show ?thesis
    by (simp add: sample_run)
qed

section \<open>Validation and dispatch\<close>

lemma GET_missing:
  "missing (param_to req) \<or> missing (param_amount req) \<Longrightarrow>
   GET e st req = (Responded (bad_request ''Missing required parameters: to, amount''), [], st)"
  by (simp add: GET_def)

lemma GET_invalid_amount:
  "\<not> missing (param_to req) \<Longrightarrow> \<not> missing (param_amount req) \<Longrightarrow>
   rejected_amount (parseFloat (the (param_amount req))) \<Longrightarrow>
   GET e st req = (Responded (bad_request ''Invalid amount. Must be a positive number.''), [], st)"
  by (simp add: GET_def Let_def)

lemma GET_validated:
  assumes "\<not> missing (param_to req)" "\<not> missing (param_amount req)"
    and "\<not> rejected_amount (parseFloat (the (param_amount req)))"
    and "resolveRecipient e (the (param_to req)) = Some rcpt" "rcpt \<noteq> []"
    and "getSupportedNetworks e st = (Inr nets, calls, st1)" "nets \<noteq> []"
    and "network = (if missing (param_network req) then hd nets else the (param_network req))"
  shows "GET e st req =
     (if \<not> network_format_ok network then
        (Responded (bad_request ''Invalid network format. Use eip155:CHAINID''),
         ResolveRecipient (the (param_to req)) # calls, st1)
      else if network \<notin> set nets then
        (Responded
           (NextResponse_json
              (JObject [(''error'', JString (''Network '' @ network @ '' not supported'')),
                        (''supportedNetworks'', JArray (map JString nets))])
              400),
         ResolveRecipient (the (param_to req)) # calls, st1)
      else if missing (payment_signature req) then
        (case handle402Response e st1 (the (param_to req)) (the (param_amount req)) network rcpt of
           (r, calls', st2) \<Rightarrow>
             (Responded r, ResolveRecipient (the (param_to req)) # calls @ calls', st2))
      else
        (case handlePaymentSubmission e (the (param_to req)) (the (param_amount req)) network rcpt
                (the (payment_signature req)) of
           (r, calls') \<Rightarrow>
             (Responded r, ResolveRecipient (the (param_to req)) # calls @ calls', st1)))"
  using assms by (simp add: GET_def Let_def)

lemma getSupportedNetworks_calls:
  "getSupportedNetworks e st = (res, calls, st1) \<Longrightarrow>
   (supportedNetworks_cache st = None \<longrightarrow> calls = [GetSupported]) \<and>
   (supportedNetworks_cache st \<noteq> None \<longrightarrow> calls = [])"
  by (auto simp: getSupportedNetworks_def Let_def split: option.splits sum.splits)

lemma sample_networks:
  "getSupportedNetworks sample_env cold =
     (Inr [''eip155:84532''], [GetSupported], warm)"
  by (simp add: getSupportedNetworks_def sample_env_def cold_def warm_def add_network_def Let_def)


lemma amount_ok: "\<not> rejected_amount (parseFloat ''0.01'')"
  by code_simp

lemma network_ok: "network_format_ok ''eip155:84532''"
  by code_simp

lemma sample_env_answers:
  "resolveRecipient sample_env to = Some ''0xRecipient''"
  "syntaxErrorMessage sample_env txt = ''Unexpected token''"
  by (simp_all add: sample_env_def)

lemma GET_sample_submission:
  "sig \<noteq> [] \<Longrightarrow>
   GET sample_env cold (submission sig) =
     (Responded (fst (handlePaymentSubmission sample_env ''0xabc'' ''0.01'' ''eip155:84532'' ''0xRecipient'' sig)),
      ResolveRecipient ''0xabc'' # GetSupported #
        snd (handlePaymentSubmission sample_env ''0xabc'' ''0.01'' ''eip155:84532'' ''0xRecipient'' sig),
      warm)"
  by (subst GET_validated [where rcpt = "''0xRecipient''" and nets = "[''eip155:84532'']"
        and calls = "[GetSupported]" and ?st1.0 = warm
        and network = "''eip155:84532''"])
     (simp_all add: submission_def missing_def amount_ok network_ok sample_networks
        sample_env_answers split: prod.splits)

lemma not_json_decodes: "JSON_parse (base64_decode ''aGVsbG8='') = None"
  by code_simp

lemma not_json_run:
  "handlePaymentSubmission sample_env ''0xabc'' ''0.01'' ''eip155:84532'' ''0xRecipient'' ''aGVsbG8='' =
     (caught (syntaxErrorMessage sample_env (base64_decode ''aGVsbG8='')), [])"
  by (simp add: handlePaymentSubmission_def not_json_decodes Let_def)

text \<open>
  The header \<open>aGVsbG8=\<close> is base64 of \<open>hello\<close>, which is no JSON text: the route
  answers 500, not 400.
\<close>

theorem undecodable_signature_is_500:
  "GET sample_env cold (submission ''aGVsbG8='') =
     (Responded (caught ''Unexpected token''),
      [ResolveRecipient ''0xabc'', GetSupported],
      warm) \<and>
   status (caught ''Unexpected token'') = 500 \<and>
   JSON_parse (base64_decode ''aGVsbG8='') = None"
  by (simp add: GET_sample_submission not_json_run caught_parts not_json_decodes sample_env_answers)

text \<open>
  C4, as the code has it. A header whose decoded value lacks \<open>accepted\<close> or \<open>payload\<close>
  (or carries a falsy one) is answered 400 before any facilitator call. A header whose
  text is no JSON, or is the JSON \<open>null\<close>, throws inside the \<open>try\<close> and is answered by
  the \<open>catch\<close> block: 500, with an error-shaped body.
\<close>

theorem malformed_submission_status:
  "handlePaymentSubmission e to amount network rcpt sig = (r, calls) \<Longrightarrow>
   (JSON_parse (base64_decode sig) = None \<longrightarrow>
      r = caught (syntaxErrorMessage e (base64_decode sig)) \<and> status r = 500 \<and> calls = []) \<and>
   (JSON_parse (base64_decode sig) = Some JNull \<longrightarrow>
      r = caught (typeErrorMessage e) \<and> status r = 500 \<and> calls = []) \<and>
   (\<forall>P. JSON_parse (base64_decode sig) = Some P \<and> P \<noteq> JNull \<and>
        (\<not> truthy_opt (get_property P ''accepted'') \<or> \<not> truthy_opt (get_property P ''payload'')) \<longrightarrow>
      r = malformed \<and> status r = 400 \<and> calls = [])"
  unfolding handlePaymentSubmission_def Let_def
  by (auto simp: caught_parts malformed_parts split: json.splits)

theorem malformed_submission_witness:
  "status (fst (handlePaymentSubmission sample_env ''0xabc'' ''0.01'' ''eip155:84532''
                  ''0xRecipient'' ''e30='')) = 400 \<and>
   status (fst (handlePaymentSubmission sample_env ''0xabc'' ''0.01'' ''eip155:84532''
                  ''0xRecipient'' ''MS41'')) = 400 \<and>
   status (fst (handlePaymentSubmission sample_env ''0xabc'' ''0.01'' ''eip155:84532''
                  ''0xRecipient'' ''eyJ4IjoxLjV9'')) = 400 \<and>
   status (fst (handlePaymentSubmission sample_env ''0xabc'' ''0.01'' ''eip155:84532''
                  ''0xRecipient'' ''aGVsbG8='')) = 500"
proof -
  have "JSON_parse (base64_decode ''e30='') = Some (JObject []) \<and> JObject [] \<noteq> JNull \<and>
        (\<not> truthy_opt (get_property (JObject []) ''accepted'') \<or>
         \<not> truthy_opt (get_property (JObject []) ''payload''))"
    by (simp add: empty_object_decodes truthy_opt_def)
  with malformed_submission_status [OF empty_object_run]
  have "status malformed = 400" by blast
  moreover
  have "JSON_parse (base64_decode ''MS41'') = Some (JDecimal 15 1) \<and> JDecimal 15 1 \<noteq> JNull \<and>
        (\<not> truthy_opt (get_property (JDecimal 15 1) ''accepted'') \<or>
         \<not> truthy_opt (get_property (JDecimal 15 1) ''payload''))"
    by (simp add: decimal_decodes truthy_opt_def)
  with malformed_submission_status [OF decimal_run(1)]
  have "status malformed = 400" by blast
  moreover
  have "JSON_parse (base64_decode ''eyJ4IjoxLjV9'') = Some (JObject [(''x'', JDecimal 15 1)]) \<and>
        JObject [(''x'', JDecimal 15 1)] \<noteq> JNull \<and>
        (\<not> truthy_opt (get_property (JObject [(''x'', JDecimal 15 1)]) ''accepted'') \<or>
         \<not> truthy_opt (get_property (JObject [(''x'', JDecimal 15 1)]) ''payload''))"
    by (simp add: decimal_decodes truthy_opt_def)
  with malformed_submission_status [OF decimal_run(2)]
  have "status malformed = 400" by blast
  moreover
  from malformed_submission_status [OF not_json_run] not_json_decodes
  have "status (caught (syntaxErrorMessage sample_env (base64_decode ''aGVsbG8=''))) = 500"
    by blast
  ultimately show ?thesis by (simp add: empty_object_run decimal_run not_json_run)
qed

lemma rejected_examples:
  "\<not> rejected_amount (parseFloat ''5abc'')"
  "\<not> rejected_amount (parseFloat ''1.00xyz'')"
  "\<not> rejected_amount (parseFloat ''Infinity'')"
  by code_simp+

lemma not_numerals:
  "\<not> decimal_numeral ''5abc''" "\<not> decimal_numeral ''1.00xyz''" "\<not> decimal_numeral ''Infinity''"
  by code_simp+

lemma sample_requirements:
  "paymentRequirements_of sample_env args = [normalize_exact sample_exact]"
  by (simp add: paymentRequirements_of_def fulfilled_def sample_env_def)

lemma GET_sample_challenge:
  "amount \<noteq> [] \<Longrightarrow> \<not> rejected_amount (parseFloat amount) \<Longrightarrow>
   GET sample_env cold (challenge_request amount (Some ''eip155:84532'')) =
     (Responded (challenge [normalize_exact sample_exact] ''Payment required'' ''0xabc'' amount ''eip155:84532''),
      [ResolveRecipient ''0xabc'', GetSupported,
       BuildPaymentRequirements \<lparr>arg_network = ''eip155:84532'', arg_price = CHR ''$'' # amount, arg_payTo = ''0xRecipient''\<rparr>,
       BuildAcceptsResolved \<lparr>arg_network = ''eip155:84532'', arg_price = CHR ''$'' # amount, arg_payTo = ''0xRecipient''\<rparr>],
      warm)"
  by (subst GET_validated [where rcpt = "''0xRecipient''" and nets = "[''eip155:84532'']"
        and calls = "[GetSupported]" and ?st1.0 = warm and network = "''eip155:84532''"])
     (simp_all add: challenge_request_def missing_def network_ok sample_networks
        sample_env_answers handle402Response_eq sample_requirements Let_def)

text \<open>
  C10. The amounts \<open>5abc\<close>, \<open>1.00xyz\<close> and \<open>Infinity\<close> are no decimal numerals, yet
  \<open>parseFloat\<close> reads a positive number from each, the amount check lets them pass, and
  the route goes on to resolve the recipient, look up the networks and ask both builders
  for a quote of that price text; it answers 402, not 400.
\<close>

theorem trailing_garbage_amount_accepted:
  "\<not> decimal_numeral ''5abc'' \<and> \<not> decimal_numeral ''1.00xyz'' \<and> \<not> decimal_numeral ''Infinity'' \<and>
   parseFloat ''5abc'' = Decimal False 5 0 \<and>
   parseFloat ''1.00xyz'' = Decimal False 100 (- 2) \<and>
   parseFloat ''Infinity'' = Infinity False \<and>
   GET sample_env cold (challenge_request ''5abc'' (Some ''eip155:84532'')) =
     (Responded (challenge [normalize_exact sample_exact] ''Payment required'' ''0xabc'' ''5abc'' ''eip155:84532''),
      [ResolveRecipient ''0xabc'', GetSupported,
       BuildPaymentRequirements \<lparr>arg_network = ''eip155:84532'', arg_price = ''$5abc'', arg_payTo = ''0xRecipient''\<rparr>,
       BuildAcceptsResolved \<lparr>arg_network = ''eip155:84532'', arg_price = ''$5abc'', arg_payTo = ''0xRecipient''\<rparr>],
      warm) \<and>
   GET sample_env cold (challenge_request ''1.00xyz'' (Some ''eip155:84532'')) =
     (Responded (challenge [normalize_exact sample_exact] ''Payment required'' ''0xabc'' ''1.00xyz'' ''eip155:84532''),
      [ResolveRecipient ''0xabc'', GetSupported,
       BuildPaymentRequirements \<lparr>arg_network = ''eip155:84532'', arg_price = ''$1.00xyz'', arg_payTo = ''0xRecipient''\<rparr>,
       BuildAcceptsResolved \<lparr>arg_network = ''eip155:84532'', arg_price = ''$1.00xyz'', arg_payTo = ''0xRecipient''\<rparr>],
      warm) \<and>
   GET sample_env cold (challenge_request ''Infinity'' (Some ''eip155:84532'')) =
     (Responded (challenge [normalize_exact sample_exact] ''Payment required'' ''0xabc'' ''Infinity'' ''eip155:84532''),
      [ResolveRecipient ''0xabc'', GetSupported,
       BuildPaymentRequirements \<lparr>arg_network = ''eip155:84532'', arg_price = ''$Infinity'', arg_payTo = ''0xRecipient''\<rparr>,
       BuildAcceptsResolved \<lparr>arg_network = ''eip155:84532'', arg_price = ''$Infinity'', arg_payTo = ''0xRecipient''\<rparr>],
      warm) \<and>
   status (challenge [normalize_exact sample_exact] ''Payment required'' ''0xabc'' ''5abc'' ''eip155:84532'') = 402"
proof -
  have p: "parseFloat ''5abc'' = Decimal False 5 0" "parseFloat ''1.00xyz'' = Decimal False 100 (- 2)"
    "parseFloat ''Infinity'' = Infinity False"
    by code_simp+
  have g: "GET sample_env cold (challenge_request ''5abc'' (Some ''eip155:84532'')) =
     (Responded (challenge [normalize_exact sample_exact] ''Payment required'' ''0xabc'' ''5abc'' ''eip155:84532''),
      [ResolveRecipient ''0xabc'', GetSupported,
       BuildPaymentRequirements \<lparr>arg_network = ''eip155:84532'', arg_price = ''$5abc'', arg_payTo = ''0xRecipient''\<rparr>,
       BuildAcceptsResolved \<lparr>arg_network = ''eip155:84532'', arg_price = ''$5abc'', arg_payTo = ''0xRecipient''\<rparr>],
      warm)"
    "GET sample_env cold (challenge_request ''1.00xyz'' (Some ''eip155:84532'')) =
     (Responded (challenge [normalize_exact sample_exact] ''Payment required'' ''0xabc'' ''1.00xyz'' ''eip155:84532''),
      [ResolveRecipient ''0xabc'', GetSupported,
       BuildPaymentRequirements \<lparr>arg_network = ''eip155:84532'', arg_price = ''$1.00xyz'', arg_payTo = ''0xRecipient''\<rparr>,
       BuildAcceptsResolved \<lparr>arg_network = ''eip155:84532'', arg_price = ''$1.00xyz'', arg_payTo = ''0xRecipient''\<rparr>],
      warm)"
    "GET sample_env cold (challenge_request ''Infinity'' (Some ''eip155:84532'')) =
     (Responded (challenge [normalize_exact sample_exact] ''Payment required'' ''0xabc'' ''Infinity'' ''eip155:84532''),
      [ResolveRecipient ''0xabc'', GetSupported,
       BuildPaymentRequirements \<lparr>arg_network = ''eip155:84532'', arg_price = ''$Infinity'', arg_payTo = ''0xRecipient''\<rparr>,
       BuildAcceptsResolved \<lparr>arg_network = ''eip155:84532'', arg_price = ''$Infinity'', arg_payTo = ''0xRecipient''\<rparr>],
      warm)"
    by (simp_all add: GET_sample_challenge rejected_examples)
  show ?thesis
    using not_numerals p g by (simp add: challenge_parts)
qed

lemma bad_request_parts:
  "status (bad_request m) = 400"
  "body (bad_request m) = JObject [(''error'', JString m)]"
  by (simp_all add: bad_request_def NextResponse_json_def)

text \<open>
  With nothing cached, a request for the malformed network \<open>mainnet\<close> is answered 400
  only after the recipient has been resolved and the facilitator has been asked for its
  networks.
\<close>

theorem network_error_after_lookups:
  "GET sample_env cold (challenge_request ''0.01'' (Some ''mainnet'')) =
     (Responded (bad_request ''Invalid network format. Use eip155:CHAINID''),
      [ResolveRecipient ''0xabc'', GetSupported], warm) \<and>
   status (bad_request ''Invalid network format. Use eip155:CHAINID'') = 400"
proof -
  have "\<not> network_format_ok ''mainnet''" by code_simp
  then have "GET sample_env cold (challenge_request ''0.01'' (Some ''mainnet'')) =
     (Responded (bad_request ''Invalid network format. Use eip155:CHAINID''),
      [ResolveRecipient ''0xabc'', GetSupported], warm)"
    by (subst GET_validated [where rcpt = "''0xRecipient''" and nets = "[''eip155:84532'']"
        and calls = "[GetSupported]" and ?st1.0 = warm and network = "''mainnet''"])
     (simp_all add: challenge_request_def missing_def amount_ok sample_networks sample_env_answers)
  then show ?thesis by (simp add: bad_request_parts)
qed

text \<open>
  C6, as the code has it. A request without \<open>to\<close> or \<open>amount\<close>, or with an amount that
  is not a positive number, is answered 400 with a message naming the parameter, and no
  call has been made. The network is checked after the recipient has been resolved and
  the supported networks have been looked up (a facilitator fetch unless cached): a
  malformed or unsupported network is then answered 400 with its message, and nothing
  else has been called.
\<close>

theorem validation_errors:
  "(missing (param_to req) \<or> missing (param_amount req) \<longrightarrow>
      GET e st req =
        (Responded (bad_request ''Missing required parameters: to, amount''), [], st)) \<and>
   (\<not> missing (param_to req) \<and> \<not> missing (param_amount req) \<and>
    rejected_amount (parseFloat (the (param_amount req))) \<longrightarrow>
      GET e st req =
        (Responded (bad_request ''Invalid amount. Must be a positive number.''), [], st)) \<and>
   (\<forall>rcpt nets calls st1 network.
      \<not> missing (param_to req) \<and> \<not> missing (param_amount req) \<and>
      \<not> rejected_amount (parseFloat (the (param_amount req))) \<and>
      resolveRecipient e (the (param_to req)) = Some rcpt \<and> rcpt \<noteq> [] \<and>
      getSupportedNetworks e st = (Inr nets, calls, st1) \<and> nets \<noteq> [] \<and>
      network = (if missing (param_network req) then hd nets else the (param_network req)) \<and>
      (\<not> network_format_ok network \<or> network \<notin> set nets) \<longrightarrow>
      (\<exists>r. GET e st req = (Responded r, ResolveRecipient (the (param_to req)) # calls, st1) \<and>
           status r = 400 \<and>
           calls = (if supportedNetworks_cache st = None then [GetSupported] else []) \<and>
           get_property (body r) ''error'' =
             Some (JString (if \<not> network_format_ok network
                            then ''Invalid network format. Use eip155:CHAINID''
                            else ''Network '' @ network @ '' not supported''))))"
proof (intro conjI allI impI)
  assume "missing (param_to req) \<or> missing (param_amount req)"
  then show "GET e st req =
        (Responded (bad_request ''Missing required parameters: to, amount''), [], st)"
    by (rule GET_missing)
next
  assume "\<not> missing (param_to req) \<and> \<not> missing (param_amount req) \<and>
    rejected_amount (parseFloat (the (param_amount req)))"
  then show "GET e st req =
        (Responded (bad_request ''Invalid amount. Must be a positive number.''), [], st)"
    by (simp add: GET_invalid_amount)
next
  fix rcpt nets calls st1 network
  assume h: "\<not> missing (param_to req) \<and> \<not> missing (param_amount req) \<and>
      \<not> rejected_amount (parseFloat (the (param_amount req))) \<and>
      resolveRecipient e (the (param_to req)) = Some rcpt \<and> rcpt \<noteq> [] \<and>
      getSupportedNetworks e st = (Inr nets, calls, st1) \<and> nets \<noteq> [] \<and>
      network = (if missing (param_network req) then hd nets else the (param_network req)) \<and>
      (\<not> network_format_ok network \<or> network \<notin> set nets)"
  then have g: "GET e st req =
     (if \<not> network_format_ok network then
        (Responded (bad_request ''Invalid network format. Use eip155:CHAINID''),
         ResolveRecipient (the (param_to req)) # calls, st1)
      else
        (Responded
           (NextResponse_json
              (JObject [(''error'', JString (''Network '' @ network @ '' not supported'')),
                        (''supportedNetworks'', JArray (map JString nets))])
              400),
         ResolveRecipient (the (param_to req)) # calls, st1))"
    by (subst GET_validated [where rcpt = rcpt and nets = nets and calls = calls
          and ?st1.0 = st1 and network = network]) auto
  from h have c: "calls = (if supportedNetworks_cache st = None then [GetSupported] else [])"
    using getSupportedNetworks_calls [of e st "Inr nets" calls st1] by auto
  show "\<exists>r. GET e st req = (Responded r, ResolveRecipient (the (param_to req)) # calls, st1) \<and>
           status r = 400 \<and>
           calls = (if supportedNetworks_cache st = None then [GetSupported] else []) \<and>
           get_property (body r) ''error'' =
             Some (JString (if \<not> network_format_ok network
                            then ''Invalid network format. Use eip155:CHAINID''
                            else ''Network '' @ network @ '' not supported''))"
    using g c by (auto simp: bad_request_parts NextResponse_json_def)
qed

theorem validation_errors_witness:
  "GET sample_env cold (challenge_request [] None) =
     (Responded (bad_request ''Missing required parameters: to, amount''), [], cold) \<and>
   GET sample_env cold (challenge_request ''-5'' None) =
     (Responded (bad_request ''Invalid amount. Must be a positive number.''), [], cold) \<and>
   (\<exists>r. GET sample_env cold (challenge_request ''0.01'' (Some ''eip155:999999'')) =
          (Responded r, [ResolveRecipient ''0xabc'', GetSupported], warm) \<and>
        status r = 400 \<and>
        get_property (body r) ''error'' = Some (JString ''Network eip155:999999 not supported''))"
proof -
  have m: "missing (param_to (challenge_request [] None)) \<or> missing (param_amount (challenge_request [] None))"
    by (simp add: challenge_request_def missing_def)
  have "rejected_amount (parseFloat ''-5'')" by code_simp
  then have a: "\<not> missing (param_to (challenge_request ''-5'' None)) \<and>
        \<not> missing (param_amount (challenge_request ''-5'' None)) \<and>
        rejected_amount (parseFloat (the (param_amount (challenge_request ''-5'' None))))"
    by (simp add: challenge_request_def missing_def)
  have f: "network_format_ok ''eip155:999999''" by code_simp
  have n: "\<not> missing (param_to (challenge_request ''0.01'' (Some ''eip155:999999''))) \<and>
      \<not> missing (param_amount (challenge_request ''0.01'' (Some ''eip155:999999''))) \<and>
      \<not> rejected_amount (parseFloat (the (param_amount (challenge_request ''0.01'' (Some ''eip155:999999''))))) \<and>
      resolveRecipient sample_env (the (param_to (challenge_request ''0.01'' (Some ''eip155:999999'')))) = Some ''0xRecipient'' \<and>
      ''0xRecipient'' \<noteq> [] \<and>
      getSupportedNetworks sample_env cold = (Inr [''eip155:84532''], [GetSupported], warm) \<and>
      [''eip155:84532''] \<noteq> [] \<and>
      ''eip155:999999'' =
        (if missing (param_network (challenge_request ''0.01'' (Some ''eip155:999999'')))
         then hd [''eip155:84532'']
         else the (param_network (challenge_request ''0.01'' (Some ''eip155:999999'')))) \<and>
      (\<not> network_format_ok ''eip155:999999'' \<or> ''eip155:999999'' \<notin> set [''eip155:84532''])"
    by (simp add: challenge_request_def missing_def amount_ok sample_networks sample_env_answers)
  note v = validation_errors [of _ sample_env cold]
  from v [of "challenge_request [] None"] m
  have 1: "GET sample_env cold (challenge_request [] None) =
     (Responded (bad_request ''Missing required parameters: to, amount''), [], cold)"
    by blast
  from v [of "challenge_request ''-5'' None"] a
  have 2: "GET sample_env cold (challenge_request ''-5'' None) =
     (Responded (bad_request ''Invalid amount. Must be a positive number.''), [], cold)"
    by blast
  from v [of "challenge_request ''0.01'' (Some ''eip155:999999'')"] n
  have "\<exists>r. GET sample_env cold (challenge_request ''0.01'' (Some ''eip155:999999'')) =
          (Responded r, ResolveRecipient (the (param_to (challenge_request ''0.01'' (Some ''eip155:999999'')))) # [GetSupported], warm) \<and>
        status r = 400 \<and>
        get_property (body r) ''error'' =
          Some (JString (if \<not> network_format_ok ''eip155:999999''
                            then ''Invalid network format. Use eip155:CHAINID''
                            else ''Network '' @ ''eip155:999999'' @ '' not supported''))"
    by blast
  then have 3: "\<exists>r. GET sample_env cold (challenge_request ''0.01'' (Some ''eip155:999999'')) =
          (Responded r, [ResolveRecipient ''0xabc'', GetSupported], warm) \<and>
        status r = 400 \<and>
        get_property (body r) ''error'' = Some (JString ''Network eip155:999999 not supported'')"
    using f by (simp add: challenge_request_def)
  from 1 2 3 show ?thesis by blast
qed

section \<open>Challenges, end to end\<close>

text \<open>The JSON of a normalized requirement, in terms of what the builder returned.\<close>

lemma requirement_entries:
  "requirement_json (normalize_exact q) =
     JObject [(''scheme'', JString (req_scheme q)), (''network'', JString (req_network q)),
              (''asset'', JString (case req_asset q of None \<Rightarrow> [] | Some a \<Rightarrow> a)),
              (''amount'', JString (req_amount q)), (''payTo'', JString (req_payTo q)),
              (''maxTimeoutSeconds'',
                 JNumber (case req_maxTimeoutSeconds q of
                            None \<Rightarrow> 600 | Some n \<Rightarrow> if n = 0 then 600 else n)),
              (''extra'',
                 case req_extra q of
                   None \<Rightarrow> JObject [] | Some x \<Rightarrow> if truthy x then x else JObject [])]"
  "requirement_json (normalize_escrow a) =
     (case accept_price a of
        PriceObj p \<Rightarrow>
          JObject [(''scheme'', JString (accept_scheme a)), (''network'', JString (accept_network a)),
                   (''asset'', JString (price_asset p)), (''amount'', JString (price_amount p)),
                   (''payTo'', JString (accept_payTo a)),
                   (''maxTimeoutSeconds'',
                      JNumber (case accept_maxTimeoutSeconds a of
                                 None \<Rightarrow> 600 | Some n \<Rightarrow> if n = 0 then 600 else n)),
                   (''extra'',
                      case price_extra p of
                        None \<Rightarrow> JObject [] | Some x \<Rightarrow> if truthy x then x else JObject [])]
      | PricePrimitive s \<Rightarrow>
          JObject [(''scheme'', JString (accept_scheme a)), (''network'', JString (accept_network a)),
                   (''asset'', JString []), (''amount'', JString s),
                   (''payTo'', JString (accept_payTo a)),
                   (''maxTimeoutSeconds'',
                      JNumber (case accept_maxTimeoutSeconds a of
                                 None \<Rightarrow> 600 | Some n \<Rightarrow> if n = 0 then 600 else n)),
                   (''extra'', JObject [])])"
  by (simp_all add: requirement_json_def normalize_exact_def normalize_escrow_def or_default_def
      timeout_or_600_def extra_or_empty_def truthy_opt_def Let_def
      split: option.splits price.splits)

lemma handle402Response_cases:
  assumes "handle402Response e st to amount network rcpt = (r, calls, st')"
    and "args = \<lparr>arg_network = network, arg_price = CHR ''$'' # amount, arg_payTo = rcpt\<rparr>"
  shows "calls = [BuildPaymentRequirements args, BuildAcceptsResolved args]" "st' = st"
    "paymentRequirements_of e args = [] \<Longrightarrow> r = no_options"
    "paymentRequirements_of e args \<noteq> [] \<Longrightarrow>
       r = challenge (paymentRequirements_of e args) ''Payment required'' to amount network"
  using assms by (auto simp add: handle402Response_eq Let_def)

lemma requirements_entries:
  "map requirement_json (paymentRequirements_of e args) =
     (case buildPaymentRequirements e args of
        Inl m \<Rightarrow> [] | Inr reqs \<Rightarrow> map (\<lambda>q. requirement_json (normalize_exact q)) reqs) @
     (case buildAcceptsResolved e args of
        Inl m \<Rightarrow> [] | Inr accepts \<Rightarrow> map (\<lambda>a. requirement_json (normalize_escrow a)) accepts)"
  by (simp add: paymentRequirements_of_def fulfilled_def o_def split: sum.splits)


text \<open>
  The answer to a challenge in terms of the two builders' replies, for any description
  \<open>exact_entry\<close>, \<open>escrow_entry\<close> of the JSON of a normalized requirement.
\<close>

lemma challenge_general:
  assumes run: "handle402Response e st to amount network rcpt = (r, calls, st')"
    and args: "args = \<lparr>arg_network = network, arg_price = CHR ''$'' # amount, arg_payTo = rcpt\<rparr>"
    and EX: "\<And>q. requirement_json (normalize_exact q) = exact_entry q"
    and ES: "\<And>a. requirement_json (normalize_escrow a) = escrow_entry a"
    and L: "L = (case buildPaymentRequirements e args of Inl m \<Rightarrow> [] | Inr reqs \<Rightarrow> map exact_entry reqs) @
                (case buildAcceptsResolved e args of Inl m \<Rightarrow> [] | Inr accepts \<Rightarrow> map escrow_entry accepts)"
  shows "calls = [BuildPaymentRequirements args, BuildAcceptsResolved args]"
    and "st' = st"
    and "L = [] \<Longrightarrow> r = no_options"
    and "L \<noteq> [] \<Longrightarrow> status r = 402"
    and "L \<noteq> [] \<Longrightarrow>
           headers_get r ''PAYMENT-REQUIRED'' = Some (base64_encode (JSON_stringify (JArray L)))"
    and "L \<noteq> [] \<Longrightarrow> headers_get r ''Access-Control-Expose-Headers'' = Some EXPOSED"
proof -
  note c = handle402Response_cases [OF run args]
  have m: "map requirement_json (paymentRequirements_of e args) = L"
    unfolding L requirements_entries EX ES ..
  then have n: "paymentRequirements_of e args = [] \<longleftrightarrow> L = []" by auto
  show "calls = [BuildPaymentRequirements args, BuildAcceptsResolved args]" by (rule c(1))
  show "st' = st" by (rule c(2))
  show "L = [] \<Longrightarrow> r = no_options" using c(3) n by simp
  assume "L \<noteq> []"
  then have r: "r = challenge (paymentRequirements_of e args) ''Payment required'' to amount network"
    using c(4) n by simp
  show "status r = 402" unfolding r by (rule challenge_parts(1))
  show "headers_get r ''PAYMENT-REQUIRED'' = Some (base64_encode (JSON_stringify (JArray L)))"
    unfolding r challenge_parts(2) m ..
  show "headers_get r ''Access-Control-Expose-Headers'' = Some EXPOSED"
    unfolding r by (rule challenge_parts(3))
qed

lemma containment_general:
  assumes run: "handle402Response e st to amount network rcpt = (r, calls, st')"
    and args: "args = \<lparr>arg_network = network, arg_price = CHR ''$'' # amount, arg_payTo = rcpt\<rparr>"
    and EX: "\<And>q. requirement_json (normalize_exact q) = exact_entry q"
    and ES: "\<And>a. requirement_json (normalize_escrow a) = escrow_entry a"
    and L: "L = (case buildPaymentRequirements e args of Inl m \<Rightarrow> [] | Inr reqs \<Rightarrow> map exact_entry reqs) @
                (case buildAcceptsResolved e args of Inl m \<Rightarrow> [] | Inr accepts \<Rightarrow> map escrow_entry accepts)"
  shows "calls = [BuildPaymentRequirements args, BuildAcceptsResolved args] \<and>
       (\<forall>m accepts.
          buildPaymentRequirements e args = Inl m \<and> buildAcceptsResolved e args = Inr accepts \<and>
          accepts \<noteq> [] \<longrightarrow>
          status r = 402 \<and>
          headers_get r ''PAYMENT-REQUIRED'' =
            Some (base64_encode (JSON_stringify (JArray (map escrow_entry accepts))))) \<and>
       (\<forall>m reqs.
          buildAcceptsResolved e args = Inl m \<and> buildPaymentRequirements e args = Inr reqs \<and>
          reqs \<noteq> [] \<longrightarrow>
          status r = 402 \<and>
          headers_get r ''PAYMENT-REQUIRED'' =
            Some (base64_encode (JSON_stringify (JArray (map exact_entry reqs))))) \<and>
       (status r = 500 \<longleftrightarrow> L = []) \<and>
       (L = [] \<longrightarrow> body r = JObject [(''error'', JString ''No payment options available'')]) \<and>
       (status r = 402 \<or> status r = 500) \<and>
       (status r = 402 \<longrightarrow>
          L \<noteq> [] \<and>
          headers_get r ''PAYMENT-REQUIRED'' = Some (base64_encode (JSON_stringify (JArray L))) \<and>
          headers_get r ''Access-Control-Expose-Headers'' = Some EXPOSED)"
proof -
  note g = challenge_general [OF run args EX ES L]
  show ?thesis
  proof (cases "L = []")
    case True
    then have r: "r = no_options" by (rule g(3))
    have "\<And>m accepts. buildPaymentRequirements e args = Inl m \<Longrightarrow>
            buildAcceptsResolved e args = Inr accepts \<Longrightarrow> accepts = []"
      using True unfolding L by simp
    moreover have "\<And>m reqs. buildAcceptsResolved e args = Inl m \<Longrightarrow>
            buildPaymentRequirements e args = Inr reqs \<Longrightarrow> reqs = []"
      using True unfolding L by simp
    ultimately show ?thesis using True g(1) by (auto simp: r no_options_parts)
  next
    case False
    note h = g(4-6) [OF False]
    have "\<And>m accepts. buildPaymentRequirements e args = Inl m \<Longrightarrow>
            buildAcceptsResolved e args = Inr accepts \<Longrightarrow> L = map escrow_entry accepts"
      unfolding L by simp
    moreover have "\<And>m reqs. buildAcceptsResolved e args = Inl m \<Longrightarrow>
            buildPaymentRequirements e args = Inr reqs \<Longrightarrow> L = map exact_entry reqs"
      unfolding L by simp
    ultimately show ?thesis using False g(1) h by auto
  qed
qed

text \<open>
  C3, as the code has it. Both builders are called for every challenge, whatever the
  other's outcome. When one of them fails and the other yields at least one requirement,
  the answer is a 402 whose \<open>PAYMENT-REQUIRED\<close> header carries the other's requirements,
  normalized: scheme, network, amount and payTo as returned, an absent asset as the
  empty string, an absent or zero timeout as 600, an absent or falsy extra as \<open>{}\<close>, and
  a price that is no object as its text with the empty asset. The answer is the 500
  "No payment options available" exactly when the combined normalized list is empty,
  which it also is when one builder fails and the other returns no requirement; a 402
  never carries an empty list.
\<close>

theorem partial_quote_failure_is_contained:
  "handle402Response e st to amount network rcpt = (r, calls, st') \<Longrightarrow>
   args = \<lparr>arg_network = network, arg_price = CHR ''$'' # amount, arg_payTo = rcpt\<rparr> \<Longrightarrow>
   (let exact_entry =
          (\<lambda>q. JObject
                [(''scheme'', JString (req_scheme q)), (''network'', JString (req_network q)),
                 (''asset'', JString (case req_asset q of None \<Rightarrow> [] | Some a \<Rightarrow> a)),
                 (''amount'', JString (req_amount q)), (''payTo'', JString (req_payTo q)),
                 (''maxTimeoutSeconds'',
                    JNumber (case req_maxTimeoutSeconds q of
                               None \<Rightarrow> 600 | Some n \<Rightarrow> if n = 0 then 600 else n)),
                 (''extra'',
                    case req_extra q of
                      None \<Rightarrow> JObject [] | Some x \<Rightarrow> if truthy x then x else JObject [])]);
        escrow_entry =
          (\<lambda>a. case accept_price a of
                PriceObj p \<Rightarrow>
                  JObject
                    [(''scheme'', JString (accept_scheme a)), (''network'', JString (accept_network a)),
                     (''asset'', JString (price_asset p)), (''amount'', JString (price_amount p)),
                     (''payTo'', JString (accept_payTo a)),
                     (''maxTimeoutSeconds'',
                        JNumber (case accept_maxTimeoutSeconds a of
                                   None \<Rightarrow> 600 | Some n \<Rightarrow> if n = 0 then 600 else n)),
                     (''extra'',
                        case price_extra p of
                          None \<Rightarrow> JObject [] | Some x \<Rightarrow> if truthy x then x else JObject [])]
              | PricePrimitive s \<Rightarrow>
                  JObject
                    [(''scheme'', JString (accept_scheme a)), (''network'', JString (accept_network a)),
                     (''asset'', JString []), (''amount'', JString s),
                     (''payTo'', JString (accept_payTo a)),
                     (''maxTimeoutSeconds'',
                        JNumber (case accept_maxTimeoutSeconds a of
                                   None \<Rightarrow> 600 | Some n \<Rightarrow> if n = 0 then 600 else n)),
                     (''extra'', JObject [])]);
        combined =
          (case buildPaymentRequirements e args of
             Inl m \<Rightarrow> [] | Inr reqs \<Rightarrow> map exact_entry reqs) @
          (case buildAcceptsResolved e args of
             Inl m \<Rightarrow> [] | Inr accepts \<Rightarrow> map escrow_entry accepts)
    in calls = [BuildPaymentRequirements args, BuildAcceptsResolved args] \<and>
       (\<forall>m accepts.
          buildPaymentRequirements e args = Inl m \<and> buildAcceptsResolved e args = Inr accepts \<and>
          accepts \<noteq> [] \<longrightarrow>
          status r = 402 \<and>
          headers_get r ''PAYMENT-REQUIRED'' =
            Some (base64_encode (JSON_stringify (JArray (map escrow_entry accepts))))) \<and>
       (\<forall>m reqs.
          buildAcceptsResolved e args = Inl m \<and> buildPaymentRequirements e args = Inr reqs \<and>
          reqs \<noteq> [] \<longrightarrow>
          status r = 402 \<and>
          headers_get r ''PAYMENT-REQUIRED'' =
            Some (base64_encode (JSON_stringify (JArray (map exact_entry reqs))))) \<and>
       (status r = 500 \<longleftrightarrow> combined = []) \<and>
       (combined = [] \<longrightarrow> body r = JObject [(''error'', JString ''No payment options available'')]) \<and>
       (status r = 402 \<or> status r = 500) \<and>
       (status r = 402 \<longrightarrow>
          combined \<noteq> [] \<and>
          headers_get r ''PAYMENT-REQUIRED'' =
            Some (base64_encode (JSON_stringify (JArray combined))) \<and>
          headers_get r ''Access-Control-Expose-Headers'' = Some EXPOSED))"
proof -
  assume run: "handle402Response e st to amount network rcpt = (r, calls, st')"
    and args: "args = \<lparr>arg_network = network, arg_price = CHR ''$'' # amount, arg_payTo = rcpt\<rparr>"
  show ?thesis
    unfolding Let_def by (rule containment_general [OF run args requirement_entries refl])
qed


lemma sample_builders:
  "buildPaymentRequirements sample_env args = Inr [sample_exact]"
  "buildAcceptsResolved sample_env args = Inl ''aggregator unavailable''"
  "buildPaymentRequirements swap_only_env args = Inl ''network not supported''"
  "buildAcceptsResolved swap_only_env args = Inr [sample_accept]"
  "buildPaymentRequirements both_env args = Inr [sample_exact]"
  "buildAcceptsResolved both_env args = Inr [sample_accept, plain_accept]"
  "buildPaymentRequirements empty_swap_env args = Inl ''network not supported''"
  "buildAcceptsResolved empty_swap_env args = Inr []"
  "buildPaymentRequirements failing_env args = Inl ''network not supported''"
  "buildAcceptsResolved failing_env args = Inl ''aggregator unavailable''"
  by (simp_all add: sample_env_def swap_only_env_def both_env_def empty_swap_env_def failing_env_def)

theorem partial_quote_failure_witness:
  "status (fst (handle402Response swap_only_env cold ''0xabc'' ''0.01'' ''eip155:84532'' ''0xRecipient'')) = 402 \<and>
   headers_get (fst (handle402Response swap_only_env cold ''0xabc'' ''0.01'' ''eip155:84532'' ''0xRecipient'')) ''PAYMENT-REQUIRED'' =
     Some (base64_encode (JSON_stringify (JArray
          [JObject [(''scheme'', JString ''escrow''), (''network'', JString ''eip155:84532''),
                   (''asset'', JString ''0x036CbD53''), (''amount'', JString ''10000''),
                   (''payTo'', JString ''0xRecipient''), (''maxTimeoutSeconds'', JNumber 600),
                   (''extra'', JObject [(''escrowContract'', JString ''0xE5'')])]]))) \<and>
   status (fst (handle402Response sample_env cold ''0xabc'' ''0.01'' ''eip155:84532'' ''0xRecipient'')) = 402 \<and>
   headers_get (fst (handle402Response sample_env cold ''0xabc'' ''0.01'' ''eip155:84532'' ''0xRecipient'')) ''PAYMENT-REQUIRED'' =
     Some (base64_encode (JSON_stringify (JArray
          [JObject [(''scheme'', JString ''exact''), (''network'', JString ''eip155:84532''),
                   (''asset'', JString ''0x036CbD53''), (''amount'', JString ''10000''),
                   (''payTo'', JString ''0xRecipient''), (''maxTimeoutSeconds'', JNumber 600),
                   (''extra'', JObject [(''name'', JString ''USDC''), (''version'', JString ''2'')])]]))) \<and>
   status (fst (handle402Response both_env cold ''0xabc'' ''0.01'' ''eip155:84532'' ''0xRecipient'')) = 402 \<and>
   headers_get (fst (handle402Response both_env cold ''0xabc'' ''0.01'' ''eip155:84532'' ''0xRecipient'')) ''PAYMENT-REQUIRED'' =
     Some (base64_encode (JSON_stringify (JArray
          [JObject [(''scheme'', JString ''exact''), (''network'', JString ''eip155:84532''),
                   (''asset'', JString ''0x036CbD53''), (''amount'', JString ''10000''),
                   (''payTo'', JString ''0xRecipient''), (''maxTimeoutSeconds'', JNumber 600),
                   (''extra'', JObject [(''name'', JString ''USDC''), (''version'', JString ''2'')])],
           JObject [(''scheme'', JString ''escrow''), (''network'', JString ''eip155:84532''),
                   (''asset'', JString ''0x036CbD53''), (''amount'', JString ''10000''),
                   (''payTo'', JString ''0xRecipient''), (''maxTimeoutSeconds'', JNumber 600),
                   (''extra'', JObject [(''escrowContract'', JString ''0xE5'')])],
           JObject [(''scheme'', JString ''escrow''), (''network'', JString ''eip155:84532''),
                   (''asset'', JString []), (''amount'', JString ''10000''),
                   (''payTo'', JString ''0xRecipient''), (''maxTimeoutSeconds'', JNumber 300),
                   (''extra'', JObject [])]])))"
proof -
  obtain r1 c1 s1 where run1: "handle402Response swap_only_env cold ''0xabc'' ''0.01'' ''eip155:84532'' ''0xRecipient'' = (r1, c1, s1)"
    by (cases "handle402Response swap_only_env cold ''0xabc'' ''0.01'' ''eip155:84532'' ''0xRecipient''") auto
  obtain r2 c2 s2 where run2: "handle402Response sample_env cold ''0xabc'' ''0.01'' ''eip155:84532'' ''0xRecipient'' = (r2, c2, s2)"
    by (cases "handle402Response sample_env cold ''0xabc'' ''0.01'' ''eip155:84532'' ''0xRecipient''") auto
  obtain r3 c3 s3 where run3: "handle402Response both_env cold ''0xabc'' ''0.01'' ''eip155:84532'' ''0xRecipient'' = (r3, c3, s3)"
    by (cases "handle402Response both_env cold ''0xabc'' ''0.01'' ''eip155:84532'' ''0xRecipient''") auto
  note samples = sample_builders sample_exact_def sample_accept_def plain_accept_def
  have "status r1 = 402 \<and>
        headers_get r1 ''PAYMENT-REQUIRED'' =
          Some (base64_encode (JSON_stringify (JArray
            [JObject [(''scheme'', JString ''escrow''), (''network'', JString ''eip155:84532''),
                   (''asset'', JString ''0x036CbD53''), (''amount'', JString ''10000''),
                   (''payTo'', JString ''0xRecipient''), (''maxTimeoutSeconds'', JNumber 600),
                   (''extra'', JObject [(''escrowContract'', JString ''0xE5'')])]])))"
    using partial_quote_failure_is_contained [OF run1 refl] by (simp add: samples Let_def del: JSON_stringify.simps)
  moreover
  have "status r2 = 402 \<and>
        headers_get r2 ''PAYMENT-REQUIRED'' =
          Some (base64_encode (JSON_stringify (JArray
            [JObject [(''scheme'', JString ''exact''), (''network'', JString ''eip155:84532''),
                   (''asset'', JString ''0x036CbD53''), (''amount'', JString ''10000''),
                   (''payTo'', JString ''0xRecipient''), (''maxTimeoutSeconds'', JNumber 600),
                   (''extra'', JObject [(''name'', JString ''USDC''), (''version'', JString ''2'')])]])))"
    using partial_quote_failure_is_contained [OF run2 refl] by (simp add: samples Let_def del: JSON_stringify.simps)
  moreover
  have "status r3 = 402 \<and>
        headers_get r3 ''PAYMENT-REQUIRED'' =
          Some (base64_encode (JSON_stringify (JArray
            [JObject [(''scheme'', JString ''exact''), (''network'', JString ''eip155:84532''),
                   (''asset'', JString ''0x036CbD53''), (''amount'', JString ''10000''),
                   (''payTo'', JString ''0xRecipient''), (''maxTimeoutSeconds'', JNumber 600),
                   (''extra'', JObject [(''name'', JString ''USDC''), (''version'', JString ''2'')])],
             JObject [(''scheme'', JString ''escrow''), (''network'', JString ''eip155:84532''),
                   (''asset'', JString ''0x036CbD53''), (''amount'', JString ''10000''),
                   (''payTo'', JString ''0xRecipient''), (''maxTimeoutSeconds'', JNumber 600),
                   (''extra'', JObject [(''escrowContract'', JString ''0xE5'')])],
             JObject [(''scheme'', JString ''escrow''), (''network'', JString ''eip155:84532''),
                   (''asset'', JString []), (''amount'', JString ''10000''),
                   (''payTo'', JString ''0xRecipient''), (''maxTimeoutSeconds'', JNumber 300),
                   (''extra'', JObject [])]])))"
    using partial_quote_failure_is_contained [OF run3 refl]
    by (auto simp add: samples Let_def simp del: JSON_stringify.simps)
  ultimately show ?thesis by (simp add: run1 run2 run3)
qed

lemma sample_networks_of:
  assumes "getSupported e = getSupported sample_env"
  shows "getSupportedNetworks e cold = (Inr [''eip155:84532''], [GetSupported], warm)"
    "getSupportedNetworks e warm = (Inr [''eip155:84532''], [], warm)"
  using assms
  by (simp_all add: getSupportedNetworks_def sample_env_def cold_def warm_def add_network_def Let_def)

lemma GET_challenge:
  assumes "resolveRecipient e ''0xabc'' = Some ''0xRecipient''"
    and "getSupportedNetworks e st = (Inr [''eip155:84532''], calls, warm)"
    and "handle402Response e warm ''0xabc'' ''0.01'' ''eip155:84532'' ''0xRecipient'' = (r, calls', st2)"
  shows "GET e st (challenge_request ''0.01'' (Some ''eip155:84532'')) =
           (Responded r, ResolveRecipient ''0xabc'' # calls @ calls', st2)"
  by (subst GET_validated [where rcpt = "''0xRecipient''" and nets = "[''eip155:84532'']"
        and calls = calls and ?st1.0 = warm and network = "''eip155:84532''"])
     (simp_all add: challenge_request_def missing_def amount_ok network_ok assms)

lemma no_quotes_run:
  "handle402Response empty_swap_env warm ''0xabc'' ''0.01'' ''eip155:84532'' ''0xRecipient'' =
     (no_options,
      [BuildPaymentRequirements \<lparr>arg_network = ''eip155:84532'', arg_price = ''$0.01'', arg_payTo = ''0xRecipient''\<rparr>,
       BuildAcceptsResolved \<lparr>arg_network = ''eip155:84532'', arg_price = ''$0.01'', arg_payTo = ''0xRecipient''\<rparr>],
      warm)"
  "handle402Response failing_env warm ''0xabc'' ''0.01'' ''eip155:84532'' ''0xRecipient'' =
     (no_options,
      [BuildPaymentRequirements \<lparr>arg_network = ''eip155:84532'', arg_price = ''$0.01'', arg_payTo = ''0xRecipient''\<rparr>,
       BuildAcceptsResolved \<lparr>arg_network = ''eip155:84532'', arg_price = ''$0.01'', arg_payTo = ''0xRecipient''\<rparr>],
      warm)"
  by (simp_all add: handle402Response_eq paymentRequirements_of_def fulfilled_def sample_builders
      Let_def)

text \<open>
  With the exact quote failing and the swap builder returning no accept, exactly one of
  the two calls has failed, and the answer to the challenge is the 500.
\<close>

theorem one_failure_with_empty_other_is_500:
  "buildPaymentRequirements empty_swap_env \<lparr>arg_network = ''eip155:84532'', arg_price = ''$0.01'', arg_payTo = ''0xRecipient''\<rparr> =
     Inl ''network not supported'' \<and>
   buildAcceptsResolved empty_swap_env \<lparr>arg_network = ''eip155:84532'', arg_price = ''$0.01'', arg_payTo = ''0xRecipient''\<rparr> =
     Inr [] \<and>
   GET empty_swap_env cold (challenge_request ''0.01'' (Some ''eip155:84532'')) =
     (Responded no_options,
      [ResolveRecipient ''0xabc'', GetSupported,
       BuildPaymentRequirements \<lparr>arg_network = ''eip155:84532'', arg_price = ''$0.01'', arg_payTo = ''0xRecipient''\<rparr>,
       BuildAcceptsResolved \<lparr>arg_network = ''eip155:84532'', arg_price = ''$0.01'', arg_payTo = ''0xRecipient''\<rparr>],
      warm) \<and>
   status no_options = 500 \<and>
   body no_options = JObject [(''error'', JString ''No payment options available'')]"
proof -
  have "GET empty_swap_env cold (challenge_request ''0.01'' (Some ''eip155:84532'')) =
     (Responded no_options,
      ResolveRecipient ''0xabc'' # [GetSupported] @
      [BuildPaymentRequirements \<lparr>arg_network = ''eip155:84532'', arg_price = ''$0.01'', arg_payTo = ''0xRecipient''\<rparr>,
       BuildAcceptsResolved \<lparr>arg_network = ''eip155:84532'', arg_price = ''$0.01'', arg_payTo = ''0xRecipient''\<rparr>],
      warm)"
    by (rule GET_challenge [OF _ sample_networks_of(1) no_quotes_run(1)])
       (simp_all add: empty_swap_env_def sample_env_def)
  then show ?thesis by (simp add: sample_builders no_options_parts)
qed


section \<open>The requirements cache\<close>

lemma pass_through_general:
  assumes EX: "\<And>q. requirement_json (normalize_exact q) = exact_entry q"
    and ES: "\<And>a. requirement_json (normalize_escrow a) = escrow_entry a"
    and L1: "L1 = (case buildPaymentRequirements e1 args of Inl m \<Rightarrow> [] | Inr reqs \<Rightarrow> map exact_entry reqs) @
                  (case buildAcceptsResolved e1 args of Inl m \<Rightarrow> [] | Inr accepts \<Rightarrow> map escrow_entry accepts)"
    and L2: "L2 = (case buildPaymentRequirements e2 args of Inl m \<Rightarrow> [] | Inr reqs \<Rightarrow> map exact_entry reqs) @
                  (case buildAcceptsResolved e2 args of Inl m \<Rightarrow> [] | Inr accepts \<Rightarrow> map escrow_entry accepts)"
    and runs: "handle402Response e1 st to amount network rcpt = (r1, c1, s1) \<and>
      handle402Response e2 s1 to amount network rcpt = (r2, c2, s2) \<and>
      args = \<lparr>arg_network = network, arg_price = CHR ''$'' # amount, arg_payTo = rcpt\<rparr>"
  shows "s1 = st \<and> s2 = st \<and>
      c1 = [BuildPaymentRequirements args, BuildAcceptsResolved args] \<and> c2 = c1 \<and>
          (L1 \<noteq> [] \<longrightarrow>
             status r1 = 402 \<and>
             headers_get r1 ''PAYMENT-REQUIRED'' =
               Some (base64_encode (JSON_stringify (JArray (L1))))) \<and>
          (L1 = [] \<longrightarrow>
             status r1 = 500 \<and>
             body r1 = JObject [(''error'', JString ''No payment options available'')]) \<and>
          (L2 \<noteq> [] \<longrightarrow>
             status r2 = 402 \<and>
             headers_get r2 ''PAYMENT-REQUIRED'' =
               Some (base64_encode (JSON_stringify (JArray (L2))))) \<and>
          (L2 = [] \<longrightarrow>
             status r2 = 500 \<and>
             body r2 = JObject [(''error'', JString ''No payment options available'')])"
proof -
  from runs have run1: "handle402Response e1 st to amount network rcpt = (r1, c1, s1)"
    and run2: "handle402Response e2 s1 to amount network rcpt = (r2, c2, s2)"
    and args: "args = \<lparr>arg_network = network, arg_price = CHR ''$'' # amount, arg_payTo = rcpt\<rparr>"
    by simp_all
  note g = challenge_general [OF run1 args EX ES L1]
  note h = challenge_general [OF run2 args EX ES L2]
  have "L1 = [] \<longrightarrow> status r1 = 500 \<and>
          body r1 = JObject [(''error'', JString ''No payment options available'')]"
    using g(3) by (simp add: no_options_parts)
  moreover have "L2 = [] \<longrightarrow> status r2 = 500 \<and>
          body r2 = JObject [(''error'', JString ''No payment options available'')]"
    using h(3) by (simp add: no_options_parts)
  ultimately show ?thesis using g(1,2,4,5) h(1,2,4,5) by simp
qed

text \<open>
  C8, as the code has it. The cache never answers and never stores:
  \<open>getCachedRequirements\<close> is \<open>null\<close> for every key and \<open>cacheRequirements\<close> leaves the
  state as it was, so the handler equals the handler without cache calls and never gives
  the answer of its cache-hit branch ("Payment required (cached)"). Two consecutive
  challenges with the same parameters therefore both call the two builders and leave the
  state unchanged; each answers 402 with the normalized requirements its own builders
  returned when there is at least one, and 500 "No payment options available" when
  there is none.
\<close>

theorem requirements_cache_is_pass_through:
  "getCachedRequirements st key = None \<and>
   cacheRequirements st key reqs = st \<and>
   handle402Response e st to amount network rcpt =
     handle402Response_uncached e st to amount network rcpt \<and>
   get_property (body (fst (handle402Response e st to amount network rcpt))) ''message'' \<noteq>
     Some (JString ''Payment required (cached)'') \<and>
   (\<forall>r1 c1 s1 r2 c2 s2 args.
      handle402Response e1 st to amount network rcpt = (r1, c1, s1) \<and>
      handle402Response e2 s1 to amount network rcpt = (r2, c2, s2) \<and>
      args = \<lparr>arg_network = network, arg_price = CHR ''$'' # amount, arg_payTo = rcpt\<rparr> \<longrightarrow>
      s1 = st \<and> s2 = st \<and>
      c1 = [BuildPaymentRequirements args, BuildAcceptsResolved args] \<and> c2 = c1 \<and>
      (let exact_entry =
          (\<lambda>q. JObject
                [(''scheme'', JString (req_scheme q)), (''network'', JString (req_network q)),
                 (''asset'', JString (case req_asset q of None \<Rightarrow> [] | Some a \<Rightarrow> a)),
                 (''amount'', JString (req_amount q)), (''payTo'', JString (req_payTo q)),
                 (''maxTimeoutSeconds'',
                    JNumber (case req_maxTimeoutSeconds q of
                               None \<Rightarrow> 600 | Some n \<Rightarrow> if n = 0 then 600 else n)),
                 (''extra'',
                    case req_extra q of
                      None \<Rightarrow> JObject [] | Some x \<Rightarrow> if truthy x then x else JObject [])]);
        escrow_entry =
          (\<lambda>a. case accept_price a of
                PriceObj p \<Rightarrow>
                  JObject
                    [(''scheme'', JString (accept_scheme a)), (''network'', JString (accept_network a)),
                     (''asset'', JString (price_asset p)), (''amount'', JString (price_amount p)),
                     (''payTo'', JString (accept_payTo a)),
                     (''maxTimeoutSeconds'',
                        JNumber (case accept_maxTimeoutSeconds a of
                                   None \<Rightarrow> 600 | Some n \<Rightarrow> if n = 0 then 600 else n)),
                     (''extra'',
                        case price_extra p of
                          None \<Rightarrow> JObject [] | Some x \<Rightarrow> if truthy x then x else JObject [])]
              | PricePrimitive s \<Rightarrow>
                  JObject
                    [(''scheme'', JString (accept_scheme a)), (''network'', JString (accept_network a)),
                     (''asset'', JString []), (''amount'', JString s),
                     (''payTo'', JString (accept_payTo a)),
                     (''maxTimeoutSeconds'',
                        JNumber (case accept_maxTimeoutSeconds a of
                                   None \<Rightarrow> 600 | Some n \<Rightarrow> if n = 0 then 600 else n)),
                     (''extra'', JObject [])]);
        accepts_of =
          (\<lambda>builders.
             (case buildPaymentRequirements builders args of
                Inl m \<Rightarrow> [] | Inr reqs \<Rightarrow> map exact_entry reqs) @
             (case buildAcceptsResolved builders args of
                Inl m \<Rightarrow> [] | Inr accepts \<Rightarrow> map escrow_entry accepts))
       in (accepts_of e1 \<noteq> [] \<longrightarrow>
             status r1 = 402 \<and>
             headers_get r1 ''PAYMENT-REQUIRED'' =
               Some (base64_encode (JSON_stringify (JArray (accepts_of e1))))) \<and>
          (accepts_of e1 = [] \<longrightarrow>
             status r1 = 500 \<and>
             body r1 = JObject [(''error'', JString ''No payment options available'')]) \<and>
          (accepts_of e2 \<noteq> [] \<longrightarrow>
             status r2 = 402 \<and>
             headers_get r2 ''PAYMENT-REQUIRED'' =
               Some (base64_encode (JSON_stringify (JArray (accepts_of e2))))) \<and>
          (accepts_of e2 = [] \<longrightarrow>
             status r2 = 500 \<and>
             body r2 = JObject [(''error'', JString ''No payment options available'')])))"
  (is "_ \<and> _ \<and> _ \<and> _ \<and> ?consecutive")
proof (intro conjI)
  show "getCachedRequirements st key = None"
    by (simp add: getCachedRequirements_def)
  show "cacheRequirements st key reqs = st"
    by (simp add: cacheRequirements_def)
  show "handle402Response e st to amount network rcpt =
        handle402Response_uncached e st to amount network rcpt"
    by (simp add: handle402Response_eq handle402Response_uncached_def Let_def)
  show "get_property (body (fst (handle402Response e st to amount network rcpt))) ''message'' \<noteq>
     Some (JString ''Payment required (cached)'')"
    by (simp add: handle402Response_eq Let_def no_options_parts challenge_def NextResponse_json_def)
  show ?consecutive
    unfolding Let_def
    by (intro allI impI) (rule pass_through_general [OF requirement_entries refl refl])
qed


theorem requirements_cache_witness:
  "status (fst (handle402Response both_env cold ''0xabc'' ''0.01'' ''eip155:84532'' ''0xRecipient'')) = 402 \<and>
   headers_get (fst (handle402Response both_env cold ''0xabc'' ''0.01'' ''eip155:84532'' ''0xRecipient'')) ''PAYMENT-REQUIRED'' =
     Some (base64_encode (JSON_stringify (JArray
          [JObject [(''scheme'', JString ''exact''), (''network'', JString ''eip155:84532''),
                   (''asset'', JString ''0x036CbD53''), (''amount'', JString ''10000''),
                   (''payTo'', JString ''0xRecipient''), (''maxTimeoutSeconds'', JNumber 600),
                   (''extra'', JObject [(''name'', JString ''USDC''), (''version'', JString ''2'')])],
           JObject [(''scheme'', JString ''escrow''), (''network'', JString ''eip155:84532''),
                   (''asset'', JString ''0x036CbD53''), (''amount'', JString ''10000''),
                   (''payTo'', JString ''0xRecipient''), (''maxTimeoutSeconds'', JNumber 600),
                   (''extra'', JObject [(''escrowContract'', JString ''0xE5'')])],
           JObject [(''scheme'', JString ''escrow''), (''network'', JString ''eip155:84532''),
                   (''asset'', JString []), (''amount'', JString ''10000''),
                   (''payTo'', JString ''0xRecipient''), (''maxTimeoutSeconds'', JNumber 300),
                   (''extra'', JObject [])]]))) \<and>
   snd (handle402Response both_env cold ''0xabc'' ''0.01'' ''eip155:84532'' ''0xRecipient'') =
     ([BuildPaymentRequirements \<lparr>arg_network = ''eip155:84532'', arg_price = ''$0.01'', arg_payTo = ''0xRecipient''\<rparr>,
       BuildAcceptsResolved \<lparr>arg_network = ''eip155:84532'', arg_price = ''$0.01'', arg_payTo = ''0xRecipient''\<rparr>],
      cold) \<and>
   status (fst (handle402Response swap_only_env cold ''0xabc'' ''0.01'' ''eip155:84532'' ''0xRecipient'')) = 402 \<and>
   headers_get (fst (handle402Response swap_only_env cold ''0xabc'' ''0.01'' ''eip155:84532'' ''0xRecipient'')) ''PAYMENT-REQUIRED'' =
     Some (base64_encode (JSON_stringify (JArray
          [JObject [(''scheme'', JString ''escrow''), (''network'', JString ''eip155:84532''),
                   (''asset'', JString ''0x036CbD53''), (''amount'', JString ''10000''),
                   (''payTo'', JString ''0xRecipient''), (''maxTimeoutSeconds'', JNumber 600),
                   (''extra'', JObject [(''escrowContract'', JString ''0xE5'')])]]))) \<and>
   snd (handle402Response swap_only_env cold ''0xabc'' ''0.01'' ''eip155:84532'' ''0xRecipient'') =
     ([BuildPaymentRequirements \<lparr>arg_network = ''eip155:84532'', arg_price = ''$0.01'', arg_payTo = ''0xRecipient''\<rparr>,
       BuildAcceptsResolved \<lparr>arg_network = ''eip155:84532'', arg_price = ''$0.01'', arg_payTo = ''0xRecipient''\<rparr>],
      cold)"
proof -
  obtain r1 c1 s1 where run1: "handle402Response both_env cold ''0xabc'' ''0.01'' ''eip155:84532'' ''0xRecipient'' = (r1, c1, s1)"
    by (cases "handle402Response both_env cold ''0xabc'' ''0.01'' ''eip155:84532'' ''0xRecipient''") auto
  obtain r2 c2 s2 where run2: "handle402Response swap_only_env s1 ''0xabc'' ''0.01'' ''eip155:84532'' ''0xRecipient'' = (r2, c2, s2)"
    by (cases "handle402Response swap_only_env s1 ''0xabc'' ''0.01'' ''eip155:84532'' ''0xRecipient''") auto
  note samples = sample_builders sample_exact_def sample_accept_def plain_accept_def
  from requirements_cache_is_pass_through [where st = cold and ?e1.0 = both_env
      and ?e2.0 = swap_only_env and to = "''0xabc''" and amount = "''0.01''"
      and network = "''eip155:84532''" and rcpt = "''0xRecipient''"] run1 run2
  have "s1 = cold \<and> s2 = cold \<and>
        c1 = [BuildPaymentRequirements \<lparr>arg_network = ''eip155:84532'', arg_price = ''$0.01'', arg_payTo = ''0xRecipient''\<rparr>,
              BuildAcceptsResolved \<lparr>arg_network = ''eip155:84532'', arg_price = ''$0.01'', arg_payTo = ''0xRecipient''\<rparr>] \<and>
        c2 = c1 \<and>
        status r1 = 402 \<and>
        headers_get r1 ''PAYMENT-REQUIRED'' =
          Some (base64_encode (JSON_stringify (JArray
            [JObject [(''scheme'', JString ''exact''), (''network'', JString ''eip155:84532''),
                   (''asset'', JString ''0x036CbD53''), (''amount'', JString ''10000''),
                   (''payTo'', JString ''0xRecipient''), (''maxTimeoutSeconds'', JNumber 600),
                   (''extra'', JObject [(''name'', JString ''USDC''), (''version'', JString ''2'')])],
             JObject [(''scheme'', JString ''escrow''), (''network'', JString ''eip155:84532''),
                   (''asset'', JString ''0x036CbD53''), (''amount'', JString ''10000''),
                   (''payTo'', JString ''0xRecipient''), (''maxTimeoutSeconds'', JNumber 600),
                   (''extra'', JObject [(''escrowContract'', JString ''0xE5'')])],
             JObject [(''scheme'', JString ''escrow''), (''network'', JString ''eip155:84532''),
                   (''asset'', JString []), (''amount'', JString ''10000''),
                   (''payTo'', JString ''0xRecipient''), (''maxTimeoutSeconds'', JNumber 300),
                   (''extra'', JObject [])]]))) \<and>
        status r2 = 402 \<and>
        headers_get r2 ''PAYMENT-REQUIRED'' =
          Some (base64_encode (JSON_stringify (JArray
            [JObject [(''scheme'', JString ''escrow''), (''network'', JString ''eip155:84532''),
                   (''asset'', JString ''0x036CbD53''), (''amount'', JString ''10000''),
                   (''payTo'', JString ''0xRecipient''), (''maxTimeoutSeconds'', JNumber 600),
                   (''extra'', JObject [(''escrowContract'', JString ''0xE5'')])]])))"
    by (simp add: samples Let_def del: JSON_stringify.simps)
  then show ?thesis using run1 run2 by simp
qed

text \<open>
  With both quotes failing, two consecutive challenges with the same parameters both
  call the two builders again, and both are answered with the 500.
\<close>

theorem consecutive_challenges_without_quotes_are_500:
  "GET failing_env cold (challenge_request ''0.01'' (Some ''eip155:84532'')) =
     (Responded no_options,
      [ResolveRecipient ''0xabc'', GetSupported,
       BuildPaymentRequirements \<lparr>arg_network = ''eip155:84532'', arg_price = ''$0.01'', arg_payTo = ''0xRecipient''\<rparr>,
       BuildAcceptsResolved \<lparr>arg_network = ''eip155:84532'', arg_price = ''$0.01'', arg_payTo = ''0xRecipient''\<rparr>],
      warm) \<and>
   GET failing_env warm (challenge_request ''0.01'' (Some ''eip155:84532'')) =
     (Responded no_options,
      [ResolveRecipient ''0xabc'',
       BuildPaymentRequirements \<lparr>arg_network = ''eip155:84532'', arg_price = ''$0.01'', arg_payTo = ''0xRecipient''\<rparr>,
       BuildAcceptsResolved \<lparr>arg_network = ''eip155:84532'', arg_price = ''$0.01'', arg_payTo = ''0xRecipient''\<rparr>],
      warm) \<and>
   status no_options = 500 \<and>
   body no_options = JObject [(''error'', JString ''No payment options available'')]"
proof -
  have e: "resolveRecipient failing_env ''0xabc'' = Some ''0xRecipient''"
    "getSupported failing_env = getSupported sample_env"
    by (simp_all add: failing_env_def sample_env_def)
  have "GET failing_env cold (challenge_request ''0.01'' (Some ''eip155:84532'')) =
     (Responded no_options,
      ResolveRecipient ''0xabc'' # [GetSupported] @
      [BuildPaymentRequirements \<lparr>arg_network = ''eip155:84532'', arg_price = ''$0.01'', arg_payTo = ''0xRecipient''\<rparr>,
       BuildAcceptsResolved \<lparr>arg_network = ''eip155:84532'', arg_price = ''$0.01'', arg_payTo = ''0xRecipient''\<rparr>],
      warm)"
    by (rule GET_challenge [OF e(1) sample_networks_of(1) [OF e(2)] no_quotes_run(2)])
  moreover
  have "GET failing_env warm (challenge_request ''0.01'' (Some ''eip155:84532'')) =
     (Responded no_options,
      ResolveRecipient ''0xabc'' # [] @
      [BuildPaymentRequirements \<lparr>arg_network = ''eip155:84532'', arg_price = ''$0.01'', arg_payTo = ''0xRecipient''\<rparr>,
       BuildAcceptsResolved \<lparr>arg_network = ''eip155:84532'', arg_price = ''$0.01'', arg_payTo = ''0xRecipient''\<rparr>],
      warm)"
    by (rule GET_challenge [OF e(1) sample_networks_of(2) [OF e(2)] no_quotes_run(2)])
  ultimately show ?thesis by (simp add: no_options_parts)
qed

section \<open>Round trips through a header\<close>

lemma header_roundtrip:
  "wf_json v \<Longrightarrow> JSON_parse (base64_decode (base64_encode (JSON_stringify v))) = Some v"
  by (simp add: base64_roundtrip JSON_roundtrip)

lemma object_of_Nil: "object_of [] = JObject []"
  by (simp add: object_of_def)

lemma object_of_None: "object_of ((k, None) # ps) = object_of ps"
  by (simp add: object_of_def)

lemma object_of_Some:
  "object_of ps = JObject kvs \<Longrightarrow> object_of ((k, Some v) # ps) = JObject ((k, v) # kvs)"
  by (simp add: object_of_def)

lemma object_of_keys:
  "object_of ps = JObject kvs \<Longrightarrow> fst ` set kvs \<subseteq> fst ` set ps"
proof (induction ps arbitrary: kvs)
  case Nil
  then show ?case by (simp add: object_of_def)
next
  case (Cons p ps)
  obtain k x where p: "p = (k, x)" by (cases p) auto
  obtain kvs' where o: "object_of ps = JObject kvs'" by (simp add: object_of_def)
  from Cons.IH [OF o] have sub: "fst ` set kvs' \<subseteq> fst ` set ps" .
  show ?case
  proof (cases x)
    case None
    with Cons.prems o have "kvs = kvs'" by (simp add: p object_of_None)
    with sub show ?thesis by auto
  next
    case (Some v)
    with Cons.prems object_of_Some [OF o, of k v] have "kvs = (k, v) # kvs'" by (simp add: p)
    with sub show ?thesis by (auto simp: p)
  qed
qed

lemma object_of_wf:
  "distinct (map fst ps) \<Longrightarrow> (\<And>k v. (k, Some v) \<in> set ps \<Longrightarrow> wf_json v) \<Longrightarrow>
   wf_json (object_of ps)"
proof (induction ps)
  case Nil
  then show ?case by (simp add: object_of_def)
next
  case (Cons p ps)
  obtain k x where p: "p = (k, x)" by (cases p) auto
  obtain kvs where o: "object_of ps = JObject kvs" by (simp add: object_of_def)
  have "wf_json (object_of ps)"
    by (rule Cons.IH) (use Cons.prems in auto)
  then have w: "distinct (map fst kvs)" "list_all (\<lambda>kv. wf_json (snd kv)) kvs"
    unfolding o by simp_all
  from Cons.prems(1) object_of_keys [OF o] have fresh: "k \<notin> fst ` set kvs"
    by (auto simp: p)
  show ?case
  proof (cases x)
    case None
    then show ?thesis using w by (simp add: p object_of_None o)
  next
    case (Some v)
    with Cons.prems(2) [of k v] have "wf_json v" by (simp add: p)
    with Some w fresh show ?thesis by (simp add: p object_of_Some [OF o])
  qed
qed

lemma JString_option: "Some v = map_option JString x \<Longrightarrow> \<exists>s. v = JString s"
  by (cases x) auto

lemma PaymentResult_json_wf: "wf_json (PaymentResult_json r)"
  unfolding PaymentResult_json_def
proof (rule object_of_wf)
  show "distinct (map fst
     [(''success'', Some (JBool (result_success r))),
      (''transaction'', map_option JString (result_transaction r)),
      (''network'', map_option JString (result_network r)),
      (''recipient'', map_option JString (result_recipient r)),
      (''amount'', map_option JString (result_amount r)),
      (''message'', map_option JString (result_message r)),
      (''errorReason'', map_option JString (result_errorReason r))])"
    by simp
next
  fix k v
  assume "(k, Some v) \<in> set
     [(''success'', Some (JBool (result_success r))),
      (''transaction'', map_option JString (result_transaction r)),
      (''network'', map_option JString (result_network r)),
      (''recipient'', map_option JString (result_recipient r)),
      (''amount'', map_option JString (result_amount r)),
      (''message'', map_option JString (result_message r)),
      (''errorReason'', map_option JString (result_errorReason r))]"
  then have "(\<exists>b. v = JBool b) \<or> (\<exists>s. v = JString s)"
    by (auto dest: JString_option)
  then show "wf_json v" by auto
qed

lemma get_property_object_of:
  "distinct (map fst ps) \<Longrightarrow>
   get_property (object_of ps) k = (case map_of ps k of None \<Rightarrow> None | Some x \<Rightarrow> x)"
proof (induction ps)
  case Nil
  then show ?case by (simp add: object_of_def)
next
  case (Cons p ps)
  obtain k' x where p: "p = (k', x)" by (cases p) auto
  obtain kvs where o: "object_of ps = JObject kvs" by (simp add: object_of_def)
  from Cons have IH: "map_of kvs k = (case map_of ps k of None \<Rightarrow> None | Some x \<Rightarrow> x)"
    by (simp add: o)
  from Cons.prems object_of_keys [OF o] have fresh: "k' \<notin> fst ` set kvs"
    by (auto simp: p)
  show ?case
  proof (cases x)
    case None
    have "map_of kvs k' = None" using fresh by (simp add: map_of_eq_None_iff)
    with None IH show ?thesis by (auto simp: p object_of_None o)
  next
    case (Some v)
    with IH show ?thesis by (simp add: p object_of_Some [OF o])
  qed
qed

lemma string_property_object_of:
  "distinct (map fst ps) \<Longrightarrow> map_of ps k = Some (map_option JString x) \<Longrightarrow>
   string_property (object_of ps) k = x"
  by (cases x) (simp_all add: string_property_def get_property_object_of)

lemma PaymentResult_of_json_inverse: "PaymentResult_of_json (PaymentResult_json r) = r"
proof -
  let ?ps = "[(''success'', Some (JBool (result_success r))),
        (''transaction'', map_option JString (result_transaction r)),
        (''network'', map_option JString (result_network r)),
        (''recipient'', map_option JString (result_recipient r)),
        (''amount'', map_option JString (result_amount r)),
        (''message'', map_option JString (result_message r)),
        (''errorReason'', map_option JString (result_errorReason r))]"
  have d: "distinct (map fst ?ps)" by simp
  have s: "get_property (object_of ?ps) ''success'' = Some (JBool (result_success r))"
    by (simp add: get_property_object_of [OF d])
  have f: "string_property (object_of ?ps) ''transaction'' = result_transaction r"
    "string_property (object_of ?ps) ''network'' = result_network r"
    "string_property (object_of ?ps) ''recipient'' = result_recipient r"
    "string_property (object_of ?ps) ''amount'' = result_amount r"
    "string_property (object_of ?ps) ''message'' = result_message r"
    "string_property (object_of ?ps) ''errorReason'' = result_errorReason r"
    by (rule string_property_object_of [OF d], simp)+
  show ?thesis
    unfolding PaymentResult_of_json_def PaymentResult_json_def s f by simp
qed

lemma settled_body_wf: "wf_json (body (settled sr to amount network rcpt))"
proof -
  have "wf_json (object_of
          [(''success'', Some (JBool True)),
           (''message'', Some (JString (''Tip of $'' @ amount @ '' received by '' @ to))),
           (''transaction'', map_option JString (transaction sr)),
           (''network'', Some (JString (or_default (settle_network sr) network))),
           (''recipient'', Some (JString rcpt)),
           (''amount'', Some (JString amount))])"
  proof (rule object_of_wf)
    fix k v
    assume "(k, Some v) \<in> set
          [(''success'', Some (JBool True)),
           (''message'', Some (JString (''Tip of $'' @ amount @ '' received by '' @ to))),
           (''transaction'', map_option JString (transaction sr)),
           (''network'', Some (JString (or_default (settle_network sr) network))),
           (''recipient'', Some (JString rcpt)),
           (''amount'', Some (JString amount))]"
    then have "(\<exists>b. v = JBool b) \<or> (\<exists>s. v = JString s)"
      by (auto dest: JString_option)
    then show "wf_json v" by auto
  qed simp
  then show ?thesis by (simp add: settled_def payment_response_parts)
qed

lemma payment_body_wf:
  "r = caught m \<or> r = verification_failed vr \<or> r = settlement_failed sr \<or>
   r = settled sr' to amount network rcpt \<Longrightarrow> wf_json (body r)"
  using settled_body_wf [of sr' to amount network rcpt]
  by (auto simp: caught_parts verification_failed_parts settlement_failed_parts)

lemma payment_response_decodes:
  assumes "handlePaymentSubmission e to amount network rcpt sig = (r, calls)" "status r \<noteq> 400"
  shows "\<exists>h. headers_get r ''PAYMENT-RESPONSE'' = Some h \<and>
             JSON_parse (base64_decode h) = Some (body r)"
proof -
  from submission_outcomes [OF assms(1)] assms(2)
  obtain m vr sr where d: "r = caught m \<or> r = verification_failed vr \<or> r = settlement_failed sr \<or>
      r = settled sr to amount network rcpt"
    by (auto simp: malformed_parts)
  then have "wf_json (body r)" by (rule payment_body_wf)
  moreover from mirrored [OF d]
  have "headers_get r ''PAYMENT-RESPONSE'' = Some (base64_encode (JSON_stringify (body r)))"
    by simp
  ultimately show ?thesis by (simp add: header_roundtrip)
qed


text \<open>
  C9. For every \<open>PaymentResult\<close>, success-shaped or failure-shaped, parsing the
  base64-decoded header made of its JSON text gives back the same JSON value, and reading
  that value as a \<open>PaymentResult\<close> gives back the same record. So does every
  \<open>PAYMENT-RESPONSE\<close> header the route sets: it decodes to the body that was sent.
\<close>

theorem payment_result_roundtrip:
  "JSON_parse (base64_decode (base64_encode (JSON_stringify (PaymentResult_json r)))) =
     Some (PaymentResult_json r) \<and>
   PaymentResult_of_json (PaymentResult_json r) = r \<and>
   (\<forall>e to amount network rcpt sig resp calls.
      handlePaymentSubmission e to amount network rcpt sig = (resp, calls) \<and> status resp \<noteq> 400 \<longrightarrow>
      (\<exists>h. headers_get resp ''PAYMENT-RESPONSE'' = Some h \<and>
           JSON_parse (base64_decode h) = Some (body resp)))"
proof (intro conjI allI impI)
  show "JSON_parse (base64_decode (base64_encode (JSON_stringify (PaymentResult_json r)))) =
     Some (PaymentResult_json r)"
    by (rule header_roundtrip) (rule PaymentResult_json_wf)
  show "PaymentResult_of_json (PaymentResult_json r) = r"
    by (rule PaymentResult_of_json_inverse)
next
  fix e to amount network rcpt sig resp calls
  assume "handlePaymentSubmission e to amount network rcpt sig = (resp, calls) \<and> status resp \<noteq> 400"
  then show "\<exists>h. headers_get resp ''PAYMENT-RESPONSE'' = Some h \<and>
           JSON_parse (base64_decode h) = Some (body resp)"
    using payment_response_decodes by blast
qed

theorem payment_result_roundtrip_witness:
  "JSON_parse (base64_decode (base64_encode (JSON_stringify (PaymentResult_json success_result)))) =
     Some (JObject [(''success'', JBool True), (''transaction'', JString ''0xabc123''),
                    (''network'', JString ''eip155:84532''), (''recipient'', JString ''0xRecipient''),
                    (''amount'', JString ''0.01''),
                    (''message'', JString ''Tip of $0.01 received by 0xabc'')]) \<and>
   JSON_parse (base64_decode (base64_encode (JSON_stringify (PaymentResult_json failure_result)))) =
     Some (JObject [(''success'', JBool False), (''errorReason'', JString ''insufficient_funds'')]) \<and>
   PaymentResult_of_json (PaymentResult_json failure_result) = failure_result \<and>
   (\<exists>h. headers_get (fst (handlePaymentSubmission rejecting_env ''0xabc'' ''0.01'' ''eip155:84532''
                            ''0xRecipient'' sample_signature)) ''PAYMENT-RESPONSE'' = Some h \<and>
        JSON_parse (base64_decode h) =
          Some (JObject [(''success'', JBool False), (''errorReason'', JString ''insufficient_funds'')]))"
proof -
  have s: "PaymentResult_json success_result =
      JObject [(''success'', JBool True), (''transaction'', JString ''0xabc123''),
               (''network'', JString ''eip155:84532''), (''recipient'', JString ''0xRecipient''),
               (''amount'', JString ''0.01''),
               (''message'', JString ''Tip of $0.01 received by 0xabc'')]"
    by (simp add: PaymentResult_json_def success_result_def object_of_def)
  have f: "PaymentResult_json failure_result =
      JObject [(''success'', JBool False), (''errorReason'', JString ''insufficient_funds'')]"
    by (simp add: PaymentResult_json_def failure_result_def object_of_def)
  have st: "status (verification_failed \<lparr>isValid = False, invalidReason = Some ''insufficient_funds'', payer = None\<rparr>) \<noteq> 400"
    by (simp add: verification_failed_parts)
  have b: "body (verification_failed \<lparr>isValid = False, invalidReason = Some ''insufficient_funds'', payer = None\<rparr>) =
      JObject [(''success'', JBool False), (''errorReason'', JString ''insufficient_funds'')]"
    by (simp add: verification_failed_parts or_default_def)
  note t1 = payment_result_roundtrip [of success_result, unfolded s]
  note t2 = payment_result_roundtrip [of failure_result, unfolded f]
  have 1: "JSON_parse (base64_decode (base64_encode (JSON_stringify
             (JObject [(''success'', JBool True), (''transaction'', JString ''0xabc123''),
               (''network'', JString ''eip155:84532''), (''recipient'', JString ''0xRecipient''),
               (''amount'', JString ''0.01''),
               (''message'', JString ''Tip of $0.01 received by 0xabc'')])))) =
     Some (JObject [(''success'', JBool True), (''transaction'', JString ''0xabc123''),
               (''network'', JString ''eip155:84532''), (''recipient'', JString ''0xRecipient''),
               (''amount'', JString ''0.01''),
               (''message'', JString ''Tip of $0.01 received by 0xabc'')])"
    using t1 by (rule conjunct1)
  have 2: "JSON_parse (base64_decode (base64_encode (JSON_stringify
             (JObject [(''success'', JBool False), (''errorReason'', JString ''insufficient_funds'')])))) =
     Some (JObject [(''success'', JBool False), (''errorReason'', JString ''insufficient_funds'')])"
    using t2 by (rule conjunct1)
  have 3: "PaymentResult_of_json
             (JObject [(''success'', JBool False), (''errorReason'', JString ''insufficient_funds'')]) =
           failure_result"
    using t2 by blast
  from t2 rejecting_run st
  have "\<exists>h. headers_get (verification_failed \<lparr>isValid = False, invalidReason = Some ''insufficient_funds'', payer = None\<rparr>)
               ''PAYMENT-RESPONSE'' = Some h \<and>
        JSON_parse (base64_decode h) =
          Some (body (verification_failed \<lparr>isValid = False, invalidReason = Some ''insufficient_funds'', payer = None\<rparr>))"
    by blast
  then have 4: "\<exists>h. headers_get (fst (handlePaymentSubmission rejecting_env ''0xabc'' ''0.01'' ''eip155:84532''
                            ''0xRecipient'' sample_signature)) ''PAYMENT-RESPONSE'' = Some h \<and>
        JSON_parse (base64_decode h) =
          Some (JObject [(''success'', JBool False), (''errorReason'', JString ''insufficient_funds'')])"
    unfolding rejecting_run b by simp
  show ?thesis
    unfolding s f using 1 2 3 4 by blast
qed

lemma signature_decodes:
  "wf_json P \<Longrightarrow> JSON_parse (base64_decode (signature_of P)) = Some P"
  by (simp add: signature_of_def header_roundtrip)

lemma full_payload_parts:
  "get_property (fullPaymentPayload P A B to amount network) ''accepted'' = Some A"
  "get_property (fullPaymentPayload P A B to amount network) ''payload'' = Some B"
  "get_property (fullPaymentPayload P A B to amount network) ''resource'' =
     Some (resource_of to amount network)"
  by (simp_all add: fullPaymentPayload_def)

text \<open>
  C7. The hook sends the payload it was given as base64 of its JSON text, and the route
  reads back that very payload. Every facilitator call of a submission, verify and
  settle alike, receives \<open>preprocessSwapPayload\<close> applied once to the reconstructed full
  payload, whose \<open>accepted\<close> and \<open>payload\<close> are the client's own, together with the
  \<open>accepted\<close> requirement of the processed payload.
\<close>

theorem swap_payload_preprocessed_once:
  "wf_json P \<Longrightarrow>
   handlePaymentSubmission e to amount network rcpt (signature_of P) = (r, calls) \<Longrightarrow>
   JSON_parse (base64_decode (signature_of P)) = Some P \<and>
   (\<forall>p a. Verify p a \<in> set calls \<or> Settle p a \<in> set calls \<longrightarrow>
      truthy_opt (get_property P ''accepted'') \<and> truthy_opt (get_property P ''payload'') \<and>
      preprocessSwapPayload e
        (fullPaymentPayload P (the (get_property P ''accepted'')) (the (get_property P ''payload''))
           to amount network) = Inr p \<and>
      a = get_property p ''accepted'') \<and>
   (\<forall>p a p' a'. Verify p a \<in> set calls \<and> Settle p' a' \<in> set calls \<longrightarrow> p' = p \<and> a' = a) \<and>
   get_property
     (fullPaymentPayload P (the (get_property P ''accepted'')) (the (get_property P ''payload''))
        to amount network) ''accepted'' = Some (the (get_property P ''accepted'')) \<and>
   get_property
     (fullPaymentPayload P (the (get_property P ''accepted'')) (the (get_property P ''payload''))
        to amount network) ''payload'' = Some (the (get_property P ''payload''))"
proof -
  assume wf: "wf_json P"
    and run: "handlePaymentSubmission e to amount network rcpt (signature_of P) = (r, calls)"
  have dec: "JSON_parse (base64_decode (signature_of P)) = Some P"
    by (rule signature_decodes [OF wf])
  let ?full = "fullPaymentPayload P (the (get_property P ''accepted''))
                 (the (get_property P ''payload'')) to amount network"
  from submission_outcomes [OF run]
  have cases: "calls = [] \<or>
     (\<exists>pp. truthy_opt (get_property P ''accepted'') \<and> truthy_opt (get_property P ''payload'') \<and>
           preprocessSwapPayload e ?full = Inr pp \<and>
           (calls = [Verify pp (get_property pp ''accepted'')] \<or>
            calls = [Verify pp (get_property pp ''accepted''), Settle pp (get_property pp ''accepted'')]))"
    unfolding dec by auto
  have calls: "\<forall>p a. Verify p a \<in> set calls \<or> Settle p a \<in> set calls \<longrightarrow>
      truthy_opt (get_property P ''accepted'') \<and> truthy_opt (get_property P ''payload'') \<and>
      preprocessSwapPayload e ?full = Inr p \<and> a = get_property p ''accepted''"
    using cases by auto
  have same: "\<forall>p a p' a'. Verify p a \<in> set calls \<and> Settle p' a' \<in> set calls \<longrightarrow> p' = p \<and> a' = a"
    using cases by auto
  show ?thesis
    using dec calls same by (simp add: full_payload_parts)
qed

lemma sample_payload_wf: "wf_json sample_payload"
  by (simp add: sample_payload_def)

theorem swap_payload_preprocessed_once_witness:
  "preprocessSwapPayload sample_env
     (fullPaymentPayload sample_payload (the (get_property sample_payload ''accepted''))
        (the (get_property sample_payload ''payload'')) ''0xabc'' ''0.01'' ''eip155:84532'') =
     Inr sample_processed \<and>
   sample_accepted = get_property sample_processed ''accepted'' \<and>
   snd (handlePaymentSubmission sample_env ''0xabc'' ''0.01'' ''eip155:84532'' ''0xRecipient''
          (signature_of sample_payload)) =
     [Verify sample_processed sample_accepted, Settle sample_processed sample_accepted] \<and>
   preprocessSwapPayload sample_env sample_processed \<noteq> Inr sample_processed"
proof -
  have run: "handlePaymentSubmission sample_env ''0xabc'' ''0.01'' ''eip155:84532'' ''0xRecipient''
          (signature_of sample_payload) =
     (settled \<lparr>success = True, transaction = Some ''0xabc123'',
               settle_network = Some ''eip155:84532'', errorReason = None\<rparr>
        ''0xabc'' ''0.01'' ''eip155:84532'' ''0xRecipient'',
      [Verify sample_processed sample_accepted, Settle sample_processed sample_accepted])"
    using sample_run by (simp add: sample_signature_def)
  have "Verify sample_processed sample_accepted \<in>
        set [Verify sample_processed sample_accepted, Settle sample_processed sample_accepted]"
    by simp
  with swap_payload_preprocessed_once [OF sample_payload_wf run]
  have "preprocessSwapPayload sample_env
     (fullPaymentPayload sample_payload (the (get_property sample_payload ''accepted''))
        (the (get_property sample_payload ''payload'')) ''0xabc'' ''0.01'' ''eip155:84532'') =
     Inr sample_processed \<and> sample_accepted = get_property sample_processed ''accepted''"
    by blast
  moreover have "preprocessSwapPayload sample_env sample_processed \<noteq> Inr sample_processed"
    by (simp add: sample_env_def sample_preprocess_def sample_processed_def)
  ultimately show ?thesis by (simp add: run)
qed

end
